(* ===== verification/Memory_Types.thy ===== *)
theory Memory_Types
  imports Prelude
begin

text \<open>
  The memory records a knowledge pack carries, as declared in
  \<open>ferrosa-memory-core/src/types.rs\<close>, \<open>remotes/types.rs\<close> and \<open>remote_identity.rs\<close>.
  Identifiers are 128-bit words, instants are integers, floating-point fields are
  bit patterns that no operation of this part inspects (the embeddings apart, of
  which only finiteness is read). Field names carry a prefix per record, because
  several Rust structs share field names.
\<close>

section \<open>Newtypes of \<open>remote_identity.rs\<close>\<close>

datatype instance_id = InstanceId uuid

datatype content_hash = ContentHash string

datatype public_key_fingerprint = PublicKeyFingerprint string

fun fingerprint_text :: "public_key_fingerprint \<Rightarrow> string" where
  "fingerprint_text (PublicKeyFingerprint s) = s"

text \<open>A \<open>serde_json::Value\<close>. A number is kept as its source text.\<close>

datatype json =
    JNull
  | JBool bool
  | JNumber string
  | JString string
  | JArray "json list"
  | JObject "(string \<times> json) list"

section \<open>Entities, folds, temporal events and edges (\<open>types.rs\<close>)\<close>

datatype memory_state = MemActive | MemDormant | MemSilent | MemUnavailable

datatype entity_scope = ScopeSession | ScopeGlobal

datatype fold_status = FoldActive | FoldFolded | FoldArchived

fun is_retrievable :: "memory_state \<Rightarrow> bool" where
  "is_retrievable MemUnavailable = False"
| "is_retrievable MemActive = True"
| "is_retrievable MemDormant = True"
| "is_retrievable MemSilent = True"

record entity_entry =
  ee_tenant_id :: uuid
  ee_entity_id :: uuid
  ee_session_id :: uuid
  ee_entity_name :: string
  ee_entity_type :: string
  ee_source_fold_id :: "uuid option"
  ee_context_snippet :: string
  ee_entity_embedding :: "f32 list option"
  ee_confidence :: f64
  ee_state :: memory_state
  ee_created_at :: instant
  ee_description :: "string option"
  ee_description_embedding :: "f32 list option"
  ee_tags :: "string list"
  ee_properties :: json
  ee_content_hash :: "string option"
  ee_updated_at :: "instant option"
  ee_scope :: entity_scope
  ee_ingested_by_session :: "uuid option"

record fold_entry =
  fe_session_id :: uuid
  fe_fold_id :: uuid
  fe_tenant_id :: uuid
  fe_depth :: i32
  fe_parent_fold_id :: "uuid option"
  fe_raw_trajectory :: string
  fe_fold_summary :: "string option"
  fe_fold_embedding :: "f32 list option"
  fe_token_count :: i32
  fe_compression_ratio :: "f64 option"
  fe_status :: fold_status
  fe_created_at :: instant
  fe_folded_at :: "instant option"

record temporal_event =
  te_tenant_id :: uuid
  te_entity_id :: uuid
  te_event_time :: instant
  te_event_id :: uuid
  te_fact_text :: string
  te_supersedes_id :: "uuid option"
  te_valid_until :: "instant option"
  te_source_session :: uuid
  te_confidence :: f64

record typed_edge =
  ed_tenant_id :: uuid
  ed_session_id :: uuid
  ed_src_id :: uuid
  ed_edge_type :: string
  ed_dst_id :: uuid
  ed_weight :: f64
  ed_metadata :: "string option"
  ed_created_at :: instant

section \<open>Teaching items and provenance (\<open>remotes/types.rs\<close>)\<close>

datatype teaching_kind =
  TkFact | TkDecision | TkPattern | TkBug | TkSummary | TkSkillStub | TkProcedureStub | TkNegative

datatype safety_risk = RiskNone | RiskLow | RiskMedium | RiskHigh | RiskSuspected | RiskRedacted

record applicability_frame =
  af_namespaces :: "string list"
  af_host_os :: "string option"
  af_container_runtime :: "string option"
  af_hardware :: "string list"
  af_required_tags :: "string list"
  af_excluded_tags :: "string list"
  af_confidence :: f64

record safety_classification =
  sc_risk :: safety_risk
  sc_reasons :: "string list"
  sc_redacted :: bool
  sc_requires_human :: bool

record detail_ref =
  dr_remote_id :: uuid
  dr_packet_id :: uuid
  dr_item_id :: uuid
  dr_token :: string
  dr_detail_hash :: content_hash
  dr_more_available :: bool
  dr_expires_at :: instant

record teaching_item =
  ti_item_id :: uuid
  ti_packet_id :: uuid
  ti_kind :: teaching_kind
  ti_title :: string
  ti_summary :: string
  ti_body :: "string option"
  ti_content_hash :: content_hash
  ti_applicability :: applicability_frame
  ti_safety :: safety_classification
  ti_detail_ref :: "detail_ref option"
  ti_metadata :: json
  ti_created_at :: instant

record memory_provenance =
  mp_provenance_id :: uuid
  mp_local_entity_id :: uuid
  mp_remote_id :: uuid
  mp_packet_id :: uuid
  mp_item_id :: uuid
  mp_content_hash :: content_hash
  mp_signature_hash :: content_hash
  mp_imported_at :: instant

end
