(* ===== verification/Remote_Identity.thy ===== *)
theory Remote_Identity
  imports Memory_Types "HOL-Library.Char_ord" "HOL-Library.List_Lexorder" "HOL-Library.Multiset"
begin

text \<open>
  \<open>ferrosa-memory-core/src/remote_identity.rs\<close>: canonical JSON, hexadecimal
  digests and content hashes, and the signed envelope. SHA-256, serde and Ed25519
  are third-party code: they are the fields of \<open>hash_env\<close> and \<open>sig_env\<close>.
\<close>

section \<open>Canonical JSON\<close>

text \<open>\<open>canonicalize_json\<close> sorts the entries of every object by key and inserts
  them into a fresh map, where a later entry replaces an earlier one with the
  same key (a \<open>serde_json::Map\<close> has no duplicate keys to begin with).\<close>

definition object_insert :: "string \<Rightarrow> 'v \<Rightarrow> (string \<times> 'v) list \<Rightarrow> (string \<times> 'v) list" where
  "object_insert k v m =
     (if k \<in> fst ` set m then map (\<lambda>(k', v'). if k' = k then (k', v) else (k', v')) m
      else m @ [(k, v)])"

fun insert_all :: "(string \<times> 'v) list \<Rightarrow> (string \<times> 'v) list \<Rightarrow> (string \<times> 'v) list" where
  "insert_all m [] = m"
| "insert_all m ((k, v) # es) = insert_all (object_insert k v m) es"

fun canonicalize_json :: "json \<Rightarrow> json" where
  "canonicalize_json (JArray vs) = JArray (map canonicalize_json vs)"
| "canonicalize_json (JObject m) =
     JObject (insert_all [] (sort_key fst (map (\<lambda>(k, v). (k, canonicalize_json v)) m)))"
| "canonicalize_json JNull = JNull"
| "canonicalize_json (JBool b) = JBool b"
| "canonicalize_json (JNumber n) = JNumber n"
| "canonicalize_json (JString s) = JString s"

text \<open>A value as \<open>serde_json\<close> builds it: no object repeats a key.\<close>

fun json_wf :: "json \<Rightarrow> bool" where
  "json_wf (JArray vs) = list_all json_wf vs"
| "json_wf (JObject m) = (distinct (map fst m) \<and> list_all (\<lambda>(k, v). json_wf v) m)"
| "json_wf _ = True"

section \<open>Hexadecimal digests\<close>

definition hex_chars :: string where
  "hex_chars = ''0123456789abcdef''"

definition hex_byte :: "u8 \<Rightarrow> string" where
  "hex_byte b = [hex_chars ! unat (drop_bit 4 b), hex_chars ! unat (b AND 15)]"

definition hex_encode :: "bytes \<Rightarrow> string" where
  "hex_encode bs = concat (map hex_byte bs)"

section \<open>Content hashes\<close>

datatype remote_identity_error =
    RiSerde string
  | InvalidPublicKeyLength nat
  | RiPublicKey string
  | InvalidSignatureLength nat
  | RiSignature string
  | SignerMismatch instance_id instance_id
  | FingerprintMismatch
  | RiContentHashMismatch content_hash content_hash

text \<open>\<open>sha256\<close> is \<open>sha2::Sha256\<close>, \<open>json_to_vec\<close> is \<open>serde_json::to_vec\<close> on a value.\<close>

record hash_env =
  sha256 :: "bytes \<Rightarrow> bytes"
  json_to_vec :: "json \<Rightarrow> string + bytes"

definition sha256_bytes :: "'x hash_env_scheme \<Rightarrow> bytes \<Rightarrow> content_hash" where
  "sha256_bytes env bs = ContentHash (hex_encode (sha256 env bs))"

text \<open>The payload reaches both functions through its \<open>serde_json::to_value\<close>, the
  argument \<open>to_value\<close>.\<close>

definition canonical_payload_bytes ::
    "'x hash_env_scheme \<Rightarrow> ('a \<Rightarrow> string + json) \<Rightarrow> 'a \<Rightarrow> remote_identity_error + bytes" where
  "canonical_payload_bytes env to_value payload =
     and_then (map_err RiSerde (to_value payload)) (\<lambda>value.
       map_err RiSerde (json_to_vec env (canonicalize_json value)))"

definition sha256_json ::
    "'x hash_env_scheme \<Rightarrow> ('a \<Rightarrow> string + json) \<Rightarrow> 'a \<Rightarrow> remote_identity_error + content_hash" where
  "sha256_json env to_value payload =
     and_then (map_err RiSerde (to_value payload)) (\<lambda>value.
       let canonical = canonicalize_json value in
       and_then (map_err RiSerde (json_to_vec env canonical)) (\<lambda>bs.
         Ok (sha256_bytes env bs)))"

section \<open>Signed envelopes\<close>

text \<open>\<open>sign_key\<close>, \<open>public_of\<close>, \<open>vk_from_bytes\<close> and \<open>vk_verify\<close> are \<open>ed25519_dalek\<close>:
  signing with a secret, the public key bytes of a secret, decoding a 32-byte
  public key, and checking a 64-byte signature.\<close>

record sig_env = hash_env +
  sign_key :: "bytes \<Rightarrow> bytes \<Rightarrow> bytes"
  public_of :: "bytes \<Rightarrow> bytes"
  vk_from_bytes :: "bytes \<Rightarrow> string + bytes"
  vk_verify :: "bytes \<Rightarrow> bytes \<Rightarrow> bytes \<Rightarrow> string + unit"

record instance_public_identity =
  ipi_instance_id :: instance_id
  ipi_public_key :: bytes
  ipi_fingerprint :: public_key_fingerprint

record instance_signing_identity =
  isi_instance_id :: instance_id
  isi_signing_key :: bytes

record 'a signed_envelope =
  se_payload :: 'a
  se_content_hash :: content_hash
  se_signer :: instance_id
  se_fingerprint :: public_key_fingerprint
  se_signature :: bytes

fun content_hash_text :: "content_hash \<Rightarrow> string" where
  "content_hash_text (ContentHash s) = s"

definition from_verifying_key :: "'x sig_env_scheme \<Rightarrow> bytes \<Rightarrow> public_key_fingerprint" where
  "from_verifying_key env key = PublicKeyFingerprint (content_hash_text (sha256_bytes env key))"

definition verifying_key ::
    "'x sig_env_scheme \<Rightarrow> instance_public_identity \<Rightarrow> remote_identity_error + bytes" where
  "verifying_key env pid =
     and_then (ensure (length (ipi_public_key pid) = 32)
                (InvalidPublicKeyLength (length (ipi_public_key pid)))) (\<lambda>_.
       map_err RiPublicKey (vk_from_bytes env (ipi_public_key pid)))"

definition public_identity ::
    "'x sig_env_scheme \<Rightarrow> instance_signing_identity \<Rightarrow> instance_public_identity" where
  "public_identity env self =
     (let vk = public_of env (isi_signing_key self) in
      \<lparr>ipi_instance_id = isi_instance_id self, ipi_public_key = vk,
       ipi_fingerprint = from_verifying_key env vk\<rparr>)"

definition sign ::
    "'x sig_env_scheme \<Rightarrow> ('a \<Rightarrow> string + json) \<Rightarrow> instance_signing_identity \<Rightarrow> 'a
      \<Rightarrow> remote_identity_error + 'a signed_envelope" where
  "sign env to_value self payload =
     and_then (canonical_payload_bytes env to_value payload) (\<lambda>canonical.
       Ok \<lparr>se_payload = payload, se_content_hash = sha256_bytes env canonical,
           se_signer = isi_instance_id self,
           se_fingerprint = ipi_fingerprint (public_identity env self),
           se_signature = sign_key env (isi_signing_key self) canonical\<rparr>)"

definition verify ::
    "'x sig_env_scheme \<Rightarrow> ('a \<Rightarrow> string + json) \<Rightarrow> 'a signed_envelope \<Rightarrow> instance_public_identity
      \<Rightarrow> remote_identity_error + unit" where
  "verify env to_value self pid =
     and_then (ensure (se_signer self = ipi_instance_id pid)
                (SignerMismatch (se_signer self) (ipi_instance_id pid))) (\<lambda>_.
     and_then (ensure (se_fingerprint self = ipi_fingerprint pid) FingerprintMismatch) (\<lambda>_.
     and_then (canonical_payload_bytes env to_value (se_payload self)) (\<lambda>canonical.
     let actual_hash = sha256_bytes env canonical in
     and_then (ensure (actual_hash = se_content_hash self)
                (RiContentHashMismatch (se_content_hash self) actual_hash)) (\<lambda>_.
     and_then (ensure (length (se_signature self) = 64)
                (InvalidSignatureLength (length (se_signature self)))) (\<lambda>_.
     and_then (verifying_key env pid) (\<lambda>vk.
     map_err RiSignature (vk_verify env vk canonical (se_signature self))))))))"

definition verify_json_envelope ::
    "'x sig_env_scheme \<Rightarrow> ('a \<Rightarrow> string + json) \<Rightarrow> (bytes \<Rightarrow> string + 'a signed_envelope) \<Rightarrow> bytes
      \<Rightarrow> instance_public_identity \<Rightarrow> remote_identity_error + 'a signed_envelope" where
  "verify_json_envelope env to_value from_slice js pid =
     and_then (map_err RiSerde (from_slice js)) (\<lambda>envelope.
     and_then (verify env to_value envelope pid) (\<lambda>_. Ok envelope))"

section \<open>Canonicalisation does not depend on the order of an object's entries\<close>

lemma insert_all_distinct:
  "distinct (map fst (m @ es)) \<Longrightarrow> insert_all m es = m @ es"
proof (induction es arbitrary: m)
  case Nil
  then show ?case by simp
next
  case (Cons e es)
  obtain k v where e: "e = (k, v)" by (cases e)
  with Cons.prems have "object_insert k v m = m @ [(k, v)]"
    by (force simp: object_insert_def)
  with Cons.prems e show ?case by (simp add: Cons.IH)
qed

lemma map_fst_map_snd [simp]: "map fst (map (\<lambda>(k, v). (k, f v)) m) = map fst m"
  by (induction m) auto

lemma distinct_fst_sort_key: "distinct (map fst es) \<Longrightarrow> distinct (map fst (sort_key fst es))"
  by (metis distinct_map distinct_sort mset_sort set_mset_mset)

lemma canonicalize_object:
  assumes "distinct (map fst m)"
  shows "canonicalize_json (JObject m) =
    JObject (sort_key fst (map (\<lambda>(k, v). (k, canonicalize_json v)) m))"
  using assms by (simp add: insert_all_distinct distinct_fst_sort_key del: map_map)

text \<open>Two values that differ only in the order in which objects list their entries,
  at any depth.\<close>

inductive json_eqv :: "json \<Rightarrow> json \<Rightarrow> bool" where
  refl: "json_eqv j j"
| array: "list_all2 json_eqv vs ws \<Longrightarrow> json_eqv (JArray vs) (JArray ws)"
| object: "list_all2 (rel_prod (=) json_eqv) m m' \<Longrightarrow> mset m' = mset m''
    \<Longrightarrow> json_eqv (JObject m) (JObject m'')"

lemma sort_key_fst_perm:
  assumes "distinct (map fst xs)" "mset xs = mset ys"
  shows "sort_key fst xs = sort_key fst ys"
proof (rule sort_key_inj_key_eq)
  show "mset xs = mset (sort_key fst ys)" using assms(2) by simp
  show "inj_on fst (set xs)" using assms(1) by (simp add: distinct_map)
  show "sorted (map fst (sort_key fst ys))" by simp
qed

lemma canonicalize_eqv: "json_eqv a b \<Longrightarrow> json_wf a \<Longrightarrow> canonicalize_json a = canonicalize_json b"
proof (induction rule: json_eqv.induct)
  case (refl j)
  show ?case ..
next
  case (array vs ws)
  have "map canonicalize_json vs = map canonicalize_json ws"
    using array.IH array.prems
    by (induction rule: list_all2_induct) auto
  then show ?case by simp
next
  case (object m m' m'')
  let ?c = "map (\<lambda>(k, v). (k, canonicalize_json v))"
  from object.prems have d: "distinct (map fst m)" by simp
  have eq: "?c m = ?c m'" using object.IH(1) object.prems
    by (induction rule: list_all2_induct) auto
  have fst_eq: "map fst m = map fst m'"
    by (metis eq map_fst_map_snd)
  have mset_fst: "mset (map fst m') = mset (map fst m'')" using object.hyps by simp
  then have d'': "distinct (map fst m'')" using d fst_eq mset_eq_imp_distinct_iff by metis
  have "mset (?c m) = mset (?c m'')" using eq object.hyps by simp
  moreover have "distinct (map fst (?c m))" using d by (simp del: map_map)
  ultimately have "sort_key fst (?c m) = sort_key fst (?c m'')" by (metis sort_key_fst_perm)
  then show ?case using d d'' by (simp add: canonicalize_object del: canonicalize_json.simps(2))
qed

lemma canonicalize_wf: "json_wf j \<Longrightarrow> json_wf (canonicalize_json j)"
proof (induction j)
  case (JArray vs)
  then show ?case by (auto simp: list_all_iff)
next
  case (JObject m)
  from JObject.prems have d: "distinct (map fst m)" by simp
  have "\<forall>(k, v)\<in>set m. json_wf (canonicalize_json v)"
    using JObject by (fastforce simp: list_all_iff)
  then show ?case using d
    by (fastforce simp: canonicalize_object list_all_iff distinct_fst_sort_key
        simp del: canonicalize_json.simps(2) map_map)
qed auto

lemma sort_key_sorted: "sorted (map f xs) \<Longrightarrow> sort_key f xs = xs"
  by (induction xs) (auto simp: insort_is_Cons)

lemma canonicalize_idem: "json_wf j \<Longrightarrow> canonicalize_json (canonicalize_json j) = canonicalize_json j"
proof (induction j)
  case (JArray vs)
  then show ?case by (auto simp: list_all_iff)
next
  case (JObject m)
  let ?c = "map (\<lambda>(k, v). (k, canonicalize_json v))"
  let ?s = "sort_key fst (?c m)"
  from JObject.prems have d: "distinct (map fst m)" by simp
  then have ds: "distinct (map fst ?s)" by (simp add: distinct_fst_sort_key del: map_map)
  have "\<forall>(k, v)\<in>set m. canonicalize_json (canonicalize_json v) = canonicalize_json v"
    using JObject by (fastforce simp: list_all_iff)
  then have "?c ?s = ?s" by (intro map_idI) auto
  then show ?case using d ds
    by (simp add: canonicalize_object sort_key_sorted del: canonicalize_json.simps(2) map_map)
qed auto

section \<open>Hexadecimal text determines the digest\<close>

lemma hex_chars_inj: "i < 16 \<Longrightarrow> j < 16 \<Longrightarrow> hex_chars ! i = hex_chars ! j \<Longrightarrow> i = j"
  by (subst (asm) nth_eq_iff_index_eq) (auto simp: hex_chars_def)

lemma nibble_bounds: "unat (drop_bit 4 (b :: u8)) < 16" "unat (b AND 15) < 16"
proof -
  have "unat (drop_bit 4 b) = unat b div 16"
    by (simp add: drop_bit_eq_div unat_div_distrib)
  moreover have "unat b < 256" using unsigned_less [where ?'a = nat, of b] by simp
  ultimately show "unat (drop_bit 4 b) < 16" by simp
  have "b AND 15 = take_bit 4 b" by (simp add: take_bit_eq_mask mask_eq_exp_minus_1)
  then show "unat (b AND 15) < 16" by (simp add: take_bit_eq_mod unat_mod_distrib)
qed

lemma nibbles_determine:
  assumes "drop_bit 4 (b :: u8) = drop_bit 4 c" "b AND 15 = c AND 15"
  shows "b = c"
proof -
  have "take_bit 4 b = take_bit 4 c"
    using assms(2) by (simp add: take_bit_eq_mask mask_eq_exp_minus_1)
  with assms(1) show ?thesis by (metis bits_ident)
qed

lemma hex_byte_inj:
  assumes "hex_byte b = hex_byte c"
  shows "b = c"
proof (rule nibbles_determine)
  from assms have "unat (drop_bit 4 b) = unat (drop_bit 4 c)"
    by (intro hex_chars_inj nibble_bounds) (simp add: hex_byte_def)
  then show "drop_bit 4 b = drop_bit 4 c" by (simp add: word_unat_eq_iff)
  from assms have "unat (b AND 15) = unat (c AND 15)"
    by (intro hex_chars_inj nibble_bounds) (simp add: hex_byte_def)
  then show "b AND 15 = c AND 15" by (simp add: word_unat_eq_iff)
qed

lemma length_hex_byte [simp]: "length (hex_byte b) = 2"
  by (simp add: hex_byte_def)

lemma length_hex_encode: "length (hex_encode bs) = 2 * length bs"
  by (induction bs) (auto simp: hex_encode_def)

lemma hex_encode_inj: "hex_encode bs = hex_encode cs \<Longrightarrow> bs = cs"
proof (induction bs arbitrary: cs)
  case Nil
  then have "2 * length cs = 0"
    by (metis length_hex_encode list.size(3) mult_is_0)
  then show ?case by simp
next
  case (Cons b bs)
  from Cons.prems have "length cs = length (b # bs)"
    using length_hex_encode [of cs] length_hex_encode [of "b # bs"] by simp
  then obtain c cs' where cs: "cs = c # cs'" by (cases cs) auto
  with Cons.prems have "hex_byte b = hex_byte c" "hex_encode bs = hex_encode cs'"
    by (simp_all add: hex_encode_def)
  with Cons.IH cs show ?case by (auto dest: hex_byte_inj)
qed

section \<open>Properties\<close>

text \<open>C13. Two payloads whose JSON values differ only in the order in which objects list their
  entries, at any depth, have the same content hash.\<close>

theorem hash_ignores_entry_order:
  assumes "to_value x = Ok a" "to_value y = Ok b" "json_wf a" "json_eqv a b"
  shows "sha256_json env to_value x = sha256_json env to_value y"
  using assms canonicalize_eqv by (simp add: sha256_json_def)

theorem hash_ignores_entry_order_witness:
  "sha256_json \<lparr>sha256 = (\<lambda>bs. bs), json_to_vec = (\<lambda>_. Ok [1])\<rparr>
     (\<lambda>b. Ok (JObject (if b then [(''a'', JNull), (''b'', JBool True)] else [(''b'', JBool True), (''a'', JNull)]))) True =
   sha256_json \<lparr>sha256 = (\<lambda>bs. bs), json_to_vec = (\<lambda>_. Ok [1])\<rparr>
     (\<lambda>b. Ok (JObject (if b then [(''a'', JNull), (''b'', JBool True)] else [(''b'', JBool True), (''a'', JNull)]))) False"
proof (rule hash_ignores_entry_order)
  have "json_eqv (JObject [(''a'', JNull), (''b'', JBool True)]) (JObject [(''b'', JBool True), (''a'', JNull)])"
    by (rule json_eqv.object [where m' = "[(''a'', JNull), (''b'', JBool True)]"]) (simp_all add: json_eqv.refl)
  then show "json_eqv (JObject [(''a'', JNull), (''b'', JBool True)]) (JObject [(''b'', JBool True), (''a'', JNull)])" .
qed simp_all

text \<open>Documented behaviour of Ed25519: key and signature sizes, and that a signature checks
  under the public key of the secret that made it.\<close>

definition ed25519_correct :: "'x sig_env_scheme \<Rightarrow> bool" where
  "ed25519_correct env \<longleftrightarrow>
     (\<forall>sk msg. length (public_of env sk) = 32 \<and> length (sign_key env sk msg) = 64 \<and>
        vk_from_bytes env (public_of env sk) = Ok (public_of env sk) \<and>
        vk_verify env (public_of env sk) msg (sign_key env sk msg) = Ok ())"

text \<open>C14. An envelope that an instance signs passes verification against that instance's public
  identity.\<close>

theorem sign_then_verify:
  assumes "ed25519_correct env" "sign env to_value self payload = Ok envelope"
  shows "verify env to_value envelope (public_identity env self) = Ok ()"
  using assms by (auto simp: sign_def verify_def public_identity_def verifying_key_def ed25519_correct_def Let_def)

definition toy_sig_env :: sig_env where
  "toy_sig_env = \<lparr>sha256 = (\<lambda>bs. bs), json_to_vec = (\<lambda>_. Ok [1]),
     sign_key = (\<lambda>_ _. replicate 64 0), public_of = (\<lambda>_. replicate 32 5), vk_from_bytes = (\<lambda>k. Ok k),
     vk_verify = (\<lambda>_ _ s. if s = replicate 64 0 then Ok () else Err ''bad'')\<rparr>"

theorem sign_then_verify_witness:
  "verify toy_sig_env Ok \<lparr>se_payload = JNull, se_content_hash = ContentHash ''01'', se_signer = InstanceId 3,
     se_fingerprint = PublicKeyFingerprint (hex_encode (replicate 32 5)), se_signature = replicate 64 0\<rparr>
     (public_identity toy_sig_env \<lparr>isi_instance_id = InstanceId 3, isi_signing_key = [2]\<rparr>) = Ok ()"
proof (rule sign_then_verify)
  show "ed25519_correct toy_sig_env" by (simp add: ed25519_correct_def toy_sig_env_def)
  show "sign toy_sig_env Ok \<lparr>isi_instance_id = InstanceId 3, isi_signing_key = [2]\<rparr> JNull =
    Ok \<lparr>se_payload = JNull, se_content_hash = ContentHash ''01'', se_signer = InstanceId 3,
     se_fingerprint = PublicKeyFingerprint (hex_encode (replicate 32 5)), se_signature = replicate 64 0\<rparr>"
    by (simp add: sign_def toy_sig_env_def canonical_payload_bytes_def public_identity_def from_verifying_key_def
        sha256_bytes_def hex_encode_def hex_byte_def hex_chars_def)
qed

end
