(* ===== verification/Pack.thy ===== *)
theory Pack
  imports Remote_Identity
begin

text \<open>
  \<open>ferrosa-memory-sync/src/pack.rs\<close>: the versioned knowledge pack, its manifest, the
  structural validation both sides run, and the host-side ciphertext handle. The
  conversion of each payload section to JSON is serde, a field of \<open>pack_env\<close>.
\<close>

section \<open>Data\<close>

definition PACK_SCHEMA_VERSION :: u32 where
  "PACK_SCHEMA_VERSION = 1"

definition MAX_PACK_ELEMENTS :: u64 where
  "MAX_PACK_ELEMENTS = 1000000"

definition MAX_PACK_SIZE_BYTES :: u64 where
  "MAX_PACK_SIZE_BYTES = 256 * 1024 * 1024"

datatype pack_error =
    UnsupportedSchemaVersion u32 u32
  | CountMismatch string u64 nat
  | CountExceedsMax string u64 u64
  | SizeExceedsMax u64 u64
  | ContentHashMismatch string content_hash content_hash
  | DanglingEdge uuid string
  | EmbeddingDimMismatch string nat u32
  | EmbeddingNotFinite string
  | ZeroEmbeddingDim
  | TtlNotInFuture instant instant

record pack_provenance_envelope =
  ppe_teacher_instance_id :: instance_id
  ppe_teacher_fingerprint :: public_key_fingerprint
  ppe_learner_fingerprint :: public_key_fingerprint
  ppe_request_id :: "uuid option"
  ppe_source_namespace :: string

datatype cipher_suite = Aes256Gcm | ChaCha20Poly1305

datatype chunk_mac = ChunkMac bytes

datatype pack_mac = PackMac bytes

record pack_manifest =
  pm_pack_id :: uuid
  pm_schema_version :: u32
  pm_pack_version :: u64
  pm_declared_size_bytes :: u64
  pm_entity_count :: u64
  pm_fold_count :: u64
  pm_temporal_count :: u64
  pm_edge_count :: u64
  pm_item_count :: u64
  pm_entities_hash :: content_hash
  pm_folds_hash :: content_hash
  pm_temporal_hash :: content_hash
  pm_edges_hash :: content_hash
  pm_items_hash :: content_hash
  pm_chunk_macs :: "chunk_mac list"
  pm_pack_mac :: "pack_mac option"
  pm_cipher_suite :: cipher_suite
  pm_engine_version :: string
  pm_embedding_model :: string
  pm_embedding_dim :: u32
  pm_provenance :: pack_provenance_envelope
  pm_created_at :: instant
  pm_ttl_expires_at :: "instant option"
  pm_summary_first :: bool

record pack_payload =
  pp_entities :: "entity_entry list"
  pp_folds :: "fold_entry list"
  pp_temporal :: "temporal_event list"
  pp_edges :: "typed_edge list"
  pp_items :: "teaching_item list"
  pp_provenance_rows :: "memory_provenance list"

record knowledge_pack =
  kp_manifest :: pack_manifest
  kp_payload :: pack_payload

record sealed_chunk =
  sc_ciphertext :: bytes
  sc_nonce :: bytes

record pack_ref =
  pr_manifest :: pack_manifest
  pr_kdf_salt :: bytes
  pr_chunks :: "sealed_chunk list"

definition ciphertext_len :: "pack_ref \<Rightarrow> nat" where
  "ciphertext_len r = sum_list (map (\<lambda>c. length (sc_ciphertext c)) (pr_chunks r))"

definition chunk_count :: "pack_ref \<Rightarrow> nat" where
  "chunk_count r = length (pr_chunks r)"

section \<open>Section hashes\<close>

text \<open>The five \<open>serde_json::to_value\<close> instances, and the text of an error.\<close>

record pack_env = hash_env +
  entities_to_value :: "entity_entry list \<Rightarrow> string + json"
  folds_to_value :: "fold_entry list \<Rightarrow> string + json"
  temporal_to_value :: "temporal_event list \<Rightarrow> string + json"
  edges_to_value :: "typed_edge list \<Rightarrow> string + json"
  items_to_value :: "teaching_item list \<Rightarrow> string + json"
  identity_error_text :: "remote_identity_error \<Rightarrow> string"

record section_hashes =
  sh_entities :: content_hash
  sh_folds :: content_hash
  sh_temporal :: content_hash
  sh_edges :: content_hash
  sh_items :: content_hash

datatype content_hash_error = ContentHashError string

text \<open>\<open>From<RemoteIdentityError>\<close>, applied by the question mark.\<close>

definition content_hash_error_from :: "'x pack_env_scheme \<Rightarrow> remote_identity_error \<Rightarrow> content_hash_error" where
  "content_hash_error_from env e = ContentHashError (identity_error_text env e)"

definition compute_section_hashes ::
    "'x pack_env_scheme \<Rightarrow> pack_payload \<Rightarrow> content_hash_error + section_hashes" where
  "compute_section_hashes env p =
    (let h = (\<lambda>r. map_err (content_hash_error_from env) r) in
     and_then (h (sha256_json env (entities_to_value env) (pp_entities p))) (\<lambda>entities.
     and_then (h (sha256_json env (folds_to_value env) (pp_folds p))) (\<lambda>folds.
     and_then (h (sha256_json env (temporal_to_value env) (pp_temporal p))) (\<lambda>temporal.
     and_then (h (sha256_json env (edges_to_value env) (pp_edges p))) (\<lambda>edges.
     and_then (h (sha256_json env (items_to_value env) (pp_items p))) (\<lambda>items.
       Ok \<lparr>sh_entities = entities, sh_folds = folds, sh_temporal = temporal,
           sh_edges = edges, sh_items = items\<rparr>))))))"

section \<open>Validation\<close>

definition validate_schema_version :: "knowledge_pack \<Rightarrow> pack_error + unit" where
  "validate_schema_version k =
     (if pm_schema_version (kp_manifest k) \<noteq> PACK_SCHEMA_VERSION
      then Err (UnsupportedSchemaVersion (pm_schema_version (kp_manifest k)) PACK_SCHEMA_VERSION)
      else Ok ())"

definition validate_bounds :: "knowledge_pack \<Rightarrow> pack_error + unit" where
  "validate_bounds k =
     (let m = kp_manifest k in
      and_then (try_each (\<lambda>(field, declared).
          if declared > MAX_PACK_ELEMENTS then Err (CountExceedsMax field declared MAX_PACK_ELEMENTS)
          else Ok ())
        [(''entity'', pm_entity_count m), (''fold'', pm_fold_count m),
         (''temporal'', pm_temporal_count m), (''edge'', pm_edge_count m),
         (''item'', pm_item_count m)]) (\<lambda>_.
      if pm_declared_size_bytes m > MAX_PACK_SIZE_BYTES
      then Err (SizeExceedsMax (pm_declared_size_bytes m) MAX_PACK_SIZE_BYTES)
      else if pm_embedding_dim m = 0 then Err ZeroEmbeddingDim
      else Ok ()))"

definition validate_counts :: "knowledge_pack \<Rightarrow> pack_error + unit" where
  "validate_counts k =
     (let m = kp_manifest k; p = kp_payload k in
      try_each (\<lambda>(field, declared, actual).
          if declared \<noteq> as_u64 actual then Err (CountMismatch field declared actual) else Ok ())
        [(''entity'', pm_entity_count m, length (pp_entities p)),
         (''fold'', pm_fold_count m, length (pp_folds p)),
         (''temporal'', pm_temporal_count m, length (pp_temporal p)),
         (''edge'', pm_edge_count m, length (pp_edges p)),
         (''item'', pm_item_count m, length (pp_items p))])"

definition check_embedding :: "string \<Rightarrow> f32 list option \<Rightarrow> u32 \<Rightarrow> pack_error + unit" where
  "check_embedding field embedding declared_dim =
     (case embedding of
        None \<Rightarrow> Ok ()
      | Some values \<Rightarrow>
          if as_u32 (length values) \<noteq> declared_dim
          then Err (EmbeddingDimMismatch field (length values) declared_dim)
          else if list_ex (\<lambda>v. \<not> f32_is_finite v) values
          then Err (EmbeddingNotFinite field)
          else Ok ())"

definition validate_embeddings :: "knowledge_pack \<Rightarrow> pack_error + unit" where
  "validate_embeddings k =
     (let dim = pm_embedding_dim (kp_manifest k) in
      and_then (try_each (\<lambda>e.
          and_then (check_embedding ''entity_embedding'' (ee_entity_embedding e) dim) (\<lambda>_.
            check_embedding ''description_embedding'' (ee_description_embedding e) dim))
        (pp_entities (kp_payload k))) (\<lambda>_.
      try_each (\<lambda>f. check_embedding ''fold_embedding'' (fe_fold_embedding f) dim)
        (pp_folds (kp_payload k))))"

fun section_serialization_error :: "content_hash_error \<Rightarrow> pack_error" where
  "section_serialization_error (ContentHashError text) =
     ContentHashMismatch ''section_serialization'' (ContentHash []) (ContentHash text)"

definition validate_hashes :: "'x pack_env_scheme \<Rightarrow> knowledge_pack \<Rightarrow> pack_error + unit" where
  "validate_hashes env k =
     and_then (map_err section_serialization_error (compute_section_hashes env (kp_payload k))) (\<lambda>computed.
     let m = kp_manifest k in
     try_each (\<lambda>(field, declared, actual).
         if declared \<noteq> actual then Err (ContentHashMismatch field declared actual) else Ok ())
       [(''entities'', pm_entities_hash m, sh_entities computed),
        (''folds'', pm_folds_hash m, sh_folds computed),
        (''temporal'', pm_temporal_hash m, sh_temporal computed),
        (''edges'', pm_edges_hash m, sh_edges computed),
        (''items'', pm_items_hash m, sh_items computed)])"

definition validate_edge_closure :: "knowledge_pack \<Rightarrow> pack_error + unit" where
  "validate_edge_closure k =
     (let entity_ids = set (map ee_entity_id (pp_entities (kp_payload k))) in
      try_each (\<lambda>edge.
          if ed_src_id edge \<notin> entity_ids then Err (DanglingEdge (ed_src_id edge) ''src'')
          else if ed_dst_id edge \<notin> entity_ids then Err (DanglingEdge (ed_dst_id edge) ''dst'')
          else Ok ())
        (pp_edges (kp_payload k)))"

definition validate_ttl :: "knowledge_pack \<Rightarrow> pack_error + unit" where
  "validate_ttl k =
     (case pm_ttl_expires_at (kp_manifest k) of
        Some expires \<Rightarrow>
          if expires \<le> pm_created_at (kp_manifest k)
          then Err (TtlNotInFuture (pm_created_at (kp_manifest k)) expires)
          else Ok ()
      | None \<Rightarrow> Ok ())"

definition validate :: "'x pack_env_scheme \<Rightarrow> knowledge_pack \<Rightarrow> pack_error + unit" where
  "validate env k =
     and_then (validate_schema_version k) (\<lambda>_.
     and_then (validate_bounds k) (\<lambda>_.
     and_then (validate_counts k) (\<lambda>_.
     and_then (validate_embeddings k) (\<lambda>_.
     and_then (validate_hashes env k) (\<lambda>_.
     and_then (validate_edge_closure k) (\<lambda>_.
     and_then (validate_ttl k) (\<lambda>_. Ok ())))))))"

section \<open>What validation accepts\<close>

text \<open>The declarative reading of the seven checks.\<close>

definition embedding_ok :: "u32 \<Rightarrow> f32 list option \<Rightarrow> bool" where
  "embedding_ok dim emb \<longleftrightarrow>
     (\<forall>values. emb = Some values \<longrightarrow>
        as_u32 (length values) = dim \<and> (\<forall>v\<in>set values. f32_is_finite v))"

definition counts_bounded :: "pack_manifest \<Rightarrow> bool" where
  "counts_bounded m \<longleftrightarrow>
     (\<forall>c\<in>{pm_entity_count m, pm_fold_count m, pm_temporal_count m, pm_edge_count m, pm_item_count m}.
        c \<le> MAX_PACK_ELEMENTS) \<and>
     pm_declared_size_bytes m \<le> MAX_PACK_SIZE_BYTES \<and> pm_embedding_dim m \<noteq> 0"

definition counts_agree :: "pack_manifest \<Rightarrow> pack_payload \<Rightarrow> bool" where
  "counts_agree m p \<longleftrightarrow>
     pm_entity_count m = as_u64 (length (pp_entities p)) \<and>
     pm_fold_count m = as_u64 (length (pp_folds p)) \<and>
     pm_temporal_count m = as_u64 (length (pp_temporal p)) \<and>
     pm_edge_count m = as_u64 (length (pp_edges p)) \<and>
     pm_item_count m = as_u64 (length (pp_items p))"

definition embeddings_agree :: "u32 \<Rightarrow> pack_payload \<Rightarrow> bool" where
  "embeddings_agree dim p \<longleftrightarrow>
     (\<forall>e\<in>set (pp_entities p). embedding_ok dim (ee_entity_embedding e) \<and>
        embedding_ok dim (ee_description_embedding e)) \<and>
     (\<forall>f\<in>set (pp_folds p). embedding_ok dim (fe_fold_embedding f))"

definition manifest_hashes :: "pack_manifest \<Rightarrow> section_hashes" where
  "manifest_hashes m =
     \<lparr>sh_entities = pm_entities_hash m, sh_folds = pm_folds_hash m, sh_temporal = pm_temporal_hash m,
      sh_edges = pm_edges_hash m, sh_items = pm_items_hash m\<rparr>"

definition edges_closed :: "pack_payload \<Rightarrow> bool" where
  "edges_closed p \<longleftrightarrow>
     (\<forall>e\<in>set (pp_edges p). {ed_src_id e, ed_dst_id e} \<subseteq> ee_entity_id ` set (pp_entities p))"

definition ttl_future :: "pack_manifest \<Rightarrow> bool" where
  "ttl_future m \<longleftrightarrow> (\<forall>expires. pm_ttl_expires_at m = Some expires \<longrightarrow> pm_created_at m < expires)"

definition pack_well_formed :: "'x pack_env_scheme \<Rightarrow> knowledge_pack \<Rightarrow> bool" where
  "pack_well_formed env k \<longleftrightarrow>
     pm_schema_version (kp_manifest k) = PACK_SCHEMA_VERSION \<and>
     counts_bounded (kp_manifest k) \<and>
     counts_agree (kp_manifest k) (kp_payload k) \<and>
     embeddings_agree (pm_embedding_dim (kp_manifest k)) (kp_payload k) \<and>
     compute_section_hashes env (kp_payload k) = Ok (manifest_hashes (kp_manifest k)) \<and>
     edges_closed (kp_payload k) \<and>
     ttl_future (kp_manifest k)"

lemma validate_schema_version_Ok:
  "validate_schema_version k = Ok u \<longleftrightarrow> pm_schema_version (kp_manifest k) = PACK_SCHEMA_VERSION"
  by (simp add: validate_schema_version_def)

lemma validate_bounds_Ok: "validate_bounds k = Ok u \<longleftrightarrow> counts_bounded (kp_manifest k)"
  by (auto simp: validate_bounds_def counts_bounded_def Let_def not_less)

lemma validate_counts_Ok: "validate_counts k = Ok u \<longleftrightarrow> counts_agree (kp_manifest k) (kp_payload k)"
  by (auto simp: validate_counts_def counts_agree_def Let_def)

lemma check_embedding_Ok: "check_embedding field emb dim = Ok u \<longleftrightarrow> embedding_ok dim emb"
  by (auto simp: check_embedding_def embedding_ok_def list_ex_iff split: option.splits)

lemma validate_embeddings_Ok:
  "validate_embeddings k = Ok u \<longleftrightarrow>
     embeddings_agree (pm_embedding_dim (kp_manifest k)) (kp_payload k)"
  by (auto simp: validate_embeddings_def embeddings_agree_def check_embedding_Ok Let_def)

lemma validate_hashes_Ok:
  "validate_hashes env k = Ok u \<longleftrightarrow>
     compute_section_hashes env (kp_payload k) = Ok (manifest_hashes (kp_manifest k))"
proof (cases "compute_section_hashes env (kp_payload k)")
  case (Inl e)
  then show ?thesis by (simp add: validate_hashes_def)
next
  case (Inr b)
  obtain e f t g i where "b = \<lparr>sh_entities = e, sh_folds = f, sh_temporal = t, sh_edges = g, sh_items = i\<rparr>"
    by (cases b)
  with Inr show ?thesis
    by (auto simp: validate_hashes_def manifest_hashes_def Let_def split: if_splits)
qed

lemma validate_edge_closure_Ok: "validate_edge_closure k = Ok u \<longleftrightarrow> edges_closed (kp_payload k)"
  by (auto simp: validate_edge_closure_def edges_closed_def Let_def)

lemma validate_ttl_Ok: "validate_ttl k = Ok u \<longleftrightarrow> ttl_future (kp_manifest k)"
  by (auto simp: validate_ttl_def ttl_future_def not_le split: option.splits)

lemmas validate_steps_Ok =
  validate_schema_version_Ok validate_bounds_Ok validate_counts_Ok validate_embeddings_Ok
  validate_hashes_Ok validate_edge_closure_Ok validate_ttl_Ok

lemma validate_Ok_iff: "validate env k = Ok u \<longleftrightarrow> pack_well_formed env k"
  by (simp add: validate_def pack_well_formed_def validate_steps_Ok)

text \<open>The tags are no part of what is validated.\<close>

definition clear_tags :: "pack_manifest \<Rightarrow> pack_manifest" where
  "clear_tags m = m\<lparr>pm_chunk_macs := [], pm_pack_mac := None\<rparr>"

lemma pack_well_formed_parts:
  "pack_well_formed env \<lparr>kp_manifest = kp_manifest k, kp_payload = kp_payload k\<rparr> \<longleftrightarrow> pack_well_formed env k"
  by (cases k) (simp add: pack_well_formed_def)

lemma pack_well_formed_tags:
  "pack_well_formed env \<lparr>kp_manifest = m\<lparr>pm_chunk_macs := macs, pm_pack_mac := mac\<rparr>, kp_payload = p\<rparr>
     \<longleftrightarrow> pack_well_formed env \<lparr>kp_manifest = m, kp_payload = p\<rparr>"
  by (simp add: pack_well_formed_def counts_bounded_def counts_agree_def manifest_hashes_def
      ttl_future_def)

end
