(* ===== verification/Pack_Crypto.thy ===== *)
theory Pack_Crypto
  imports Pack
begin

text \<open>
  \<open>ferrosa-memory-sync/src/pack_crypto.rs\<close>: sealing a pack into ciphertext chunks and
  opening it again. HKDF, the two AEAD ciphers and serde are third-party code and
  fields of \<open>crypto_env\<close>; the random salt and nonce base are arguments. The
  process-wide counter of refused downgrades is passed through as a state.
  Zeroizing a buffer has no effect that the model could observe.
\<close>

definition CONTENT_KEY_LEN :: nat where "CONTENT_KEY_LEN = 32"
definition KDF_SALT_LEN :: nat where "KDF_SALT_LEN = 32"
definition NONCE_LEN :: nat where "NONCE_LEN = 12"
definition MAX_CHUNKS_PER_PACK :: u64 where "MAX_CHUNKS_PER_PACK = 1000000"
definition DEFAULT_CHUNK_SIZE :: nat where "DEFAULT_CHUNK_SIZE = 1024 * 1024"

section \<open>Data\<close>

datatype secret = Secret bytes

fun expose :: "secret \<Rightarrow> bytes" where
  "expose (Secret bs) = bs"

definition secret_len :: "secret \<Rightarrow> nat" where
  "secret_len s = length (expose s)"

datatype pack_crypto_error =
    Encrypt
  | Decrypt
  | DowngradeBlocked cipher_suite
  | KeyEstablishment string
  | InvalidKeyLength nat
  | InvalidNonceLength nat
  | TooManyChunks
  | ChunkCountMismatch nat nat
  | CryptoSerde string
  | CryptoPack pack_error

text \<open>Process-global counter of refused transfers (an \<open>AtomicU64\<close>).\<close>

type_synonym downgrade_counter = u64

definition record_downgrade_blocked :: "downgrade_counter \<Rightarrow> downgrade_counter" where
  "record_downgrade_blocked n = n + 1"

section \<open>The cipher floor\<close>

fun cipher_strength :: "cipher_suite \<Rightarrow> u32" where
  "cipher_strength Aes256Gcm = 100"
| "cipher_strength ChaCha20Poly1305 = 100"

datatype cipher_floor = CipherFloor u32

definition default_cipher_floor :: cipher_floor where
  "default_cipher_floor = CipherFloor 100"

fun meets_cipher_floor :: "cipher_suite \<Rightarrow> cipher_floor \<Rightarrow> bool" where
  "meets_cipher_floor suite (CipherFloor floor) = (floor \<le> cipher_strength suite)"

section \<open>Keys and nonces\<close>

record crypto_env = pack_env +
  manifest_to_vec :: "pack_manifest \<Rightarrow> string + bytes"
  payload_to_vec :: "pack_payload \<Rightarrow> string + bytes"
  payload_from_slice :: "bytes \<Rightarrow> string + pack_payload"
  hkdf_sha256 :: "bytes \<Rightarrow> bytes \<Rightarrow> bytes \<Rightarrow> nat \<Rightarrow> string + bytes"
  aead_new :: "cipher_suite \<Rightarrow> bytes \<Rightarrow> bool"
  aead_encrypt :: "cipher_suite \<Rightarrow> bytes \<Rightarrow> bytes \<Rightarrow> bytes \<Rightarrow> bytes \<Rightarrow> bytes option"
  aead_decrypt :: "cipher_suite \<Rightarrow> bytes \<Rightarrow> bytes \<Rightarrow> bytes \<Rightarrow> bytes \<Rightarrow> bytes option"

text \<open>\<open>str::as_bytes\<close>; a string is the list of its UTF-8 bytes.\<close>

definition as_bytes :: "string \<Rightarrow> bytes" where
  "as_bytes s = map (\<lambda>c. of_nat (of_char c)) s"

definition kdf_domain :: bytes where
  "kdf_domain = as_bytes ''ferrosa-maas-pack-v1''"

definition build_kdf_info :: "public_key_fingerprint \<Rightarrow> public_key_fingerprint \<Rightarrow> bytes" where
  "build_kdf_info teacher learner =
     (let t = as_bytes (fingerprint_text teacher); l = as_bytes (fingerprint_text learner) in
      kdf_domain @ u32_to_be_bytes (as_u32 (length t)) @ t
        @ u32_to_be_bytes (as_u32 (length l)) @ l)"

definition derive_content_key ::
    "'x crypto_env_scheme \<Rightarrow> secret \<Rightarrow> bytes \<Rightarrow> public_key_fingerprint \<Rightarrow> public_key_fingerprint
      \<Rightarrow> pack_crypto_error + secret" where
  "derive_content_key env ikm salt teacher learner =
     map_ok Secret (map_err (\<lambda>e. KeyEstablishment (''hkdf expand: '' @ e))
       (hkdf_sha256 env salt (expose ikm) (build_kdf_info teacher learner) CONTENT_KEY_LEN))"

definition chunk_nonce :: "u64 \<Rightarrow> u64 \<Rightarrow> pack_crypto_error + bytes" where
  "chunk_nonce nonce_base index =
     (if MAX_CHUNKS_PER_PACK \<le> index then Err TooManyChunks
      else Ok (u64_to_be_bytes nonce_base @ u32_to_be_bytes (ucast index)))"

section \<open>One chunk\<close>

definition encrypt_chunk ::
    "'x crypto_env_scheme \<Rightarrow> cipher_suite \<Rightarrow> secret \<Rightarrow> bytes \<Rightarrow> bytes \<Rightarrow> bytes
      \<Rightarrow> pack_crypto_error + bytes" where
  "encrypt_chunk env suite key nonce plaintext aad =
     (if secret_len key \<noteq> CONTENT_KEY_LEN then Err (InvalidKeyLength (secret_len key))
      else if \<not> aead_new env suite (expose key) then Err (InvalidKeyLength (secret_len key))
      else ok_or (aead_encrypt env suite (expose key) nonce plaintext aad) Encrypt)"

definition decrypt_chunk ::
    "'x crypto_env_scheme \<Rightarrow> cipher_suite \<Rightarrow> secret \<Rightarrow> bytes \<Rightarrow> bytes \<Rightarrow> bytes
      \<Rightarrow> pack_crypto_error + bytes" where
  "decrypt_chunk env suite key nonce ciphertext aad =
     (if secret_len key \<noteq> CONTENT_KEY_LEN then Err (InvalidKeyLength (secret_len key))
      else if length nonce \<noteq> NONCE_LEN then Err (InvalidNonceLength (length nonce))
      else if \<not> aead_new env suite (expose key) then Err (InvalidKeyLength (secret_len key))
      else ok_or (aead_decrypt env suite (expose key) nonce ciphertext aad) Decrypt)"

definition manifest_aad :: "'x crypto_env_scheme \<Rightarrow> pack_manifest \<Rightarrow> pack_crypto_error + bytes" where
  "manifest_aad env m = map_err CryptoSerde (manifest_to_vec env m)"

definition extract_tag :: "bytes \<Rightarrow> bytes" where
  "extract_tag ciphertext = drop (length ciphertext - 16) ciphertext"

section \<open>Sealing\<close>

definition div_ceil :: "nat \<Rightarrow> nat \<Rightarrow> nat" where
  "div_ceil n d = n div d + (if n mod d = 0 then 0 else 1)"

text \<open>The plaintext slice of chunk \<open>index\<close>: \<open>plaintext.get(start..end).unwrap_or(&[])\<close>.\<close>

definition chunk_slice :: "bytes \<Rightarrow> nat \<Rightarrow> nat \<Rightarrow> bytes" where
  "chunk_slice plaintext effective_chunk index =
     (let start = index * effective_chunk;
          stop = min (start + effective_chunk) (length plaintext)
      in case get_range start stop plaintext of Some s \<Rightarrow> s | None \<Rightarrow> [])"

text \<open>The loop over the chunk indices. It yields the chunks, their tags and the
  concatenated ciphertext.\<close>

fun seal_chunks ::
    "'x crypto_env_scheme \<Rightarrow> cipher_suite \<Rightarrow> secret \<Rightarrow> u64 \<Rightarrow> bytes \<Rightarrow> nat \<Rightarrow> bytes \<Rightarrow> nat list
      \<Rightarrow> pack_crypto_error + sealed_chunk list \<times> chunk_mac list \<times> bytes" where
  "seal_chunks env suite key nonce_base plaintext effective_chunk aad [] = Ok ([], [], [])"
| "seal_chunks env suite key nonce_base plaintext effective_chunk aad (index # rest) =
     and_then (chunk_nonce nonce_base (as_u64 index)) (\<lambda>nonce.
     and_then (encrypt_chunk env suite key nonce (chunk_slice plaintext effective_chunk index) aad) (\<lambda>ct.
     map_ok (\<lambda>(chunks, macs, whole).
         (\<lparr>sc_ciphertext = ct, sc_nonce = nonce\<rparr> # chunks, ChunkMac (extract_tag ct) # macs, ct @ whole))
       (seal_chunks env suite key nonce_base plaintext effective_chunk aad rest)))"

text \<open>Everything of \<open>seal_pack\<close> after the cipher floor.\<close>

definition seal_body ::
    "'x crypto_env_scheme \<Rightarrow> bytes \<Rightarrow> u64 \<Rightarrow> knowledge_pack \<Rightarrow> secret \<Rightarrow> public_key_fingerprint
      \<Rightarrow> public_key_fingerprint \<Rightarrow> nat \<Rightarrow> pack_crypto_error + pack_ref" where
  "seal_body env salt nonce_base pack ikm teacher learner chunk_size =
     and_then (map_err CryptoPack (validate env pack)) (\<lambda>_.
     and_then (derive_content_key env ikm salt teacher learner) (\<lambda>key.
     and_then (map_err CryptoSerde (payload_to_vec env (kp_payload pack))) (\<lambda>plaintext.
     let effective_chunk = max chunk_size 1;
         n = max (div_ceil (length plaintext) effective_chunk) 1 in
     and_then (ensure (\<not> MAX_CHUNKS_PER_PACK < as_u64 n) TooManyChunks) (\<lambda>_.
     and_then (manifest_aad env (clear_tags (kp_manifest pack))) (\<lambda>aad.
     and_then (seal_chunks env (pm_cipher_suite (kp_manifest pack)) key nonce_base plaintext
                 effective_chunk aad [0..<n]) (\<lambda>(chunks, macs, whole).
     Ok \<lparr>pr_manifest = (kp_manifest pack)
            \<lparr>pm_chunk_macs := macs, pm_pack_mac := Some (PackMac (sha256 env whole))\<rparr>,
         pr_kdf_salt = salt, pr_chunks = chunks\<rparr>))))))"

definition seal_pack ::
    "'x crypto_env_scheme \<Rightarrow> bytes \<Rightarrow> u64 \<Rightarrow> downgrade_counter \<Rightarrow> knowledge_pack \<Rightarrow> secret
      \<Rightarrow> public_key_fingerprint \<Rightarrow> public_key_fingerprint \<Rightarrow> nat \<Rightarrow> cipher_floor
      \<Rightarrow> (pack_crypto_error + pack_ref) \<times> downgrade_counter" where
  "seal_pack env salt nonce_base blocked pack ikm teacher learner chunk_size floor =
     (if \<not> meets_cipher_floor (pm_cipher_suite (kp_manifest pack)) floor
      then (Err (DowngradeBlocked (pm_cipher_suite (kp_manifest pack))), record_downgrade_blocked blocked)
      else (seal_body env salt nonce_base pack ikm teacher learner chunk_size, blocked))"

section \<open>Opening\<close>

fun open_chunks ::
    "'x crypto_env_scheme \<Rightarrow> cipher_suite \<Rightarrow> secret \<Rightarrow> bytes \<Rightarrow> sealed_chunk list
      \<Rightarrow> pack_crypto_error + bytes" where
  "open_chunks env suite key aad [] = Ok []"
| "open_chunks env suite key aad (c # cs) =
     and_then (decrypt_chunk env suite key (sc_nonce c) (sc_ciphertext c) aad) (\<lambda>decrypted.
     map_ok (\<lambda>rest. decrypted @ rest) (open_chunks env suite key aad cs))"

definition open_body ::
    "'x crypto_env_scheme \<Rightarrow> pack_ref \<Rightarrow> secret \<Rightarrow> public_key_fingerprint \<Rightarrow> public_key_fingerprint
      \<Rightarrow> pack_crypto_error + knowledge_pack" where
  "open_body env pack_ref ikm teacher learner =
     and_then (ensure (length (pm_chunk_macs (pr_manifest pack_ref)) = length (pr_chunks pack_ref))
       (ChunkCountMismatch (length (pm_chunk_macs (pr_manifest pack_ref))) (length (pr_chunks pack_ref)))) (\<lambda>_.
     and_then (derive_content_key env ikm (pr_kdf_salt pack_ref) teacher learner) (\<lambda>key.
     and_then (manifest_aad env (clear_tags (pr_manifest pack_ref))) (\<lambda>aad.
     and_then (open_chunks env (pm_cipher_suite (pr_manifest pack_ref)) key aad (pr_chunks pack_ref)) (\<lambda>plaintext.
     and_then (map_err CryptoSerde (payload_from_slice env plaintext)) (\<lambda>payload.
     let pack = \<lparr>kp_manifest = pr_manifest pack_ref, kp_payload = payload\<rparr> in
     and_then (map_err CryptoPack (validate env pack)) (\<lambda>_. Ok pack))))))"

definition open_pack ::
    "'x crypto_env_scheme \<Rightarrow> downgrade_counter \<Rightarrow> pack_ref \<Rightarrow> secret \<Rightarrow> public_key_fingerprint
      \<Rightarrow> public_key_fingerprint \<Rightarrow> cipher_floor \<Rightarrow> (pack_crypto_error + knowledge_pack) \<times> downgrade_counter" where
  "open_pack env blocked pack_ref ikm teacher learner floor =
     (if \<not> meets_cipher_floor (pm_cipher_suite (pr_manifest pack_ref)) floor
      then (Err (DowngradeBlocked (pm_cipher_suite (pr_manifest pack_ref))), record_downgrade_blocked blocked)
      else (open_body env pack_ref ikm teacher learner, blocked))"

section \<open>The cipher floor\<close>

lemma default_floor_met [simp]: "meets_cipher_floor suite default_cipher_floor"
  by (cases suite) (simp_all add: default_cipher_floor_def)

section \<open>Key derivation is bound to both fingerprints\<close>

lemma as_bytes_inj [simp]: "as_bytes s = as_bytes t \<longleftrightarrow> s = t"
proof -
  have "inj (\<lambda>c::char. (of_nat (of_char c) :: u8))"
  proof (rule injI)
    fix c d :: char
    assume "(of_nat (of_char c) :: u8) = of_nat (of_char d)"
    then have "take_bit 8 (of_char c :: nat) = take_bit 8 (of_char d)"
      by (simp add: word_of_nat_eq_iff)
    then have "(of_char c :: nat) = of_char d"
      by (simp add: take_bit_nat_eq_self)
    then show "c = d" by simp
  qed
  then show ?thesis unfolding as_bytes_def by (simp add: inj_map_eq_map)
qed

lemma length_as_bytes [simp]: "length (as_bytes s) = length s"
  by (simp add: as_bytes_def)

lemma as_u32_eqD: "as_u32 m = as_u32 n \<Longrightarrow> m < 2 ^ 32 \<Longrightarrow> n < 2 ^ 32 \<Longrightarrow> m = n"
  by (simp add: word_of_nat_eq_iff take_bit_nat_eq_self)

lemma kdf_info_inj:
  assumes eq: "build_kdf_info t l = build_kdf_info t' l'"
    and bound: "length (fingerprint_text t) < 2 ^ 32" "length (fingerprint_text t') < 2 ^ 32"
  shows "t = t' \<and> l = l'"
proof -
  let ?b = "\<lambda>f. as_bytes (fingerprint_text f)"
  have "u32_to_be_bytes (as_u32 (length (?b t))) @ (?b t) @ u32_to_be_bytes (as_u32 (length (?b l))) @ ?b l
      = u32_to_be_bytes (as_u32 (length (?b t'))) @ (?b t') @ u32_to_be_bytes (as_u32 (length (?b l'))) @ ?b l'"
    using eq by (simp add: build_kdf_info_def Let_def)
  then have len: "as_u32 (length (?b t)) = as_u32 (length (?b t'))"
    and rest: "?b t @ u32_to_be_bytes (as_u32 (length (?b l))) @ ?b l
      = ?b t' @ u32_to_be_bytes (as_u32 (length (?b l'))) @ ?b l'"
    by (simp_all add: append_eq_append_conv)
  from len bound have "length (?b t) = length (?b t')" by (auto dest: as_u32_eqD)
  with rest have "?b t = ?b t'" "?b l = ?b l'" by (auto simp: append_eq_append_conv)
  then have "fingerprint_text t = fingerprint_text t'" "fingerprint_text l = fingerprint_text l'" by auto
  then show ?thesis by (cases t; cases t'; cases l; cases l') simp
qed

section \<open>Chunks cover the plaintext\<close>

lemma chunk_slice_eq:
  assumes "0 < c" "i * c \<le> length p"
  shows "chunk_slice p c i = take c (drop (i * c) p)"
  using assms by (auto simp: chunk_slice_def get_range_def min_def Let_def)

lemma concat_slices_prefix:
  assumes "0 < c" "\<forall>i<n. i * c \<le> length p"
  shows "concat (map (chunk_slice p c) [0..<n]) = take (n * c) p"
  using assms(2)
proof (induction n)
  case 0
  show ?case by simp
next
  case (Suc n)
  then have "chunk_slice p c n = take c (drop (n * c) p)"
    using assms(1) by (simp add: chunk_slice_eq)
  moreover have "take (Suc n * c) p = take (n * c) p @ take c (drop (n * c) p)"
    by (metis add.commute mult_Suc take_add)
  ultimately show ?case using Suc by simp
qed

lemma chunk_index_bound:
  assumes "0 < c" "i < max (div_ceil n c) 1"
  shows "i * c \<le> n"
proof (cases "i = 0")
  case False
  with assms have "i \<le> n div c" by (auto simp: div_ceil_def split: if_splits)
  then have "i * c \<le> n div c * c" by (rule mult_le_mono1)
  also have "\<dots> \<le> n" by (rule div_times_less_eq_dividend)
  finally show ?thesis .
qed simp

lemma div_ceil_covers: "0 < c \<Longrightarrow> n \<le> div_ceil n c * c"
proof -
  assume c: "0 < c"
  have n: "n div c * c + n mod c = n" by simp
  have "n mod c \<le> c" using c by (simp add: less_imp_le)
  with n have "n \<le> n div c * c + c" by linarith
  with n show ?thesis by (cases "n mod c = 0") (simp_all add: div_ceil_def add.commute)
qed

lemma concat_slices:
  assumes "0 < c"
  shows "concat (map (chunk_slice p c) [0..<max (div_ceil (length p) c) 1]) = p"
proof -
  let ?n = "max (div_ceil (length p) c) 1"
  have "concat (map (chunk_slice p c) [0..<?n]) = take (?n * c) p"
    using assms chunk_index_bound by (intro concat_slices_prefix) auto
  moreover have "length p \<le> ?n * c"
    using div_ceil_covers [OF assms, of "length p"]
    by (meson dual_order.trans max.cobounded1 mult_le_mono1)
  ultimately show ?thesis by simp
qed

section \<open>The sealing loop\<close>

text \<open>Documented behaviour of an AEAD: decryption with the same key, nonce and
  associated data returns the plaintext.\<close>

definition aead_correct :: "'x crypto_env_scheme \<Rightarrow> bool" where
  "aead_correct env \<longleftrightarrow>
     (\<forall>suite key nonce msg aad ct. length key = CONTENT_KEY_LEN \<longrightarrow> length nonce = NONCE_LEN \<longrightarrow>
        aead_encrypt env suite key nonce msg aad = Some ct \<longrightarrow>
        aead_decrypt env suite key nonce ct aad = Some msg)"

text \<open>Serde reads this payload back from the bytes it wrote.\<close>

definition payload_roundtrips :: "'x crypto_env_scheme \<Rightarrow> pack_payload \<Rightarrow> bool" where
  "payload_roundtrips env p \<longleftrightarrow>
     (\<forall>bs. payload_to_vec env p = Ok bs \<longrightarrow> payload_from_slice env bs = Ok p)"

lemma chunk_nonce_length: "chunk_nonce b i = Ok nonce \<Longrightarrow> length nonce = NONCE_LEN"
  by (auto simp: chunk_nonce_def NONCE_LEN_def split: if_splits)

lemma decrypt_encrypt:
  assumes "aead_correct env" "encrypt_chunk env suite key nonce msg aad = Ok ct" "length nonce = NONCE_LEN"
  shows "decrypt_chunk env suite key nonce ct aad = Ok msg"
  using assms by (auto simp: encrypt_chunk_def decrypt_chunk_def aead_correct_def secret_len_def split: if_splits)

lemma seal_chunks_open:
  assumes "aead_correct env"
    and "seal_chunks env suite key nb p c aad is = Ok (chunks, macs, whole)"
  shows "open_chunks env suite key aad chunks = Ok (concat (map (chunk_slice p c) is))"
  using assms(2)
proof (induction "is" arbitrary: chunks macs whole)
  case Nil
  then show ?case by simp
next
  case (Cons i "is")
  then obtain nonce ct chunks' macs' whole' where
      n: "chunk_nonce nb (as_u64 i) = Ok nonce"
    and e: "encrypt_chunk env suite key nonce (chunk_slice p c i) aad = Ok ct"
    and r: "seal_chunks env suite key nb p c aad is = Ok (chunks', macs', whole')"
    and eq: "chunks = \<lparr>sc_ciphertext = ct, sc_nonce = nonce\<rparr> # chunks'"
    by auto
  from decrypt_encrypt [OF assms(1) e chunk_nonce_length [OF n]] Cons.IH [OF r] eq
  show ?case by simp
qed

lemma seal_chunks_shape:
  assumes "seal_chunks env suite key nb p c aad is = Ok (chunks, macs, whole)"
  shows "length chunks = length is" "length macs = length is"
    "whole = concat (map sc_ciphertext chunks)"
    "macs = map (\<lambda>ch. ChunkMac (extract_tag (sc_ciphertext ch))) chunks"
    "map (\<lambda>ch. Ok (sc_nonce ch)) chunks = map (\<lambda>i. chunk_nonce nb (as_u64 i)) is"
  using assms by (induction "is" arbitrary: chunks macs whole) auto

lemma nonce_index_small:
  assumes "\<forall>i<n. \<exists>nonce. chunk_nonce nb (as_u64 i) = Ok nonce"
  shows "n \<le> 1000000"
proof (rule ccontr)
  assume "\<not> n \<le> 1000000"
  then have "1000000 < n" by simp
  with assms have "\<exists>nonce. chunk_nonce nb (as_u64 1000000) = Ok nonce" by blast
  then show False by (simp add: chunk_nonce_def MAX_CHUNKS_PER_PACK_def)
qed

lemma chunk_nonce_inj:
  assumes "chunk_nonce nb (as_u64 i) = chunk_nonce nb (as_u64 j)" "i < 1000000" "j < 1000000"
  shows "i = j"
proof -
  have small: "as_u64 k < MAX_CHUNKS_PER_PACK" if "k < 1000000" for k
    using that by (simp add: MAX_CHUNKS_PER_PACK_def word_less_nat_alt unsigned_of_nat take_bit_nat_eq_self)
  have "ucast (as_u64 i) = (ucast (as_u64 j) :: u32)"
    using assms small [of i] small [of j] by (simp add: chunk_nonce_def not_le split: if_splits)
  then have "as_u32 i = as_u32 j"
    using assms by (simp add: unsigned_of_nat take_bit_nat_eq_self)
  then show ?thesis using assms by (auto dest: as_u32_eqD)
qed

lemma seal_chunks_distinct_nonces:
  assumes "seal_chunks env suite key nb p c aad [0..<n] = Ok (chunks, macs, whole)"
  shows "distinct (map sc_nonce chunks)"
proof -
  note eq = seal_chunks_shape(5) [OF assms]
  have "\<forall>i<n. \<exists>nonce. chunk_nonce nb (as_u64 i) = Ok nonce"
  proof (intro allI impI)
    fix i assume "i < n"
    with arg_cong [OF eq, of "\<lambda>xs. xs ! i"] seal_chunks_shape(1) [OF assms]
    show "\<exists>nonce. chunk_nonce nb (as_u64 i) = Ok nonce"
      by (auto intro: sym)
  qed
  then have n: "n \<le> 1000000" by (rule nonce_index_small)
  have "inj_on (\<lambda>i. chunk_nonce nb (as_u64 i)) (set [0..<n])"
    using n chunk_nonce_inj by (intro inj_onI) auto
  then have "distinct (map (\<lambda>i. chunk_nonce nb (as_u64 i)) [0..<n])"
    by (simp add: distinct_map)
  then have "distinct (map (\<lambda>ch. (Ok (sc_nonce ch) :: pack_crypto_error + bytes)) chunks)"
    by (simp only: eq)
  then show ?thesis by (simp add: distinct_map inj_on_def)
qed

section \<open>Sealing and opening\<close>

lemma seal_body_OkE:
  assumes "seal_body env salt nb k ikm t l sz = Ok r"
  obtains key plaintext aad chunks macs whole where
    "pack_well_formed env k"
    "derive_content_key env ikm salt t l = Ok key"
    "payload_to_vec env (kp_payload k) = Ok plaintext"
    "manifest_aad env (clear_tags (kp_manifest k)) = Ok aad"
    "seal_chunks env (pm_cipher_suite (kp_manifest k)) key nb plaintext (max sz 1) aad
       [0..<max (div_ceil (length plaintext) (max sz 1)) 1] = Ok (chunks, macs, whole)"
    "r = \<lparr>pr_manifest = (kp_manifest k)\<lparr>pm_chunk_macs := macs, pm_pack_mac := Some (PackMac (sha256 env whole))\<rparr>,
          pr_kdf_salt = salt, pr_chunks = chunks\<rparr>"
  using assms by (auto simp: seal_body_def validate_Ok_iff Let_def split: prod.splits)

lemma clear_tags_set [simp]: "clear_tags (m\<lparr>pm_chunk_macs := macs, pm_pack_mac := mac\<rparr>) = clear_tags m"
  by (simp add: clear_tags_def)

lemma open_seal_body:
  assumes aead: "aead_correct env" and serde: "payload_roundtrips env (kp_payload k)"
    and sealed: "seal_body env salt nb k ikm t l sz = Ok r"
  shows "open_body env r ikm t l = Ok \<lparr>kp_manifest = pr_manifest r, kp_payload = kp_payload k\<rparr>"
  using sealed
proof (rule seal_body_OkE)
  fix key plaintext aad chunks macs whole
  assume wf: "pack_well_formed env k"
    and key: "derive_content_key env ikm salt t l = Ok key"
    and pt: "payload_to_vec env (kp_payload k) = Ok plaintext"
    and aad: "manifest_aad env (clear_tags (kp_manifest k)) = Ok aad"
    and loop: "seal_chunks env (pm_cipher_suite (kp_manifest k)) key nb plaintext (max sz 1) aad
       [0..<max (div_ceil (length plaintext) (max sz 1)) 1] = Ok (chunks, macs, whole)"
    and r: "r = \<lparr>pr_manifest = (kp_manifest k)\<lparr>pm_chunk_macs := macs, pm_pack_mac := Some (PackMac (sha256 env whole))\<rparr>,
          pr_kdf_salt = salt, pr_chunks = chunks\<rparr>"
  have "open_chunks env (pm_cipher_suite (kp_manifest k)) key aad chunks = Ok plaintext"
    using seal_chunks_open [OF aead loop] concat_slices [of "max sz 1" plaintext] by simp
  moreover have "payload_from_slice env plaintext = Ok (kp_payload k)"
    using serde pt by (simp add: payload_roundtrips_def)
  moreover have "validate env \<lparr>kp_manifest = pr_manifest r, kp_payload = kp_payload k\<rparr> = Ok ()"
    using wf r by (simp add: validate_Ok_iff pack_well_formed_tags pack_well_formed_parts)
  ultimately show ?thesis
    using key aad r seal_chunks_shape(1,2) [OF loop] by (simp add: open_body_def)
qed

lemma open_body_OkE:
  assumes "open_body env r ikm t l = Ok k"
  obtains key aad plaintext where
    "length (pm_chunk_macs (pr_manifest r)) = length (pr_chunks r)"
    "derive_content_key env ikm (pr_kdf_salt r) t l = Ok key"
    "manifest_aad env (clear_tags (pr_manifest r)) = Ok aad"
    "open_chunks env (pm_cipher_suite (pr_manifest r)) key aad (pr_chunks r) = Ok plaintext"
    "payload_from_slice env plaintext = Ok (kp_payload k)"
    "kp_manifest k = pr_manifest r" "pack_well_formed env k"
  using assms by (auto simp: open_body_def validate_Ok_iff Let_def)

lemma open_chunks_OkD:
  "open_chunks env suite key aad cs = Ok pt \<Longrightarrow>
    \<exists>pts. map (\<lambda>c. decrypt_chunk env suite key (sc_nonce c) (sc_ciphertext c) aad) cs = map Ok pts \<and> pt = concat pts"
proof (induction cs arbitrary: pt)
  case (Cons c cs)
  then obtain d rest where d: "decrypt_chunk env suite key (sc_nonce c) (sc_ciphertext c) aad = Ok d"
    and "open_chunks env suite key aad cs = Ok rest" "pt = d @ rest" by auto
  with Cons.IH obtain pts where
    "map (\<lambda>c. decrypt_chunk env suite key (sc_nonce c) (sc_ciphertext c) aad) cs = map Ok pts" "rest = concat pts" by blast
  with d \<open>pt = d @ rest\<close> show ?case by (intro exI [of _ "d # pts"]) simp
qed simp

lemma seal_chunks_nonce_length:
  "seal_chunks env suite key nb p c aad is = Ok (chunks, macs, whole) \<Longrightarrow>
    ch \<in> set chunks \<Longrightarrow> length (sc_nonce ch) = NONCE_LEN"
  by (induction "is" arbitrary: chunks macs whole) (auto simp: chunk_nonce_length)


section \<open>Only the floor refuses a suite\<close>

lemma derive_content_key_no_downgrade [simp]: "derive_content_key env ikm salt t l \<noteq> Err (DowngradeBlocked s)"
  by (auto simp: derive_content_key_def map_err_def split: sum.splits)

lemma seal_chunks_no_downgrade [simp]: "seal_chunks env suite key nb p sz aad is \<noteq> Err (DowngradeBlocked s)"
  by (induction "is") (auto simp: and_then_eq_Err chunk_nonce_def encrypt_chunk_def ok_or_def map_ok_def split: if_splits option.splits sum.splits)

lemma open_chunks_no_downgrade [simp]: "open_chunks env suite key aad cs \<noteq> Err (DowngradeBlocked s)"
  by (induction cs) (auto simp: and_then_eq_Err decrypt_chunk_def ok_or_def map_ok_def split: if_splits option.splits sum.splits)

lemma seal_body_no_downgrade: "seal_body env salt nb k ikm t l sz \<noteq> Err (DowngradeBlocked s)"
  by (auto simp: seal_body_def Let_def and_then_eq_Err map_err_eq_Err manifest_aad_def ensure_def split: if_splits)

lemma open_body_no_downgrade: "open_body env r ikm t l \<noteq> Err (DowngradeBlocked s)"
  by (auto simp: open_body_def Let_def and_then_eq_Err map_err_eq_Err manifest_aad_def ensure_def split: if_splits)

lemma cipher_strength_eq: "cipher_strength suite = 100"
  by (cases suite) simp_all

end
