(* ===== verification/Replication.thy ===== *)
theory Replication
  imports Pack_Crypto
begin

text \<open>
  \<open>ferrosa-memory-sync/src/replication.rs\<close>: the teacher copies a selection into a pack,
  drops what refers outside of it, redacts full bodies in summary-first mode, and
  seals the result.
\<close>

section \<open>Data\<close>

record teacher_selection =
  ts_entities :: "entity_entry list"
  ts_folds :: "fold_entry list"
  ts_temporal :: "temporal_event list"
  ts_edges :: "typed_edge list"
  ts_items :: "teaching_item list"
  ts_provenance_rows :: "memory_provenance list"

record pack_build_params =
  bp_pack_id :: uuid
  bp_pack_version :: u64
  bp_cipher_suite :: cipher_suite
  bp_engine_version :: string
  bp_embedding_model :: string
  bp_embedding_dim :: u32
  bp_summary_first :: bool
  bp_created_at :: instant
  bp_ttl_expires_at :: "instant option"
  bp_provenance :: pack_provenance_envelope

record build_report =
  br_dropped_edges :: nat
  br_dropped_temporal :: nat
  br_redacted_item_bodies :: nat
  br_redacted_fold_bodies :: nat

record built_pack =
  bu_pack :: knowledge_pack
  bu_report :: build_report

datatype build_error =
    BuildHash string remote_identity_error
  | BuildSerialize string
  | BuildInvalid pack_error

datatype emit_error = EmitBuild build_error | EmitSeal pack_crypto_error

section \<open>Iterator loops with a counter\<close>

text \<open>\<open>iter().filter(..)\<close> whose closure counts what it rejects, and
  \<open>iter().map(..)\<close> whose closure counts what it changes.\<close>

fun filter_counting :: "('a \<Rightarrow> bool) \<Rightarrow> 'a list \<Rightarrow> 'a list \<times> nat" where
  "filter_counting p [] = ([], 0)"
| "filter_counting p (x # xs) =
     (let (kept, dropped) = filter_counting p xs
      in if p x then (x # kept, dropped) else (kept, Suc dropped))"

fun map_counting :: "('a \<Rightarrow> bool) \<Rightarrow> ('a \<Rightarrow> 'a) \<Rightarrow> 'a list \<Rightarrow> 'a list \<times> nat" where
  "map_counting p f [] = ([], 0)"
| "map_counting p f (x # xs) =
     (let (ys, n) = map_counting p f xs in if p x then (f x # ys, Suc n) else (x # ys, n))"

section \<open>Building\<close>

definition hash_section ::
    "'x pack_env_scheme \<Rightarrow> string \<Rightarrow> ('a \<Rightarrow> string + json) \<Rightarrow> 'a \<Rightarrow> build_error + content_hash" where
  "hash_section env sec to_value v = map_err (BuildHash sec) (sha256_json env to_value v)"

definition build_manifest ::
    "'x crypto_env_scheme \<Rightarrow> pack_payload \<Rightarrow> pack_build_params \<Rightarrow> build_error + pack_manifest" where
  "build_manifest env payload params =
     and_then (hash_section env ''entities'' (entities_to_value env) (pp_entities payload)) (\<lambda>entities_hash.
     and_then (hash_section env ''folds'' (folds_to_value env) (pp_folds payload)) (\<lambda>folds_hash.
     and_then (hash_section env ''temporal'' (temporal_to_value env) (pp_temporal payload)) (\<lambda>temporal_hash.
     and_then (hash_section env ''edges'' (edges_to_value env) (pp_edges payload)) (\<lambda>edges_hash.
     and_then (hash_section env ''items'' (items_to_value env) (pp_items payload)) (\<lambda>items_hash.
     and_then (map_err BuildSerialize (payload_to_vec env payload)) (\<lambda>bs.
     Ok \<lparr>pm_pack_id = bp_pack_id params,
         pm_schema_version = PACK_SCHEMA_VERSION,
         pm_pack_version = bp_pack_version params,
         pm_declared_size_bytes = as_u64 (length bs),
         pm_entity_count = as_u64 (length (pp_entities payload)),
         pm_fold_count = as_u64 (length (pp_folds payload)),
         pm_temporal_count = as_u64 (length (pp_temporal payload)),
         pm_edge_count = as_u64 (length (pp_edges payload)),
         pm_item_count = as_u64 (length (pp_items payload)),
         pm_entities_hash = entities_hash,
         pm_folds_hash = folds_hash,
         pm_temporal_hash = temporal_hash,
         pm_edges_hash = edges_hash,
         pm_items_hash = items_hash,
         pm_chunk_macs = [],
         pm_pack_mac = None,
         pm_cipher_suite = bp_cipher_suite params,
         pm_engine_version = bp_engine_version params,
         pm_embedding_model = bp_embedding_model params,
         pm_embedding_dim = bp_embedding_dim params,
         pm_provenance = bp_provenance params,
         pm_created_at = bp_created_at params,
         pm_ttl_expires_at = bp_ttl_expires_at params,
         pm_summary_first = bp_summary_first params\<rparr>))))))"

text \<open>The payload and the report \<open>build_pack\<close> assembles before it hashes anything.\<close>

definition select_payload :: "teacher_selection \<Rightarrow> pack_build_params \<Rightarrow> pack_payload \<times> build_report" where
  "select_payload selection params =
     (let selected = set (map ee_entity_id (ts_entities selection));
          (edges, dropped_edges) =
            filter_counting (\<lambda>e. ed_src_id e \<in> selected \<and> ed_dst_id e \<in> selected) (ts_edges selection);
          (temporal, dropped_temporal) =
            filter_counting (\<lambda>t. te_entity_id t \<in> selected) (ts_temporal selection);
          (items, redacted_item_bodies) =
            map_counting (\<lambda>i. bp_summary_first params \<and> ti_body i \<noteq> None) (ti_body_update (\<lambda>_. None))
              (ts_items selection);
          (folds, redacted_fold_bodies) =
            map_counting (\<lambda>f. bp_summary_first params \<and> fe_raw_trajectory f \<noteq> [])
              (fe_raw_trajectory_update (\<lambda>_. [])) (ts_folds selection)
      in (\<lparr>pp_entities = ts_entities selection, pp_folds = folds, pp_temporal = temporal,
           pp_edges = edges, pp_items = items, pp_provenance_rows = ts_provenance_rows selection\<rparr>,
          \<lparr>br_dropped_edges = dropped_edges, br_dropped_temporal = dropped_temporal,
           br_redacted_item_bodies = redacted_item_bodies, br_redacted_fold_bodies = redacted_fold_bodies\<rparr>))"

definition build_pack ::
    "'x crypto_env_scheme \<Rightarrow> teacher_selection \<Rightarrow> pack_build_params \<Rightarrow> build_error + built_pack" where
  "build_pack env selection params =
     (let (payload, report) = select_payload selection params in
      and_then (build_manifest env payload params) (\<lambda>manifest.
      let pack = \<lparr>kp_manifest = manifest, kp_payload = payload\<rparr> in
      and_then (map_err BuildInvalid (validate env pack)) (\<lambda>_.
      Ok \<lparr>bu_pack = pack, bu_report = report\<rparr>)))"

definition build_and_seal ::
    "'x crypto_env_scheme \<Rightarrow> bytes \<Rightarrow> u64 \<Rightarrow> downgrade_counter \<Rightarrow> teacher_selection \<Rightarrow> pack_build_params
      \<Rightarrow> secret \<Rightarrow> nat \<Rightarrow> cipher_floor \<Rightarrow> (emit_error + pack_ref \<times> build_report) \<times> downgrade_counter" where
  "build_and_seal env salt nonce_base blocked selection params ikm chunk_size floor =
     (case build_pack env selection params of
        Inl e \<Rightarrow> (Err (EmitBuild e), blocked)
      | Inr built \<Rightarrow>
          let teacher = ppe_teacher_fingerprint (bp_provenance params);
              learner = ppe_learner_fingerprint (bp_provenance params);
              (r, blocked') = seal_pack env salt nonce_base blocked (bu_pack built) ikm teacher learner
                chunk_size floor
          in (case r of Inl e \<Rightarrow> Err (EmitSeal e) | Inr pack_ref \<Rightarrow> Ok (pack_ref, bu_report built), blocked'))"

definition binds_fingerprints ::
    "pack_build_params \<Rightarrow> public_key_fingerprint \<Rightarrow> public_key_fingerprint \<Rightarrow> bool" where
  "binds_fingerprints params teacher learner \<longleftrightarrow>
     ppe_teacher_fingerprint (bp_provenance params) = teacher \<and>
     ppe_learner_fingerprint (bp_provenance params) = learner"

section \<open>The counting loops\<close>

lemma filter_counting_eq:
  "filter_counting p xs = (filter p xs, length (filter (\<lambda>x. \<not> p x) xs))"
  by (induction xs) auto

lemma map_counting_eq:
  "map_counting p f xs = (map (\<lambda>x. if p x then f x else x) xs, length (filter p xs))"
  by (induction xs) auto

section \<open>What the builder copies\<close>

definition inside_selection :: "teacher_selection \<Rightarrow> uuid \<Rightarrow> bool" where
  "inside_selection selection i \<longleftrightarrow> i \<in> ee_entity_id ` set (ts_entities selection)"

lemma select_payload_eq:
  "select_payload selection params =
     (\<lparr>pp_entities = ts_entities selection,
       pp_folds = map (\<lambda>f. if bp_summary_first params \<and> fe_raw_trajectory f \<noteq> []
                           then f\<lparr>fe_raw_trajectory := []\<rparr> else f) (ts_folds selection),
       pp_temporal = filter (\<lambda>t. inside_selection selection (te_entity_id t)) (ts_temporal selection),
       pp_edges = filter (\<lambda>e. inside_selection selection (ed_src_id e) \<and> inside_selection selection (ed_dst_id e))
                    (ts_edges selection),
       pp_items = map (\<lambda>i. if bp_summary_first params \<and> ti_body i \<noteq> None then i\<lparr>ti_body := None\<rparr> else i)
                    (ts_items selection),
       pp_provenance_rows = ts_provenance_rows selection\<rparr>,
      \<lparr>br_dropped_edges = length (filter (\<lambda>e. \<not> (inside_selection selection (ed_src_id e) \<and>
           inside_selection selection (ed_dst_id e))) (ts_edges selection)),
       br_dropped_temporal = length (filter (\<lambda>t. \<not> inside_selection selection (te_entity_id t))
           (ts_temporal selection)),
       br_redacted_item_bodies = length (filter (\<lambda>i. bp_summary_first params \<and> ti_body i \<noteq> None)
           (ts_items selection)),
       br_redacted_fold_bodies = length (filter (\<lambda>f. bp_summary_first params \<and> fe_raw_trajectory f \<noteq> [])
           (ts_folds selection))\<rparr>)"
  by (simp add: select_payload_def filter_counting_eq map_counting_eq inside_selection_def)

lemma select_payload_closed: "edges_closed (fst (select_payload selection params))"
  by (auto simp: edges_closed_def select_payload_eq inside_selection_def)

section \<open>The manifest describes the payload\<close>

lemma build_manifest_OkD:
  assumes "build_manifest env payload params = Ok m"
  shows "pm_schema_version m = PACK_SCHEMA_VERSION" "counts_agree m payload"
    "compute_section_hashes env payload = Ok (manifest_hashes m)"
    "pm_provenance m = bp_provenance params" "pm_pack_id m = bp_pack_id params"
    "pm_pack_version m = bp_pack_version params" "pm_cipher_suite m = bp_cipher_suite params"
    "pm_ttl_expires_at m = bp_ttl_expires_at params" "pm_summary_first m = bp_summary_first params"
    "\<exists>bs. payload_to_vec env payload = Ok bs \<and> pm_declared_size_bytes m = as_u64 (length bs)"
  using assms
  by (auto simp: build_manifest_def hash_section_def counts_agree_def compute_section_hashes_def
      manifest_hashes_def Let_def)

lemma build_pack_OkE:
  assumes "build_pack env selection params = Ok b"
  obtains m where
    "build_manifest env (fst (select_payload selection params)) params = Ok m"
    "bu_pack b = \<lparr>kp_manifest = m, kp_payload = fst (select_payload selection params)\<rparr>"
    "bu_report b = snd (select_payload selection params)"
    "pack_well_formed env (bu_pack b)"
  using assms by (auto simp: build_pack_def validate_Ok_iff Let_def split: prod.splits)

section \<open>Why a build can be refused\<close>

text \<open>The rejections that the builder's own work cannot cause: the caller chose too
  many or too large rows, a dimension that does not fit, a bad embedding or a TTL
  in the past.\<close>

fun caller_fault :: "pack_error \<Rightarrow> bool" where
  "caller_fault (CountExceedsMax _ _ _) = True"
| "caller_fault (SizeExceedsMax _ _) = True"
| "caller_fault ZeroEmbeddingDim = True"
| "caller_fault (EmbeddingDimMismatch _ _ _) = True"
| "caller_fault (EmbeddingNotFinite _) = True"
| "caller_fault (TtlNotInFuture _ _) = True"
| "caller_fault _ = False"

lemma validate_bounds_fault: "validate_bounds k = Err e \<Longrightarrow> caller_fault e"
  by (auto simp: validate_bounds_def Let_def and_then_eq_Err split: if_splits)

lemma check_embedding_fault: "check_embedding field emb dim = Err e \<Longrightarrow> caller_fault e"
  by (auto simp: check_embedding_def split: option.splits if_splits)

lemma validate_embeddings_fault: "validate_embeddings k = Err e \<Longrightarrow> caller_fault e"
  by (auto simp: validate_embeddings_def Let_def and_then_eq_Err
      dest!: try_each_ErrD dest: check_embedding_fault)

lemma validate_ttl_fault: "validate_ttl k = Err e \<Longrightarrow> caller_fault e"
  by (auto simp: validate_ttl_def split: option.splits if_splits)

lemma built_pack_rejection:
  assumes m: "build_manifest env payload params = Ok m" and closed: "edges_closed payload"
    and err: "validate env \<lparr>kp_manifest = m, kp_payload = payload\<rparr> = Err e"
  shows "caller_fault e"
proof -
  let ?k = "\<lparr>kp_manifest = m, kp_payload = payload\<rparr>"
  have "validate_schema_version ?k = Ok ()" "validate_counts ?k = Ok ()"
    "validate_hashes env ?k = Ok ()" "validate_edge_closure ?k = Ok ()"
    using build_manifest_OkD(1-3) [OF m] closed by (simp_all add: validate_steps_Ok)
  with err have "validate_bounds ?k = Err e \<or> validate_embeddings ?k = Err e \<or> validate_ttl ?k = Err e"
    by (auto simp: validate_def and_then_eq_Err)
  then show ?thesis
    using validate_bounds_fault validate_embeddings_fault validate_ttl_fault by blast
qed

lemma build_manifest_no_invalid: "build_manifest env payload params \<noteq> Err (BuildInvalid e)"
  by (auto simp: build_manifest_def hash_section_def and_then_eq_Err map_err_eq_Err Let_def)

lemma select_payload_summary:
  assumes "bp_summary_first params"
  shows "\<forall>i \<in> set (pp_items (fst (select_payload sel params))). ti_body i = None"
    "\<forall>f \<in> set (pp_folds (fst (select_payload sel params))). fe_raw_trajectory f = []"
  using assms by (auto simp: select_payload_eq)

lemma select_payload_counts:
  "length (ts_edges sel) = length (pp_edges (fst (select_payload sel params))) + br_dropped_edges (snd (select_payload sel params))"
  "length (ts_temporal sel) =
     length (pp_temporal (fst (select_payload sel params))) + br_dropped_temporal (snd (select_payload sel params))"
  using sum_length_filter_compl [of "\<lambda>e. inside_selection sel (ed_src_id e) \<and> inside_selection sel (ed_dst_id e)" "ts_edges sel"]
    sum_length_filter_compl [of "\<lambda>t. inside_selection sel (te_entity_id t)" "ts_temporal sel"]
  by (simp_all add: select_payload_eq)

lemma select_payload_parts:
  "pp_entities (fst (select_payload sel params)) = ts_entities sel"
  "pp_edges (fst (select_payload sel params)) =
     filter (\<lambda>e. ed_src_id e \<in> ee_entity_id ` set (ts_entities sel) \<and> ed_dst_id e \<in> ee_entity_id ` set (ts_entities sel))
       (ts_edges sel)"
  "pp_temporal (fst (select_payload sel params)) =
     filter (\<lambda>t. te_entity_id t \<in> ee_entity_id ` set (ts_entities sel)) (ts_temporal sel)"
  by (simp_all add: select_payload_eq inside_selection_def)

end
