(* ===== verification/Learner_Ingest.thy ===== *)
theory Learner_Ingest
  imports Replication
begin

text \<open>
  \<open>ferrosa-memory-sync/src/learner_ingest.rs\<close>: verify, cross-check the channel's
  attestation, refuse replays, then stage and flip. The store behind the trait
  \<open>PackApplyStore\<close> is a record of operations over a store state; the contract its
  documentation states is the locale \<open>pack_apply_store\<close>, in which the properties of
  the ingest path are proved once.
\<close>

section \<open>Data\<close>

record channel_attestation =
  ca_attested_teacher :: public_key_fingerprint
  ca_attested_learner :: public_key_fingerprint
  ca_remote_id :: uuid

record staged_pack =
  sp_pack_id :: uuid
  sp_pack_version :: u64
  sp_entities :: "entity_entry list"
  sp_folds :: "fold_entry list"
  sp_temporal :: "temporal_event list"
  sp_edges :: "typed_edge list"
  sp_provenance :: "memory_provenance list"
  sp_ttl_expires_at :: "instant option"
  sp_remote_id :: uuid

text \<open>The text carried by the last two variants is a prefix and the text of the
  store's error, kept here as that error.\<close>

datatype 'err ingest_error =
    IngestCrypto pack_crypto_error
  | IngestPack pack_error
  | AttestationMismatch string string string string
  | ReplayRejected uuid u64 u64
  | StagingFailed string 'err
  | FlipFailed 'err

record ingest_outcome =
  io_pack_id :: uuid
  io_pack_version :: u64
  io_entities_applied :: nat
  io_folds_applied :: nat
  io_temporal_applied :: nat
  io_edges_applied :: nat
  io_provenance_rows :: nat
  io_idempotent_noop :: bool

record ('s, 'err) apply_store_ops =
  last_applied_version :: "'s \<Rightarrow> uuid \<Rightarrow> ('err + u64 option) \<times> 's"
  stage :: "'s \<Rightarrow> staged_pack \<Rightarrow> ('err + unit) \<times> 's"
  flip :: "'s \<Rightarrow> staged_pack \<Rightarrow> ('err + unit) \<times> 's"

section \<open>Operations\<close>

definition build_staged :: "knowledge_pack \<Rightarrow> channel_attestation \<Rightarrow> staged_pack" where
  "build_staged pack attestation =
     \<lparr>sp_pack_id = pm_pack_id (kp_manifest pack),
      sp_pack_version = pm_pack_version (kp_manifest pack),
      sp_entities = pp_entities (kp_payload pack),
      sp_folds = pp_folds (kp_payload pack),
      sp_temporal = pp_temporal (kp_payload pack),
      sp_edges = pp_edges (kp_payload pack),
      sp_provenance = map (\<lambda>p. p\<lparr>mp_remote_id := ca_remote_id attestation\<rparr>)
        (pp_provenance_rows (kp_payload pack)),
      sp_ttl_expires_at = pm_ttl_expires_at (kp_manifest pack),
      sp_remote_id = ca_remote_id attestation\<rparr>"

definition check_attestation :: "pack_provenance_envelope \<Rightarrow> channel_attestation \<Rightarrow> 'err ingest_error + unit" where
  "check_attestation prov attestation =
     (if ppe_teacher_fingerprint prov \<noteq> ca_attested_teacher attestation \<or>
         ppe_learner_fingerprint prov \<noteq> ca_attested_learner attestation
      then Err (AttestationMismatch
        (fingerprint_text (ppe_teacher_fingerprint prov)) (fingerprint_text (ppe_learner_fingerprint prov))
        (fingerprint_text (ca_attested_teacher attestation)) (fingerprint_text (ca_attested_learner attestation)))
      else Ok ())"

definition noop_outcome :: "knowledge_pack \<Rightarrow> ingest_outcome" where
  "noop_outcome pack =
     \<lparr>io_pack_id = pm_pack_id (kp_manifest pack),
      io_pack_version = pm_pack_version (kp_manifest pack),
      io_entities_applied = length (pp_entities (kp_payload pack)),
      io_folds_applied = length (pp_folds (kp_payload pack)),
      io_temporal_applied = length (pp_temporal (kp_payload pack)),
      io_edges_applied = length (pp_edges (kp_payload pack)),
      io_provenance_rows = length (pp_provenance_rows (kp_payload pack)),
      io_idempotent_noop = True\<rparr>"

definition applied_outcome :: "staged_pack \<Rightarrow> ingest_outcome" where
  "applied_outcome staged =
     \<lparr>io_pack_id = sp_pack_id staged, io_pack_version = sp_pack_version staged,
      io_entities_applied = length (sp_entities staged),
      io_folds_applied = length (sp_folds staged),
      io_temporal_applied = length (sp_temporal staged),
      io_edges_applied = length (sp_edges staged),
      io_provenance_rows = length (sp_provenance staged),
      io_idempotent_noop = False\<rparr>"

text \<open>Steps 5 and 6: stage, then flip.\<close>

definition stage_and_flip ::
    "('s, 'err) apply_store_ops \<Rightarrow> 's \<Rightarrow> staged_pack \<Rightarrow> ('err ingest_error + ingest_outcome) \<times> 's" where
  "stage_and_flip ops s staged =
     (case stage ops s staged of
        (Inl e, s') \<Rightarrow> (Err (StagingFailed [] e), s')
      | (Inr _, s') \<Rightarrow>
          (case flip ops s' staged of
             (Inl e, s'') \<Rightarrow> (Err (FlipFailed e), s'')
           | (Inr _, s'') \<Rightarrow> (Ok (applied_outcome staged), s'')))"

text \<open>Step 4 on: the replay check over a verified pack.\<close>

definition apply_verified ::
    "('s, 'err) apply_store_ops \<Rightarrow> 's \<Rightarrow> knowledge_pack \<Rightarrow> channel_attestation
      \<Rightarrow> ('err ingest_error + ingest_outcome) \<times> 's" where
  "apply_verified ops s pack attestation =
     (let pack_id = pm_pack_id (kp_manifest pack);
          incoming_version = pm_pack_version (kp_manifest pack) in
      case last_applied_version ops s pack_id of
        (Inl e, s') \<Rightarrow> (Err (StagingFailed ''version lookup: '' e), s')
      | (Inr None, s') \<Rightarrow> stage_and_flip ops s' (build_staged pack attestation)
      | (Inr (Some applied_version), s') \<Rightarrow>
          if incoming_version = applied_version then (Ok (noop_outcome pack), s')
          else if incoming_version < applied_version
          then (Err (ReplayRejected pack_id incoming_version applied_version), s')
          else stage_and_flip ops s' (build_staged pack attestation))"

definition verify_pack_ref ::
    "'x crypto_env_scheme \<Rightarrow> downgrade_counter \<Rightarrow> pack_ref \<Rightarrow> secret \<Rightarrow> channel_attestation \<Rightarrow> cipher_floor
      \<Rightarrow> ('err ingest_error + knowledge_pack) \<times> downgrade_counter" where
  "verify_pack_ref env blocked pack_ref ikm attestation floor =
     (let (r, blocked') = open_pack env blocked pack_ref ikm (ca_attested_teacher attestation)
            (ca_attested_learner attestation) floor in
      (and_then (map_err IngestCrypto r) (\<lambda>pack.
       and_then (map_err IngestPack (validate env pack)) (\<lambda>_.
       and_then (check_attestation (pm_provenance (kp_manifest pack)) attestation) (\<lambda>_. Ok pack))), blocked'))"

definition ingest_pack ::
    "'x crypto_env_scheme \<Rightarrow> ('s, 'err) apply_store_ops \<Rightarrow> downgrade_counter \<Rightarrow> 's \<Rightarrow> pack_ref \<Rightarrow> secret
      \<Rightarrow> channel_attestation \<Rightarrow> cipher_floor
      \<Rightarrow> ('err ingest_error + ingest_outcome) \<times> 's \<times> downgrade_counter" where
  "ingest_pack env ops blocked s pack_ref ikm attestation floor =
     (case verify_pack_ref env blocked pack_ref ikm attestation floor of
        (Inl e, blocked') \<Rightarrow> (Err e, s, blocked')
      | (Inr pack, blocked') \<Rightarrow>
          let (r, s') = apply_verified ops s pack attestation in (r, s', blocked'))"

section \<open>The contract of an apply store\<close>

text \<open>
  \<open>version_of\<close> is the ledger replay defence reads, \<open>visible\<close> the packs that have
  been flipped. Staging makes nothing visible; a flip that succeeds after the
  pack was staged publishes it and records its version; a flip that fails may
  leave the rows of this pack version behind but never touches the ledger.
\<close>

locale pack_apply_store =
  fixes ops :: "('s, 'err) apply_store_ops"
    and version_of :: "'s \<Rightarrow> uuid \<Rightarrow> u64 option"
    and visible :: "'s \<Rightarrow> uuid \<Rightarrow> u64 \<Rightarrow> staged_pack option"
  assumes lookup_frame: "last_applied_version ops s p = (rl, s') \<Longrightarrow>
      version_of s' = version_of s \<and> visible s' = visible s"
    and lookup_value: "last_applied_version ops s p = (Inr v, s') \<Longrightarrow> v = version_of s p"
    and stage_frame: "stage ops s sp = (rs, s') \<Longrightarrow>
      version_of s' = version_of s \<and> visible s' = visible s"
    and flip_ok: "stage ops s sp = (Inr u, s1) \<Longrightarrow> flip ops s1 sp = (Inr w, s2) \<Longrightarrow>
      version_of s2 = (version_of s)(sp_pack_id sp \<mapsto> sp_pack_version sp) \<and>
      visible s2 = (visible s)(sp_pack_id sp := (visible s (sp_pack_id sp))(sp_pack_version sp \<mapsto> sp))"
    and flip_err: "flip ops s sp = (Inl e, s') \<Longrightarrow>
      version_of s' = version_of s \<and>
      (\<forall>p v. (p, v) \<noteq> (sp_pack_id sp, sp_pack_version sp) \<longrightarrow> visible s' p v = visible s p v)"
begin

lemma stage_and_flip_cases:
  assumes "stage_and_flip ops s sp = (r, s')"
  obtains
    (applied) "r = Ok (applied_outcome sp)"
      "version_of s' = (version_of s)(sp_pack_id sp \<mapsto> sp_pack_version sp)"
      "visible s' = (visible s)(sp_pack_id sp := (visible s (sp_pack_id sp))(sp_pack_version sp \<mapsto> sp))"
  | (staging) e where "r = Err (StagingFailed [] e)" "version_of s' = version_of s" "visible s' = visible s"
  | (flipping) e where "r = Err (FlipFailed e)" "version_of s' = version_of s"
      "\<forall>p v. (p, v) \<noteq> (sp_pack_id sp, sp_pack_version sp) \<longrightarrow> visible s' p v = visible s p v"
proof -
  obtain r1 s1 where st: "stage ops s sp = (r1, s1)" by fastforce
  note fr = stage_frame [OF st]
  show thesis
  proof (cases r1)
    case (Inl e)
    with assms st fr show ?thesis by (intro staging) (auto simp: stage_and_flip_def)
  next
    case (Inr u)
    obtain r2 s2 where fl: "flip ops s1 sp = (r2, s2)" by fastforce
    show ?thesis
    proof (cases r2)
      case (Inl e)
      with flip_err fl fr assms st Inr show ?thesis
        by (intro flipping [of e]) (auto simp: stage_and_flip_def)
    next
      case (Inr w)
      with flip_ok st fl assms \<open>r1 = Inr u\<close> show ?thesis
        by (intro applied) (auto simp: stage_and_flip_def)
    qed
  qed
qed

lemma apply_verified_cases:
  assumes "apply_verified ops s pack att = (r, s')"
  obtains
    (applied) sp where "sp = build_staged pack att" "r = Ok (applied_outcome sp)"
      "\<And>a. version_of s (sp_pack_id sp) = Some a \<Longrightarrow> a < sp_pack_version sp"
      "version_of s' = (version_of s)(sp_pack_id sp \<mapsto> sp_pack_version sp)"
      "visible s' = (visible s)(sp_pack_id sp := (visible s (sp_pack_id sp))(sp_pack_version sp \<mapsto> sp))"
  | (noop) "r = Ok (noop_outcome pack)" "version_of s' = version_of s" "visible s' = visible s"
      "version_of s (pm_pack_id (kp_manifest pack)) = Some (pm_pack_version (kp_manifest pack))"
  | (unchanged) e where "r = Err e" "\<And>f. e \<noteq> FlipFailed f" "version_of s' = version_of s" "visible s' = visible s"
  | (flipping) e sp where "r = Err (FlipFailed e)" "sp = build_staged pack att" "version_of s' = version_of s"
      "\<And>a. version_of s (sp_pack_id sp) = Some a \<Longrightarrow> a < sp_pack_version sp"
      "\<forall>p v. (p, v) \<noteq> (sp_pack_id sp, sp_pack_version sp) \<longrightarrow> visible s' p v = visible s p v"
proof -
  note outcomes = applied noop unchanged flipping
  let ?id = "pm_pack_id (kp_manifest pack)" and ?v = "pm_pack_version (kp_manifest pack)"
  let ?sp = "build_staged pack att"
  have ids: "sp_pack_id ?sp = ?id" "sp_pack_version ?sp = ?v"
    by (simp_all add: build_staged_def)
  obtain rl s1 where lk: "last_applied_version ops s ?id = (rl, s1)" by fastforce
  note fr = lookup_frame [OF lk]
  have go: thesis if newer: "\<And>a. version_of s ?id = Some a \<Longrightarrow> a < ?v"
    and step: "stage_and_flip ops s1 ?sp = (r, s')"
    using step
  proof (cases rule: stage_and_flip_cases)
    case applied
    with fr newer show ?thesis by (intro outcomes(1) [OF HOL.refl]) (auto simp: ids)
  next
    case (staging e)
    with fr show ?thesis by (intro outcomes(3) [of "StagingFailed [] e"]) auto
  next
    case (flipping e)
    with fr newer show ?thesis by (intro outcomes(4) [OF _ HOL.refl]) (auto simp: ids)
  qed
  show thesis
  proof (cases rl)
    case (Inl e)
    with assms lk fr show ?thesis
      by (intro outcomes(3) [of "StagingFailed ''version lookup: '' e"]) (auto simp: apply_verified_def Let_def)
  next
    case (Inr found)
    with lookup_value lk have val: "found = version_of s ?id" by blast
    show ?thesis
    proof (cases found)
      case None
      with assms lk Inr val show ?thesis by (intro go) (auto simp: apply_verified_def Let_def)
    next
      case (Some a)
      consider "?v = a" | "?v < a" | "a < ?v" by fastforce
      then show ?thesis
      proof cases
        case 1
        with assms lk Inr Some val fr show ?thesis by (intro outcomes(2)) (auto simp: apply_verified_def Let_def)
      next
        case 2
        then have "?v \<noteq> a" by simp
        with 2 assms lk Inr Some fr show ?thesis
          by (intro outcomes(3) [of "ReplayRejected ?id ?v a"]) (auto simp: apply_verified_def Let_def)
      next
        case 3
        then have "?v \<noteq> a" "\<not> ?v < a" by simp_all
        with 3 assms lk Inr Some val show ?thesis by (intro go) (auto simp: apply_verified_def Let_def)
      qed
    qed
  qed
qed

lemma apply_monotone:
  assumes "apply_verified ops s pack att = (r, s')" "version_of s p = Some v"
  shows "\<exists>v'. version_of s' p = Some v' \<and> v \<le> v'"
  using assms(1)
  by (cases rule: apply_verified_cases) (use assms(2) in \<open>auto intro: less_imp_le\<close>)

lemma apply_published_fixed:
  assumes "apply_verified ops s pack att = (r, s')" "version_of s p = Some a" "v \<le> a"
  shows "visible s' p v = visible s p v"
  using assms(1)
proof (cases rule: apply_verified_cases)
  case (applied sp)
  then have "(p, v) \<noteq> (sp_pack_id sp, sp_pack_version sp)" using assms(2,3) by fastforce
  with applied(5) show ?thesis by auto
next
  case (flipping e sp)
  then have "(p, v) \<noteq> (sp_pack_id sp, sp_pack_version sp)" using assms(2,3) by fastforce
  with flipping(5) show ?thesis by blast
qed (use assms(2,3) in auto)

text \<open>What one call of \<open>ingest_pack\<close> does to the ledger and to the visible packs.\<close>

lemma ingest_rejected:
  assumes "ingest_pack env ops b s ref ikm att floor = (Inl e, s', b')" "\<And>f. e \<noteq> FlipFailed f"
  shows "version_of s' = version_of s \<and> visible s' = visible s"
proof -
  obtain rv :: "'err ingest_error + knowledge_pack" and b1
    where v: "verify_pack_ref env b ref ikm att floor = (rv, b1)" by fastforce
  show ?thesis
  proof (cases rv)
    case (Inl x)
    with assms(1) v show ?thesis by (auto simp: ingest_pack_def)
  next
    case (Inr pack)
    with assms(1) v have "apply_verified ops s pack att = (Inl e, s')"
      by (auto simp: ingest_pack_def split: prod.splits)
    then show ?thesis by (cases rule: apply_verified_cases) (use assms(2) in auto)
  qed
qed

lemma ingest_stepD:
  assumes "ingest_pack env ops b s ref ikm att floor = (r, s', b')"
  shows "(version_of s' = version_of s \<and> visible s' = visible s) \<or>
    (\<exists>pack. verify_pack_ref env b ref ikm att floor = (Inr pack :: 'err ingest_error + knowledge_pack, b') \<and>
       apply_verified ops s pack att = (r, s'))"
  using assms by (auto simp: ingest_pack_def split: prod.splits sum.splits)

lemma ingest_monotone:
  assumes "ingest_pack env ops b s ref ikm att floor = (r, s', b')" "version_of s p = Some v"
  shows "\<exists>v'. version_of s' p = Some v' \<and> v \<le> v'"
  using ingest_stepD [OF assms(1)] assms(2) apply_monotone by fastforce

lemma ingest_published_fixed:
  assumes "ingest_pack env ops b s ref ikm att floor = (r, s', b')" "version_of s p = Some a" "v \<le> a"
  shows "visible s' p v = visible s p v"
  using ingest_stepD [OF assms(1)] assms(2,3) apply_published_fixed by metis

lemma ingest_applied:
  assumes "ingest_pack env ops b s ref ikm att floor = (Inr out, s', b')" "\<not> io_idempotent_noop out"
  obtains pack sp where
    "verify_pack_ref env b ref ikm att floor = (Inr pack :: 'err ingest_error + knowledge_pack, b')"
    "sp = build_staged pack att" "out = applied_outcome sp"
    "\<And>a. version_of s (sp_pack_id sp) = Some a \<Longrightarrow> a < sp_pack_version sp"
    "version_of s' = (version_of s)(sp_pack_id sp \<mapsto> sp_pack_version sp)"
    "visible s' = (visible s)(sp_pack_id sp := (visible s (sp_pack_id sp))(sp_pack_version sp \<mapsto> sp))"
proof -
  obtain pack where v: "verify_pack_ref env b ref ikm att floor = (Inr pack :: 'err ingest_error + knowledge_pack, b')"
    and ap: "apply_verified ops s pack att = (Inr out, s')"
    using assms(1) by (auto simp: ingest_pack_def split: prod.splits sum.splits)
  from ap show thesis
  proof (cases rule: apply_verified_cases)
    case (applied sp)
    then show ?thesis by (intro that [OF v]) auto
  next
    case noop
    with assms(2) show ?thesis by (auto simp: noop_outcome_def)
  qed auto
qed

end

section \<open>A sequence of receives\<close>

text \<open>A learner that ingests one pack reference after another on the same store.\<close>

fun ingest_all ::
    "'x crypto_env_scheme \<Rightarrow> ('s, 'err) apply_store_ops \<Rightarrow> downgrade_counter \<Rightarrow> 's
      \<Rightarrow> (pack_ref \<times> secret \<times> channel_attestation \<times> cipher_floor) list \<Rightarrow> 's \<times> downgrade_counter" where
  "ingest_all env ops b s [] = (s, b)"
| "ingest_all env ops b s ((ref, ikm, att, floor) # rest) =
     (let (r, s', b') = ingest_pack env ops b s ref ikm att floor in ingest_all env ops b' s' rest)"

context pack_apply_store
begin

lemma ingest_all_history:
  assumes "ingest_all env ops b s reqs = (s', b')" "version_of s p = Some a"
  shows "(\<exists>a'. version_of s' p = Some a' \<and> a \<le> a') \<and> (\<forall>v\<le>a. visible s' p v = visible s p v)"
  using assms
proof (induction reqs arbitrary: b s a)
  case (Cons q reqs)
  obtain ref ikm att floor where q: "q = (ref, ikm, att, floor)" by (cases q)
  obtain r s1 b1 where one: "ingest_pack env ops b s ref ikm att floor = (r, s1, b1)"
    by (metis prod_cases3)
  from ingest_monotone [OF one Cons.prems(2)] obtain a1 where a1: "version_of s1 p = Some a1" "a \<le> a1"
    by blast
  from Cons.prems(1) one q have "ingest_all env ops b1 s1 reqs = (s', b')" by simp
  from Cons.IH [OF this a1(1)] a1(2) ingest_published_fixed [OF one Cons.prems(2)]
  show ?case by (auto intro: order_trans)
qed auto

end

end
