(* ===== verification/Dir_Store.thy ===== *)
theory Dir_Store
  imports Learner_Ingest
begin

text \<open>
  The file-backed apply store of \<open>ferrosa-memory-sync/src/peer_cli.rs\<close>
  (\<open>DirPackApplyStore\<close>) and the hexadecimal codec of its device key file. The landing
  directory is a map from paths to contents; a content is kept as the value whose
  JSON text the file holds. Every file-system call can fail: the state carries
  the list of faults still to come, and a write that fails leaves a torn file.
  The store satisfies the contract \<open>pack_apply_store\<close>.
\<close>

section \<open>The landing directory\<close>

datatype dir_path =
    VersionsPath
  | VersionsTmp
  | StagedPath uuid
  | StagedTmp uuid
  | AppliedPath uuid u64

type_synonym versions_file = "uuid \<rightharpoonup> u64"

datatype dir_content =
    VersionsJson versions_file
  | StagedJson staged_pack
  | Torn

datatype peer_cli_error =
    Io dir_path
  | NotFound dir_path
  | Serde

text \<open>\<open>ds_faults\<close> says of each coming file-system call whether the operating system
  refuses it; when the list is used up, calls succeed.\<close>

record dir_store =
  ds_files :: "dir_path \<rightharpoonup> dir_content"
  ds_faults :: "bool list"

definition next_fault :: "dir_store \<Rightarrow> bool \<times> dir_store" where
  "next_fault d = (case ds_faults d of [] \<Rightarrow> (False, d) | b # bs \<Rightarrow> (b, d\<lparr>ds_faults := bs\<rparr>))"

section \<open>File-system calls\<close>

definition fs_read :: "dir_path \<Rightarrow> dir_store \<Rightarrow> (peer_cli_error + dir_content) \<times> dir_store" where
  "fs_read p d =
     (let (fault, d') = next_fault d in
      if fault then (Err (Io p), d')
      else case ds_files d' p of None \<Rightarrow> (Err (NotFound p), d') | Some c \<Rightarrow> (Ok c, d'))"

definition fs_write :: "dir_path \<Rightarrow> dir_content \<Rightarrow> dir_store \<Rightarrow> (peer_cli_error + unit) \<times> dir_store" where
  "fs_write p c d =
     (let (fault, d') = next_fault d in
      if fault then (Err (Io p), d'\<lparr>ds_files := (ds_files d')(p \<mapsto> Torn)\<rparr>)
      else (Ok (), d'\<lparr>ds_files := (ds_files d')(p \<mapsto> c)\<rparr>))"

definition fs_rename :: "dir_path \<Rightarrow> dir_path \<Rightarrow> dir_store \<Rightarrow> (peer_cli_error + unit) \<times> dir_store" where
  "fs_rename src dst d =
     (let (fault, d') = next_fault d in
      if fault then (Err (Io dst), d')
      else case ds_files d' src of
        None \<Rightarrow> (Err (NotFound src), d')
      | Some c \<Rightarrow> (Ok (), d'\<lparr>ds_files := (ds_files d')(src := None, dst := Some c)\<rparr>))"

section \<open>The store's operations\<close>

definition read_versions :: "dir_store \<Rightarrow> (peer_cli_error + versions_file) \<times> dir_store" where
  "read_versions d =
     (case fs_read VersionsPath d of
        (Inr (VersionsJson v), d') \<Rightarrow> (Ok v, d')
      | (Inr _, d') \<Rightarrow> (Err Serde, d')
      | (Inl (NotFound _), d') \<Rightarrow> (Ok Map.empty, d')
      | (Inl e, d') \<Rightarrow> (Err e, d'))"

definition write_versions :: "versions_file \<Rightarrow> dir_store \<Rightarrow> (peer_cli_error + unit) \<times> dir_store" where
  "write_versions v d =
     (case fs_write VersionsTmp (VersionsJson v) d of
        (Inl e, d') \<Rightarrow> (Err e, d')
      | (Inr _, d') \<Rightarrow> fs_rename VersionsTmp VersionsPath d')"

definition dir_last_applied_version :: "dir_store \<Rightarrow> uuid \<Rightarrow> (peer_cli_error + u64 option) \<times> dir_store" where
  "dir_last_applied_version d pack_id =
     (let (r, d') = read_versions d in (map_ok (\<lambda>v. v pack_id) r, d'))"

definition dir_stage :: "dir_store \<Rightarrow> staged_pack \<Rightarrow> (peer_cli_error + unit) \<times> dir_store" where
  "dir_stage d staged =
     (case fs_write (StagedTmp (sp_pack_id staged)) (StagedJson staged) d of
        (Inl e, d') \<Rightarrow> (Err e, d')
      | (Inr _, d') \<Rightarrow> fs_rename (StagedTmp (sp_pack_id staged)) (StagedPath (sp_pack_id staged)) d')"

definition dir_flip :: "dir_store \<Rightarrow> staged_pack \<Rightarrow> (peer_cli_error + unit) \<times> dir_store" where
  "dir_flip d staged =
     (case fs_rename (StagedPath (sp_pack_id staged))
             (AppliedPath (sp_pack_id staged) (sp_pack_version staged)) d of
        (Inl e, d1) \<Rightarrow> (Err e, d1)
      | (Inr _, d1) \<Rightarrow>
          (case read_versions d1 of
             (Inl e, d2) \<Rightarrow> (Err e, d2)
           | (Inr v, d2) \<Rightarrow> write_versions (v(sp_pack_id staged \<mapsto> sp_pack_version staged)) d2))"

definition dir_ops :: "(dir_store, peer_cli_error) apply_store_ops" where
  "dir_ops = \<lparr>last_applied_version = dir_last_applied_version, stage = dir_stage, flip = dir_flip\<rparr>"

lemma dir_ops_simps [simp]:
  "last_applied_version dir_ops = dir_last_applied_version"
  "stage dir_ops = dir_stage" "flip dir_ops = dir_flip"
  by (simp_all add: dir_ops_def)

text \<open>The ledger of a directory and the packs it shows.\<close>

definition ledger :: "dir_store \<Rightarrow> versions_file" where
  "ledger d = (case ds_files d VersionsPath of Some (VersionsJson v) \<Rightarrow> v | _ \<Rightarrow> Map.empty)"

definition applied :: "dir_store \<Rightarrow> uuid \<Rightarrow> u64 \<Rightarrow> staged_pack option" where
  "applied d p v = (case ds_files d (AppliedPath p v) of Some (StagedJson s) \<Rightarrow> Some s | _ \<Rightarrow> None)"

section \<open>The contract holds\<close>

lemma next_fault_files: "next_fault d = (b, d') \<Longrightarrow> ds_files d' = ds_files d"
  by (auto simp: next_fault_def split: list.splits)

lemma fs_read_files: "fs_read p d = (r, d') \<Longrightarrow> ds_files d' = ds_files d"
  by (auto simp: fs_read_def next_fault_files split: prod.splits if_splits option.splits)

lemma fs_read_Ok: "fs_read p d = (Inr c, d') \<Longrightarrow> ds_files d p = Some c"
  by (auto simp: fs_read_def next_fault_files split: prod.splits if_splits option.splits dest: next_fault_files)

lemma fs_read_NotFound: "fs_read p d = (Inl (NotFound q), d') \<Longrightarrow> ds_files d p = None"
  by (auto simp: fs_read_def split: prod.splits if_splits option.splits dest: next_fault_files)

lemma fs_write_files:
  "fs_write p c d = (r, d') \<Longrightarrow> ds_files d' = (ds_files d)(p \<mapsto> (if is_ok r then c else Torn))"
  by (auto simp: fs_write_def split: prod.splits if_splits dest: next_fault_files)

lemma fs_rename_files:
  "fs_rename p q d = (r, d') \<Longrightarrow>
    (case r of Inl _ \<Rightarrow> ds_files d' = ds_files d
     | Inr _ \<Rightarrow> \<exists>c. ds_files d p = Some c \<and> ds_files d' = (ds_files d)(p := None, q := Some c))"
  by (auto simp: fs_rename_def split: prod.splits if_splits option.splits dest: next_fault_files)

lemma read_versions_files:
  "read_versions d = (r, d') \<Longrightarrow> ds_files d' = ds_files d \<and> (\<forall>v. r = Inr v \<longrightarrow> v = ledger d)"
  unfolding read_versions_def ledger_def
  by (auto split: prod.splits sum.splits dir_content.splits peer_cli_error.splits
      dest: fs_read_files fs_read_Ok fs_read_NotFound)

lemma write_versions_files:
  assumes "write_versions v d = (r, d')"
  shows "ledger d' = (if is_ok r then v else ledger d)" "applied d' = applied d"
proof -
  obtain r1 d1 where w: "fs_write VersionsTmp (VersionsJson v) d = (r1, d1)" by fastforce
  note fw = fs_write_files [OF w]
  have "ledger d' = (if is_ok r then v else ledger d) \<and> applied d' = applied d"
  proof (cases r1)
    case (Inl e)
    with assms w fw show ?thesis by (auto simp: write_versions_def ledger_def applied_def fun_eq_iff)
  next
    case (Inr u)
    with assms w have "fs_rename VersionsTmp VersionsPath d1 = (r, d')" by (simp add: write_versions_def)
    from fs_rename_files [OF this] fw Inr show ?thesis
      by (cases r) (auto simp: ledger_def applied_def fun_eq_iff)
  qed
  then show "ledger d' = (if is_ok r then v else ledger d)" "applied d' = applied d" by blast+
qed

lemma dir_stage_files:
  assumes "dir_stage d sp = (r, d')"
  shows "ledger d' = ledger d \<and> applied d' = applied d \<and>
    (is_ok r \<longrightarrow> ds_files d' (StagedPath (sp_pack_id sp)) = Some (StagedJson sp))"
proof -
  let ?t = "StagedTmp (sp_pack_id sp)"
  obtain r1 d1 where w: "fs_write ?t (StagedJson sp) d = (r1, d1)" by fastforce
  note fw = fs_write_files [OF w]
  show ?thesis
  proof (cases r1)
    case (Inl e)
    with assms w fw show ?thesis by (auto simp: dir_stage_def ledger_def applied_def fun_eq_iff)
  next
    case (Inr u)
    with assms w have "fs_rename ?t (StagedPath (sp_pack_id sp)) d1 = (r, d')" by (simp add: dir_stage_def)
    from fs_rename_files [OF this] fw Inr show ?thesis
      by (cases r) (auto simp: ledger_def applied_def fun_eq_iff)
  qed
qed

lemma dir_flip_files:
  assumes "dir_flip d sp = (r, d')"
  shows "ledger d' = (if is_ok r then (ledger d)(sp_pack_id sp \<mapsto> sp_pack_version sp) else ledger d) \<and>
    (\<forall>p v. (p, v) \<noteq> (sp_pack_id sp, sp_pack_version sp) \<longrightarrow> applied d' p v = applied d p v) \<and>
    (is_ok r \<longrightarrow> (\<forall>x. ds_files d (StagedPath (sp_pack_id sp)) = Some (StagedJson x) \<longrightarrow>
       applied d' (sp_pack_id sp) (sp_pack_version sp) = Some x))"
proof -
  let ?from = "StagedPath (sp_pack_id sp)" and ?to = "AppliedPath (sp_pack_id sp) (sp_pack_version sp)"
  obtain r1 d1 where rn: "fs_rename ?from ?to d = (r1, d1)" by fastforce
  note fr = fs_rename_files [OF rn]
  obtain r2 d2 where rd: "read_versions d1 = (r2, d2)" by fastforce
  note fv = read_versions_files [OF rd]
  show ?thesis
  proof (cases r1)
    case (Inl e)
    with assms rn fr show ?thesis by (auto simp: dir_flip_def ledger_def applied_def)
  next
    case (Inr u)
    with fr obtain c where c: "ds_files d ?from = Some c"
      "ds_files d1 = (ds_files d)(?from := None, ?to := Some c)" by auto
    have led: "ledger d1 = ledger d" "ledger d2 = ledger d" and ap: "applied d2 = applied d1"
      using c(2) fv by (auto simp: ledger_def applied_def fun_eq_iff)
    show ?thesis
    proof (cases r2)
      case e: (Inl e)
      with assms rn rd Inr c led ap show ?thesis by (auto simp: dir_flip_def applied_def)
    next
      case v: (Inr v)
      with assms rn rd Inr have "write_versions (v(sp_pack_id sp \<mapsto> sp_pack_version sp)) d2 = (r, d')"
        by (simp add: dir_flip_def)
      from write_versions_files [OF this] v fv led ap c show ?thesis
        by (auto simp: applied_def)
    qed
  qed
qed

interpretation dir: pack_apply_store dir_ops ledger applied
proof unfold_locales
  fix d p r d'
  assume "last_applied_version dir_ops d p = (r, d')"
  then show "ledger d' = ledger d \<and> applied d' = applied d"
    by (auto simp: dir_last_applied_version_def ledger_def applied_def fun_eq_iff
        split: prod.splits dest!: read_versions_files)
next
  fix d p v d'
  assume "last_applied_version dir_ops d p = (Inr v, d')"
  then show "v = ledger d p"
    by (auto simp: dir_last_applied_version_def split: prod.splits dest!: read_versions_files)
next
  fix d sp r d'
  assume "stage dir_ops d sp = (r, d')"
  then show "ledger d' = ledger d \<and> applied d' = applied d"
    using dir_stage_files by auto
next
  fix d sp u d1 w d2
  assume st: "stage dir_ops d sp = (Inr u, d1)" and fl: "flip dir_ops d1 sp = (Inr w, d2)"
  from st fl dir_stage_files [of d sp "Inr u" d1] dir_flip_files [of d1 sp "Inr w" d2]
  show "ledger d2 = (ledger d)(sp_pack_id sp \<mapsto> sp_pack_version sp) \<and>
    applied d2 = (applied d)(sp_pack_id sp := (applied d (sp_pack_id sp))(sp_pack_version sp \<mapsto> sp))"
    by (auto simp: fun_eq_iff)
next
  fix d sp e d'
  assume "flip dir_ops d sp = (Inl e, d')"
  then show "ledger d' = ledger d \<and>
    (\<forall>p v. (p, v) \<noteq> (sp_pack_id sp, sp_pack_version sp) \<longrightarrow> applied d' p v = applied d p v)"
    using dir_flip_files by auto
qed

section \<open>A healthy directory\<close>

text \<open>No fault to come and a ledger that is absent or readable.\<close>

definition healthy :: "dir_store \<Rightarrow> bool" where
  "healthy d \<longleftrightarrow> ds_faults d = [] \<and>
     (case ds_files d VersionsPath of None \<Rightarrow> True | Some (VersionsJson v) \<Rightarrow> True | _ \<Rightarrow> False)"

lemma next_fault_none: "ds_faults d = [] \<Longrightarrow> next_fault d = (False, d)"
  by (simp add: next_fault_def)

lemma read_versions_healthy: "healthy d \<Longrightarrow> read_versions d = (Ok (ledger d), d)"
  by (auto simp: healthy_def read_versions_def fs_read_def next_fault_none ledger_def
      split: option.splits dir_content.splits)

lemma ledger_readable: "ledger d p = Some v \<Longrightarrow> ds_faults d = [] \<Longrightarrow> read_versions d = (Ok (ledger d), d)"
  by (rule read_versions_healthy) (auto simp: healthy_def ledger_def split: option.splits dir_content.splits)

lemma dir_stage_healthy:
  assumes "healthy d"
  shows "\<exists>d'. dir_stage d sp = (Ok (), d') \<and> healthy d' \<and>
    ds_files d' (StagedPath (sp_pack_id sp)) = Some (StagedJson sp)"
  using assms by (auto simp: healthy_def dir_stage_def fs_write_def fs_rename_def next_fault_none)

lemma write_versions_healthy:
  "healthy d \<Longrightarrow> \<exists>d'. write_versions v d = (Ok (), d') \<and> healthy d'"
  by (auto simp: healthy_def write_versions_def fs_write_def fs_rename_def next_fault_none)

lemma dir_flip_healthy:
  assumes "healthy d" "ds_files d (StagedPath (sp_pack_id sp)) = Some c"
  shows "\<exists>d'. dir_flip d sp = (Ok (), d') \<and> healthy d'"
proof -
  let ?d1 = "d\<lparr>ds_files := (ds_files d)(StagedPath (sp_pack_id sp) := None,
    AppliedPath (sp_pack_id sp) (sp_pack_version sp) := Some c)\<rparr>"
  have rn: "fs_rename (StagedPath (sp_pack_id sp)) (AppliedPath (sp_pack_id sp) (sp_pack_version sp)) d = (Ok (), ?d1)"
    using assms by (simp add: healthy_def fs_rename_def next_fault_none)
  have h: "healthy ?d1" using assms(1) by (simp add: healthy_def)
  show ?thesis
    using write_versions_healthy [OF h] by (simp add: dir_flip_def rn read_versions_healthy [OF h])
qed

lemma dir_apply_healthy:
  assumes "healthy d" and newer: "\<And>a. ledger d (pm_pack_id (kp_manifest pack)) = Some a \<Longrightarrow> a < pm_pack_version (kp_manifest pack)"
  shows "\<exists>d'. apply_verified dir_ops d pack att = (Ok (applied_outcome (build_staged pack att)), d') \<and> healthy d'"
proof -
  let ?sp = "build_staged pack att"
  from dir_stage_healthy [OF assms(1), of ?sp] obtain d1 where st: "dir_stage d ?sp = (Ok (), d1)" "healthy d1"
    "ds_files d1 (StagedPath (sp_pack_id ?sp)) = Some (StagedJson ?sp)" by blast
  from dir_flip_healthy [OF st(2,3)] obtain d2 where fl: "dir_flip d1 ?sp = (Ok (), d2)" "healthy d2" by blast
  have "stage_and_flip dir_ops d ?sp = (Ok (applied_outcome ?sp), d2)"
    using st fl by (simp add: stage_and_flip_def)
  moreover have "a \<noteq> pm_pack_version (kp_manifest pack)" "\<not> pm_pack_version (kp_manifest pack) < a"
    if "ledger d (pm_pack_id (kp_manifest pack)) = Some a" for a
    using newer [OF that] by auto
  ultimately show ?thesis
    using fl(2) by (auto simp: apply_verified_def Let_def dir_last_applied_version_def
        read_versions_healthy [OF assms(1)] split: option.splits)
qed

end
