(* ===== verification/Peer_Frame.thy ===== *)
theory Peer_Frame
  imports Prelude
begin

text \<open>
  Wire framing of \<open>ferrosa-memory-sync/src/peer_transport.rs\<close>: the 17-byte header, the
  bounded encoder and the decoder of untrusted bytes. A \<open>usize\<close> is a natural
  number; the theorems that compare one with a \<open>u64\<close> carry its bound.
\<close>

definition FRAME_MAGIC :: bytes where "FRAME_MAGIC = [70, 77, 80, 49]"
definition FRAME_VERSION :: u8 where "FRAME_VERSION = 1"
definition FRAME_HEADER_LEN :: nat where "FRAME_HEADER_LEN = 4 + 1 + 4 + 4 + 4"

record chunk_frame =
  cf_index :: u32
  cf_total :: u32
  cf_payload :: bytes

datatype frame_error =
    TooShort
  | BadMagic
  | BadVersion u8 u8
  | PayloadTooLarge u64 nat
  | LengthMismatch u64 nat
  | FrameIndexOutOfRange u32 u32

definition encode_frame :: "u32 \<Rightarrow> u32 \<Rightarrow> bytes \<Rightarrow> nat \<Rightarrow> frame_error + bytes" where
  "encode_frame index tot payload max_payload =
     (if max_payload < length payload then Err (PayloadTooLarge (as_u64 (length payload)) max_payload)
      else if tot \<le> index then Err (FrameIndexOutOfRange index tot)
      else Ok (FRAME_MAGIC @ [FRAME_VERSION] @ u32_to_be_bytes index @ u32_to_be_bytes tot
               @ u32_to_be_bytes (as_u32 (length payload)) @ payload))"

definition read_u32 :: "bytes \<Rightarrow> nat \<Rightarrow> u32 option" where
  "read_u32 bs offset = map_option u32_from_be_bytes (get_range offset (offset + 4) bs)"

definition decode_version :: "bytes \<Rightarrow> frame_error + unit" where
  "decode_version bs =
     (if 4 < length bs then ensure (bs ! 4 = FRAME_VERSION) (BadVersion (bs ! 4) FRAME_VERSION)
      else Err TooShort)"

definition decode_frame :: "bytes \<Rightarrow> nat \<Rightarrow> frame_error + chunk_frame" where
  "decode_frame bs max_payload =
     and_then (ensure (FRAME_HEADER_LEN \<le> length bs) TooShort) (\<lambda>_.
     and_then (ensure (get_range 0 4 bs = Some FRAME_MAGIC) BadMagic) (\<lambda>_.
     and_then (decode_version bs) (\<lambda>_.
     and_then (ok_or (read_u32 bs 5) TooShort) (\<lambda>index.
     and_then (ok_or (read_u32 bs 9) TooShort) (\<lambda>tot.
     and_then (ok_or (read_u32 bs 13) TooShort) (\<lambda>len.
     let declared = (ucast len :: u64) in
     and_then (ensure (declared \<le> as_u64 max_payload) (PayloadTooLarge declared max_payload)) (\<lambda>_.
     and_then (ensure (index < tot) (FrameIndexOutOfRange index tot)) (\<lambda>_.
     let body = drop FRAME_HEADER_LEN bs in
     and_then (ensure (as_u64 (length body) = declared) (LengthMismatch declared (length body))) (\<lambda>_.
     Ok \<lparr>cf_index = index, cf_total = tot, cf_payload = body\<rparr>)))))))))"

section \<open>Encoding and decoding are inverse\<close>

lemma bytes4_cases:
  assumes "length bs = 4"
  obtains a b c d where "bs = [a, b, c, d]"
  using assms by (auto simp: numeral_eq_Suc length_Suc_conv)

lemma bit_u8_high: "8 \<le> n \<Longrightarrow> \<not> bit (b :: u8) n"
  using bit_imp_le_length [of b n] by auto

lemma u32_be_inverse: "length bs = 4 \<Longrightarrow> u32_to_be_bytes (u32_from_be_bytes bs) = bs"
proof (erule bytes4_cases)
  fix a b c d :: u8
  assume "bs = [a, b, c, d]"
  then show ?thesis
    by (auto simp: u32_from_be_bytes_def u32_to_be_bytes_def bit_simps bit_u8_high intro!: bit_word_eqI)
qed

text \<open>A byte list of at least 17 bytes split along the header.\<close>

lemma header_split:
  assumes "17 \<le> length bs"
  obtains m v i t l body where "bs = m @ [v] @ i @ t @ l @ body"
    "length m = 4" "length i = 4" "length t = 4" "length l = 4"
proof -
  define r1 where "r1 = drop 5 bs"
  define r2 where "r2 = drop 4 r1"
  define r3 where "r3 = drop 4 r2"
  have "bs = take 4 bs @ bs ! 4 # r1"
    using assms id_take_nth_drop [of 4 bs] by (simp add: r1_def)
  moreover have "r1 = take 4 r1 @ r2" "r2 = take 4 r2 @ r3" "r3 = take 4 r3 @ drop 4 r3"
    by (simp_all add: r2_def r3_def del: drop_drop)
  ultimately have "bs = take 4 bs @ [bs ! 4] @ take 4 r1 @ take 4 r2 @ take 4 r3 @ drop 4 r3"
    by (metis append_Cons append_Nil)
  then show thesis
    by (rule that) (use assms in \<open>auto simp: r1_def r2_def r3_def\<close>)
qed

lemma read_header:
  assumes "length m = 4" "length i = 4" "length t = 4" "length l = 4"
  shows "get_range 0 4 (m @ [v] @ i @ t @ l @ body) = Some m"
    "(m @ [v] @ i @ t @ l @ body) ! 4 = v"
    "read_u32 (m @ [v] @ i @ t @ l @ body) 5 = Some (u32_from_be_bytes i)"
    "read_u32 (m @ [v] @ i @ t @ l @ body) 9 = Some (u32_from_be_bytes t)"
    "read_u32 (m @ [v] @ i @ t @ l @ body) 13 = Some (u32_from_be_bytes l)"
    "drop 17 (m @ [v] @ i @ t @ l @ body) = body"
  using assms by (auto simp: get_range_def read_u32_def nth_append)

lemma decode_header:
  assumes "length m = 4" "length i = 4" "length t = 4" "length l = 4"
  shows "decode_frame (m @ [v] @ i @ t @ l @ body) max_payload =
     (let index = u32_from_be_bytes i; tot = u32_from_be_bytes t; declared = ucast (u32_from_be_bytes l) in
      if m \<noteq> FRAME_MAGIC then Err BadMagic
      else if v \<noteq> FRAME_VERSION then Err (BadVersion v FRAME_VERSION)
      else if as_u64 max_payload < declared then Err (PayloadTooLarge declared max_payload)
      else if tot \<le> index then Err (FrameIndexOutOfRange index tot)
      else if as_u64 (length body) \<noteq> declared then Err (LengthMismatch declared (length body))
      else Ok \<lparr>cf_index = index, cf_total = tot, cf_payload = body\<rparr>)"
proof -
  let ?bs = "m @ [v] @ i @ t @ l @ body"
  have len: "17 \<le> length ?bs" "4 < length ?bs" using assms by simp_all
  show ?thesis
    using read_header [OF assms, of v body] len
    unfolding decode_frame_def decode_version_def FRAME_HEADER_LEN_def Let_def
    by (auto simp: ensure_def not_le not_less)
qed

lemma as_u64_le_iff: "m < 2 ^ 64 \<Longrightarrow> n < 2 ^ 64 \<Longrightarrow> as_u64 m \<le> as_u64 n \<longleftrightarrow> m \<le> n"
  by (simp add: word_le_nat_alt unat_of_nat)
lemma unat_ucast_u32 [simp]: "unat (ucast (w :: u32) :: u64) = unat w"
  using unsigned_less [where w = w, where 'a = nat] by (simp add: unsigned_ucast_eq take_bit_nat_eq_self_iff)
lemma ucast_as_u32: "n < 2 ^ 32 \<Longrightarrow> (ucast (as_u32 n) :: u64) = as_u64 n"
  by (simp add: word_unat_eq_iff unat_of_nat)
lemma as_u64_eq_ucastD: "n < 2 ^ 64 \<Longrightarrow> as_u64 n = ucast (w :: u32) \<Longrightarrow> n < 2 ^ 32 \<and> as_u32 n = w"
proof -
  assume n: "n < 2 ^ 64" and eq: "as_u64 n = ucast w"
  from arg_cong [OF eq, of unat] n have "n = unat w" by (simp add: unat_of_nat)
  then show ?thesis using unsigned_less [where w = w, where 'a = nat] by simp
qed

lemma magic_length: "length FRAME_MAGIC = 4"
  by (simp add: FRAME_MAGIC_def)

text \<open>The receiver's own bound may differ from the sender's.\<close>

lemma decode_encode:
  assumes "encode_frame index tot payload mx = Ok bs" "length payload < 2 ^ 32"
    "length payload \<le> mx'" "mx' < 2 ^ 64"
  shows "decode_frame bs mx' = Ok \<lparr>cf_index = index, cf_total = tot, cf_payload = payload\<rparr>"
proof -
  from assms(1) have lt: "index < tot"
    and bs: "bs = FRAME_MAGIC @ [FRAME_VERSION] @ u32_to_be_bytes index @ u32_to_be_bytes tot
               @ u32_to_be_bytes (as_u32 (length payload)) @ payload"
    by (auto simp: encode_frame_def split: if_splits)
  have "as_u64 (length payload) \<le> as_u64 mx'"
    using as_u64_le_iff [of "length payload" mx'] assms(2-4) by simp
  then show ?thesis
    unfolding bs using lt assms(2)
    by (subst decode_header) (auto simp: magic_length Let_def ucast_as_u32 not_less not_le)
qed

lemma encode_decode:
  assumes "decode_frame bs mx = Ok f" "length bs < 2 ^ 64" "mx < 2 ^ 64"
  shows "encode_frame (cf_index f) (cf_total f) (cf_payload f) mx = Ok bs"
proof -
  from assms(1) have "17 \<le> length bs"
    by (simp add: decode_frame_def FRAME_HEADER_LEN_def)
  then obtain m v i t l body where bs: "bs = m @ [v] @ i @ t @ l @ body"
    and len: "length m = 4" "length i = 4" "length t = 4" "length l = 4"
    by (rule header_split)
  from bs assms(2) have body: "length body < 2 ^ 64" by simp
  from assms(1) have m: "m = FRAME_MAGIC" and v: "v = FRAME_VERSION"
    and size: "\<not> as_u64 mx < ucast (u32_from_be_bytes l)"
    and idx: "u32_from_be_bytes i < u32_from_be_bytes t"
    and eq: "as_u64 (length body) = ucast (u32_from_be_bytes l)"
    and f: "f = \<lparr>cf_index = u32_from_be_bytes i, cf_total = u32_from_be_bytes t, cf_payload = body\<rparr>"
    unfolding bs decode_header [OF len] by (auto simp: Let_def split: if_splits)
  from as_u64_eq_ucastD [OF body eq] have l: "as_u32 (length body) = u32_from_be_bytes l" by simp
  from size eq as_u64_le_iff [OF body assms(3)] have "length body \<le> mx" by (simp add: not_less)
  with idx m v f l len show ?thesis
    by (auto simp: encode_frame_def bs u32_be_inverse)
qed

section \<open>Properties\<close>

text \<open>C20. A frame the encoder made decodes to the chunk it was made of, under any receiver's bound that admits
  the payload.\<close>

theorem frame_roundtrip:
  assumes "encode_frame index tot payload mx = Ok bs" "length payload < 2 ^ 32"
    "length payload \<le> mx'" "mx' < 2 ^ 64"
  shows "decode_frame bs mx' = Ok \<lparr>cf_index = index, cf_total = tot, cf_payload = payload\<rparr>"
  using assms by (rule decode_encode)

theorem frame_roundtrip_witness:
  "decode_frame [70, 77, 80, 49, 1, 0, 0, 0, 1, 0, 0, 1, 0, 0, 0, 0, 2, 9, 8] 5 =
     Ok \<lparr>cf_index = 1, cf_total = 256, cf_payload = [9, 8]\<rparr>"
  by (rule frame_roundtrip [where mx = 3])
    (simp_all add: encode_frame_def FRAME_MAGIC_def FRAME_VERSION_def u32_to_be_bytes_def word_le_nat_alt)

text \<open>C21. The decoder accepts exactly the encoder's output: any byte string it accepts is the encoding of
  the frame it returns, within the bound, so no two messages decode to the same frame.\<close>

theorem frame_canonical:
  assumes "decode_frame bs mx = Ok f" "length bs < 2 ^ 64" "mx < 2 ^ 64"
  shows "encode_frame (cf_index f) (cf_total f) (cf_payload f) mx = Ok bs"
  using assms by (rule encode_decode)

theorem frame_canonical_witness:
  "encode_frame 1 256 [9, 8] 5 = Ok [70, 77, 80, 49, 1, 0, 0, 0, 1, 0, 0, 1, 0, 0, 0, 0, 2, 9, 8]"
proof -
  have "decode_frame [70, 77, 80, 49, 1, 0, 0, 0, 1, 0, 0, 1, 0, 0, 0, 0, 2, 9, 8] 5 =
     Ok \<lparr>cf_index = 1, cf_total = 256, cf_payload = [9, 8]\<rparr>"
    by (rule decode_encode [where mx = 3])
      (simp_all add: encode_frame_def FRAME_MAGIC_def FRAME_VERSION_def u32_to_be_bytes_def word_le_nat_alt)
  from frame_canonical [OF this] show ?thesis by simp
qed

end
