(* ===== verification/Chunk_Assembler.thy ===== *)
theory Chunk_Assembler
  imports Peer_Frame "HOL-Library.Multiset"
begin

text \<open>
  \<open>ChunkAssembler\<close> of \<open>ferrosa-memory-sync/src/peer_transport.rs\<close>: bounded reassembly of
  frames sent by an untrusted peer. The \<open>BTreeMap\<close> of received chunks is an
  association list in ascending key order. Shown here: the memory bound holds
  after any sequence of frames, and the frames of a chunk list reassemble to it in
  whatever order they arrive.
\<close>

section \<open>Ordered maps\<close>

fun btree_insert :: "'k :: linorder \<Rightarrow> 'v \<Rightarrow> ('k \<times> 'v) list \<Rightarrow> ('k \<times> 'v) list" where
  "btree_insert k v [] = [(k, v)]"
| "btree_insert k v ((k', v') # rest) =
     (if k < k' then (k, v) # (k', v') # rest
      else if k = k' then (k, v) # rest
      else (k', v') # btree_insert k v rest)"

definition contains_key :: "('k \<times> 'v) list \<Rightarrow> 'k \<Rightarrow> bool" where
  "contains_key m k \<longleftrightarrow> k \<in> fst ` set m"

section \<open>The assembler\<close>

record assembler_limits =
  al_max_chunks :: u32
  al_max_total_bytes :: nat
  al_max_frame_payload :: nat

datatype assemble_error =
    TotalTooLarge u32 u32
  | InconsistentTotal u32 u32
  | IndexOutOfRange u32 u32
  | DuplicateChunk u32
  | FramePayloadTooLarge nat nat
  | TotalBytesExceeded nat nat
  | Incomplete nat u32

record chunk_assembler =
  ca_total :: "u32 option"
  ca_received :: "(u32 \<times> bytes) list"
  ca_bytes :: nat
  ca_limits :: assembler_limits

definition usize_max :: nat where "usize_max = 2 ^ 64 - 1"

definition saturating_add :: "nat \<Rightarrow> nat \<Rightarrow> nat" where
  "saturating_add a b = min (a + b) usize_max"

definition new_assembler :: "assembler_limits \<Rightarrow> chunk_assembler" where
  "new_assembler limits =
     \<lparr>ca_total = None, ca_received = [], ca_bytes = 0, ca_limits = limits\<rparr>"

text \<open>The first frame fixes the total before the remaining checks run, so the
  state returned with an error can differ from the one before.\<close>

definition accept :: "chunk_assembler \<Rightarrow> chunk_frame \<Rightarrow> (assemble_error + unit) \<times> chunk_assembler" where
  "accept self frame =
     (if al_max_chunks (ca_limits self) < cf_total frame
      then (Err (TotalTooLarge (cf_total frame) (al_max_chunks (ca_limits self))), self)
      else if ca_total self \<noteq> None \<and> the (ca_total self) \<noteq> cf_total frame
      then (Err (InconsistentTotal (the (ca_total self)) (cf_total frame)), self)
      else
        let self = self\<lparr>ca_total := Some (cf_total frame)\<rparr> in
        if cf_total frame \<le> cf_index frame
        then (Err (IndexOutOfRange (cf_index frame) (cf_total frame)), self)
        else if al_max_frame_payload (ca_limits self) < length (cf_payload frame)
        then (Err (FramePayloadTooLarge (length (cf_payload frame)) (al_max_frame_payload (ca_limits self))), self)
        else if contains_key (ca_received self) (cf_index frame)
        then (Err (DuplicateChunk (cf_index frame)), self)
        else
          let would_be = saturating_add (ca_bytes self) (length (cf_payload frame)) in
          if al_max_total_bytes (ca_limits self) < would_be
          then (Err (TotalBytesExceeded would_be (al_max_total_bytes (ca_limits self))), self)
          else (Ok (), self\<lparr>ca_bytes := would_be,
                            ca_received := btree_insert (cf_index frame) (cf_payload frame) (ca_received self)\<rparr>))"

definition is_complete :: "chunk_assembler \<Rightarrow> bool" where
  "is_complete self \<longleftrightarrow>
     (case ca_total self of Some t \<Rightarrow> length (ca_received self) = unat t | None \<Rightarrow> False)"

definition received_count :: "chunk_assembler \<Rightarrow> nat" where
  "received_count self = length (ca_received self)"

definition into_assembled :: "chunk_assembler \<Rightarrow> assemble_error + bytes" where
  "into_assembled self =
     (if \<not> is_complete self
      then Err (Incomplete (length (ca_received self)) (case ca_total self of None \<Rightarrow> 0 | Some t \<Rightarrow> t))
      else Ok (concat (map snd (ca_received self))))"

text \<open>A run of frames, whatever each answers.\<close>

fun accept_all :: "chunk_assembler \<Rightarrow> chunk_frame list \<Rightarrow> (assemble_error + unit) list \<times> chunk_assembler" where
  "accept_all self [] = ([], self)"
| "accept_all self (f # fs) =
     (let (r, self') = accept self f; (rs, self'') = accept_all self' fs in (r # rs, self''))"

section \<open>Facts on ordered maps\<close>

lemma btree_insert_keys: "fst ` set (btree_insert k v m) = insert k (fst ` set m)"
  by (induction k v m rule: btree_insert.induct) auto

lemma btree_insert_sorted:
  "sorted_wrt (<) (map fst m) \<Longrightarrow> sorted_wrt (<) (map fst (btree_insert k v m))"
proof (induction k v m rule: btree_insert.induct)
  case (2 k v k' v' rest)
  consider "k < k'" | "k = k'" | "k' < k" by fastforce
  then show ?case
    by cases (use 2 in \<open>auto simp: btree_insert_keys intro: order.strict_trans\<close>)
qed auto

lemma btree_insert_fresh:
  "k \<notin> fst ` set m \<Longrightarrow> set (btree_insert k v m) = insert (k, v) (set m) \<and>
     length (btree_insert k v m) = Suc (length m) \<and>
     sum_list (map (length \<circ> snd) (btree_insert k v m)) = length v + sum_list (map (length \<circ> snd) m)"
  by (induction k v m rule: btree_insert.induct) auto

section \<open>The memory bound\<close>

definition asm_inv :: "chunk_assembler \<Rightarrow> bool" where
  "asm_inv self \<longleftrightarrow>
     sorted_wrt (<) (map fst (ca_received self)) \<and>
     ca_bytes self = sum_list (map (length \<circ> snd) (ca_received self)) \<and>
     ca_bytes self \<le> al_max_total_bytes (ca_limits self) \<and>
     (\<forall>(i, p) \<in> set (ca_received self). length p \<le> al_max_frame_payload (ca_limits self)) \<and>
     (case ca_total self of
        None \<Rightarrow> ca_received self = []
      | Some t \<Rightarrow> t \<le> al_max_chunks (ca_limits self) \<and> (\<forall>i \<in> fst ` set (ca_received self). i < t))"

lemma asm_inv_new [simp]: "asm_inv (new_assembler limits)"
  by (simp add: asm_inv_def new_assembler_def)

lemma accept_limits: "ca_limits (snd (accept self f)) = ca_limits self"
  by (simp add: accept_def Let_def)

text \<open>An accepted frame: which checks it passed and what it changed.\<close>

lemma accept_OkE:
  assumes "accept self f = (Inr u, self')"
  obtains "cf_total f \<le> al_max_chunks (ca_limits self)" "ca_total self \<in> {None, Some (cf_total f)}"
    "cf_index f < cf_total f" "length (cf_payload f) \<le> al_max_frame_payload (ca_limits self)"
    "cf_index f \<notin> fst ` set (ca_received self)"
    "saturating_add (ca_bytes self) (length (cf_payload f)) \<le> al_max_total_bytes (ca_limits self)"
    "self' = self\<lparr>ca_total := Some (cf_total f),
       ca_bytes := saturating_add (ca_bytes self) (length (cf_payload f)),
       ca_received := btree_insert (cf_index f) (cf_payload f) (ca_received self)\<rparr>"
  using assms by (cases "ca_total self") (auto simp: accept_def Let_def contains_key_def not_le not_less split: if_splits)

lemma accept_ErrD:
  assumes "accept self f = (Inl e, self')"
  shows "self' = self \<or> (ca_total self = None \<and> cf_total f \<le> al_max_chunks (ca_limits self) \<and>
    self' = self\<lparr>ca_total := Some (cf_total f)\<rparr>)"
  using assms by (cases "ca_total self") (auto simp: accept_def Let_def split: if_splits)

lemma saturating_exact: "saturating_add a b \<le> m \<Longrightarrow> m < usize_max \<Longrightarrow> saturating_add a b = a + b"
  by (simp add: saturating_add_def min_def split: if_splits)

lemma accept_inv:
  assumes "asm_inv self" "al_max_total_bytes (ca_limits self) < usize_max"
  shows "asm_inv (snd (accept self f))"
proof -
  obtain r self' where step: "accept self f = (r, self')" by fastforce
  show ?thesis
  proof (cases r)
    case (Inl e)
    with step accept_ErrD [of self f e self'] assms(1) show ?thesis
      by (auto simp: asm_inv_def)
  next
    case (Inr u)
    with step have "accept self f = (Inr u, self')" by simp
    then show ?thesis
    proof (rule accept_OkE)
      assume fresh: "cf_index f \<notin> fst ` set (ca_received self)"
        and tot: "cf_total f \<le> al_max_chunks (ca_limits self)" "ca_total self \<in> {None, Some (cf_total f)}"
        and idx: "cf_index f < cf_total f" and len: "length (cf_payload f) \<le> al_max_frame_payload (ca_limits self)"
        and bytes: "saturating_add (ca_bytes self) (length (cf_payload f)) \<le> al_max_total_bytes (ca_limits self)"
        and self': "self' = self\<lparr>ca_total := Some (cf_total f),
          ca_bytes := saturating_add (ca_bytes self) (length (cf_payload f)),
          ca_received := btree_insert (cf_index f) (cf_payload f) (ca_received self)\<rparr>"
      note ins = btree_insert_fresh [OF fresh, of "cf_payload f"]
      from assms(1) tot(2) have "\<forall>i \<in> fst ` set (ca_received self). i < cf_total f"
        by (fastforce simp: asm_inv_def)
      with assms(1) ins tot idx len bytes saturating_exact [OF bytes assms(2)]
      show "asm_inv (snd (accept self f))"
        unfolding step snd_conv self'
        by (simp add: asm_inv_def btree_insert_sorted)
    qed
  qed
qed

lemma accept_all_inv:
  assumes "asm_inv self" "al_max_total_bytes (ca_limits self) < usize_max"
  shows "asm_inv (snd (accept_all self fs)) \<and> ca_limits (snd (accept_all self fs)) = ca_limits self"
  using assms
proof (induction fs arbitrary: self)
  case (Cons f fs)
  from Cons.IH [of "snd (accept self f)"] Cons.prems accept_inv accept_limits show ?case
    by (simp add: split_beta Let_def)
qed simp

text \<open>The bound itself: at most the allowed number of chunks, at most the allowed
  number of bytes.\<close>

lemma asm_inv_count:
  assumes "asm_inv self"
  shows "received_count self \<le> unat (al_max_chunks (ca_limits self))"
proof (cases "ca_total self")
  case None
  with assms show ?thesis by (simp add: asm_inv_def received_count_def)
next
  case (Some t)
  let ?ns = "map unat (map fst (ca_received self))"
  from assms have "distinct (map fst (ca_received self))" by (simp add: asm_inv_def strict_sorted_iff)
  then have "distinct ?ns"
    by (subst distinct_map) (simp add: inj_on_def flip: word_unat_eq_iff)
  moreover have "set ?ns \<subseteq> {..<unat t}"
    using assms Some by (fastforce simp: asm_inv_def word_less_nat_alt)
  ultimately have "length ?ns \<le> unat t"
    by (metis card_lessThan card_mono distinct_card finite_lessThan)
  moreover have "unat t \<le> unat (al_max_chunks (ca_limits self))"
    using assms Some by (simp add: asm_inv_def word_le_nat_alt)
  ultimately show ?thesis by (simp add: received_count_def)
qed

section \<open>Reassembly in any order\<close>

text \<open>The frames a sender makes of a list of chunks.\<close>

definition frames_of :: "bytes list \<Rightarrow> chunk_frame list" where
  "frames_of chunks =
     map (\<lambda>i. \<lparr>cf_index = as_u32 i, cf_total = as_u32 (length chunks), cf_payload = chunks ! i\<rparr>)
       [0..<length chunks]"

text \<open>A list of frames that an assembler with these limits takes one after the other.\<close>

definition good_frames :: "assembler_limits \<Rightarrow> u32 \<Rightarrow> chunk_frame list \<Rightarrow> bool" where
  "good_frames lim t fs \<longleftrightarrow>
     t \<le> al_max_chunks lim \<and> distinct (map cf_index fs) \<and>
     (\<forall>f \<in> set fs. cf_total f = t \<and> cf_index f < t \<and> length (cf_payload f) \<le> al_max_frame_payload lim) \<and>
     sum_list (map (length \<circ> cf_payload) fs) \<le> al_max_total_bytes lim \<and> al_max_total_bytes lim < usize_max"

definition holds_frames :: "chunk_assembler \<Rightarrow> assembler_limits \<Rightarrow> u32 \<Rightarrow> chunk_frame list \<Rightarrow> bool" where
  "holds_frames self lim t fs \<longleftrightarrow>
     ca_limits self = lim \<and> ca_total self = (if fs = [] then None else Some t) \<and>
     sorted_wrt (<) (map fst (ca_received self)) \<and>
     set (ca_received self) = (\<lambda>f. (cf_index f, cf_payload f)) ` set fs \<and>
     length (ca_received self) = length fs \<and>
     ca_bytes self = sum_list (map (length \<circ> cf_payload) fs)"

lemma holds_frames_new: "holds_frames (new_assembler lim) lim t []"
  by (simp add: holds_frames_def new_assembler_def)

lemma accept_next:
  assumes "holds_frames self lim t fs" "good_frames lim t (fs @ [f])"
  shows "\<exists>self'. accept self f = (Inr (), self') \<and> holds_frames self' lim t (fs @ [f])"
proof -
  have "cf_index f \<notin> fst ` set (ca_received self)"
    using assms by (auto simp: holds_frames_def good_frames_def)
  moreover have "saturating_add (ca_bytes self) (length (cf_payload f)) = ca_bytes self + length (cf_payload f)"
    "ca_bytes self + length (cf_payload f) \<le> al_max_total_bytes lim"
    using assms by (auto simp: holds_frames_def good_frames_def saturating_add_def)
  moreover have "cf_total f = t" "t \<le> al_max_chunks lim" "cf_index f < t"
    "length (cf_payload f) \<le> al_max_frame_payload lim"
    using assms(2) by (auto simp: good_frames_def)
  ultimately show ?thesis
    using assms(1) btree_insert_fresh [of "cf_index f" "ca_received self" "cf_payload f"]
    by (auto simp: accept_def Let_def contains_key_def holds_frames_def btree_insert_sorted)
qed

lemma good_frames_prefix: "good_frames lim t (fs @ gs) \<Longrightarrow> good_frames lim t fs"
  by (auto simp: good_frames_def)

lemma holds_incomplete:
  "holds_frames self lim t fs \<Longrightarrow> length fs < unat t \<Longrightarrow> \<not> is_complete self"
  by (auto simp: holds_frames_def is_complete_def split: if_splits)

lemma strict_sorted_keys_unique:
  assumes "sorted_wrt (<) (map fst (xs :: ('k :: linorder \<times> 'v) list))" "sorted_wrt (<) (map fst ys)"
    "set xs = set ys"
  shows "xs = ys"
proof (rule map_sorted_distinct_set_unique [where f = fst])
  from assms(1) have "distinct (map fst xs)" by (simp add: strict_sorted_iff)
  with assms(3) show "inj_on fst (set xs \<union> set ys)" by (simp add: distinct_map)
qed (use assms in \<open>simp_all add: strict_sorted_iff\<close>)

lemma frames_of_keys:
  assumes "length cs < 2 ^ 32"
  shows "sorted_wrt (<) (map fst (map (\<lambda>i. (as_u32 i, cs ! i)) [0..<length cs]))"
    "distinct (map cf_index (frames_of cs))"
    "(\<lambda>f. (cf_index f, cf_payload f)) ` set (frames_of cs) = set (map (\<lambda>i. (as_u32 i, cs ! i)) [0..<length cs])"
    "length (frames_of cs) = length cs" "map cf_payload (frames_of cs) = cs"
proof -
  have less: "as_u32 i < as_u32 j" if "i < j" "j < length cs" for i j
    using that assms by (simp add: word_less_nat_alt unat_of_nat)
  have "sorted_wrt (\<lambda>i j. as_u32 i < as_u32 j) [0..<length cs]"
    using less by (auto simp: sorted_wrt_iff_nth_less)
  then show s: "sorted_wrt (<) (map fst (map (\<lambda>i. (as_u32 i, cs ! i)) [0..<length cs]))"
    by (simp add: sorted_wrt_map)
  have "map cf_index (frames_of cs) = map fst (map (\<lambda>i. (as_u32 i, cs ! i)) [0..<length cs])"
    by (simp add: frames_of_def)
  with s show "distinct (map cf_index (frames_of cs))" by (simp add: strict_sorted_iff)
  show "(\<lambda>f. (cf_index f, cf_payload f)) ` set (frames_of cs) = set (map (\<lambda>i. (as_u32 i, cs ! i)) [0..<length cs])"
    by (simp add: frames_of_def image_image)
  show "length (frames_of cs) = length cs" "map cf_payload (frames_of cs) = cs"
    by (simp_all add: frames_of_def comp_def map_nth)
qed

lemma holds_complete:
  assumes "holds_frames self lim (as_u32 (length cs)) fs" "mset fs = mset (frames_of cs)"
    "0 < length cs" "length cs < 2 ^ 32"
  shows "is_complete self" "into_assembled self = Ok (concat cs)"
proof -
  have len: "length fs = length cs" and set: "set fs = set (frames_of cs)"
    using assms(2) frames_of_keys(4) [OF assms(4)] by (metis size_mset, metis set_mset_mset)
  then have ne: "fs \<noteq> []" using assms(3) by auto
  with assms(1,4) len show c: "is_complete self"
    by (simp add: holds_frames_def is_complete_def unat_of_nat)
  have "ca_received self = map (\<lambda>i. (as_u32 i, cs ! i)) [0..<length cs]"
    by (rule strict_sorted_keys_unique)
      (use assms(1) set frames_of_keys [OF assms(4)] in \<open>auto simp: holds_frames_def\<close>)
  with c show "into_assembled self = Ok (concat cs)"
    by (simp add: into_assembled_def comp_def map_nth)
qed

lemma good_frames_of:
  assumes "mset fs = mset (frames_of cs)" "length cs < 2 ^ 32" "length cs \<le> unat (al_max_chunks lim)"
    "\<forall>c \<in> set cs. length c \<le> al_max_frame_payload lim"
    "sum_list (map length cs) \<le> al_max_total_bytes lim" "al_max_total_bytes lim < usize_max"
  shows "good_frames lim (as_u32 (length cs)) fs"
proof -
  have set: "set fs = set (frames_of cs)" using assms(1) by (metis set_mset_mset)
  have "distinct (map cf_index fs)"
    using assms(1) frames_of_keys(2) [OF assms(2)] by (metis mset_map mset_eq_imp_distinct_iff)
  moreover have "sum_list (map (length \<circ> cf_payload) fs) = sum_list (map length cs)"
    using assms(1) frames_of_keys(5) [OF assms(2)] by (metis map_map mset_map sum_mset_sum_list)
  moreover have "as_u32 (length cs) \<le> al_max_chunks lim"
    using assms(2,3) by (simp add: word_le_nat_alt unat_of_nat)
  moreover have "\<forall>f \<in> set fs. cf_total f = as_u32 (length cs) \<and> cf_index f < as_u32 (length cs) \<and>
      length (cf_payload f) \<le> al_max_frame_payload lim"
    using assms(2,4) unfolding set by (auto simp: frames_of_def word_less_nat_alt unat_of_nat)
  ultimately show ?thesis using assms(5,6) by (simp add: good_frames_def)
qed

section \<open>Properties\<close>

text \<open>C15. Whatever frames a peer sends, in whatever order and number, a fresh assembler never holds more
  chunks, more bytes or a larger chunk than its limits allow, and its byte counter is exact.\<close>

theorem assembler_bounded:
  assumes "al_max_total_bytes lim < usize_max"
  shows "let self = snd (accept_all (new_assembler lim) fs) in
    received_count self \<le> unat (al_max_chunks lim) \<and>
    ca_bytes self = sum_list (map (length \<circ> snd) (ca_received self)) \<and>
    ca_bytes self \<le> al_max_total_bytes lim \<and>
    (\<forall>p \<in> snd ` set (ca_received self). length p \<le> al_max_frame_payload lim)"
proof -
  let ?self = "snd (accept_all (new_assembler lim) fs)"
  have "ca_limits (new_assembler lim) = lim" by (simp add: new_assembler_def)
  with accept_all_inv [of "new_assembler lim" fs] assms
  have inv: "asm_inv ?self" and lim: "ca_limits ?self = lim" by simp_all
  from asm_inv_count [OF inv] inv lim show ?thesis by (auto simp: asm_inv_def Let_def)
qed

theorem assembler_bounded_witness:
  "received_count (snd (accept_all (new_assembler \<lparr>al_max_chunks = 2, al_max_total_bytes = 4, al_max_frame_payload = 3\<rparr>)
     [\<lparr>cf_index = 0, cf_total = 2, cf_payload = [1, 2, 3]\<rparr>, \<lparr>cf_index = 1, cf_total = 2, cf_payload = [4, 5]\<rparr>])) \<le> 2"
  using assembler_bounded [of "\<lparr>al_max_chunks = 2, al_max_total_bytes = 4, al_max_frame_payload = 3\<rparr>"
      "[\<lparr>cf_index = 0, cf_total = 2, cf_payload = [1, 2, 3]\<rparr>, \<lparr>cf_index = 1, cf_total = 2, cf_payload = [4, 5]\<rparr>]"]
  by (simp add: usize_max_def Let_def)

lemma accept_all_good:
  assumes "holds_frames self lim t fs" "good_frames lim t (fs @ gs)"
  shows "\<exists>self'. accept_all self gs = (replicate (length gs) (Inr ()), self') \<and> holds_frames self' lim t (fs @ gs)"
  using assms
proof (induction gs arbitrary: self fs)
  case (Cons g gs)
  from good_frames_prefix [of lim t "fs @ [g]" gs] Cons.prems(2) have "good_frames lim t (fs @ [g])" by simp
  from accept_next [OF Cons.prems(1) this] obtain self1 where
    "accept self g = (Inr (), self1)" and h: "holds_frames self1 lim t (fs @ [g])" by blast
  moreover from Cons.IH [OF h] Cons.prems(2) obtain self' where
    "accept_all self1 gs = (replicate (length gs) (Inr ()), self')" "holds_frames self' lim t (fs @ g # gs)" by auto
  ultimately show ?case by auto
qed auto

text \<open>C16. The frames of a list of chunks within the limits are all accepted in any order, and the assembler
  then returns the concatenation of the chunks.\<close>

theorem reassembly_any_order:
  assumes "mset fs = mset (frames_of cs)" "0 < length cs" "length cs < 2 ^ 32"
    "length cs \<le> unat (al_max_chunks lim)" "\<forall>c \<in> set cs. length c \<le> al_max_frame_payload lim"
    "sum_list (map length cs) \<le> al_max_total_bytes lim" "al_max_total_bytes lim < usize_max"
  shows "\<exists>self. accept_all (new_assembler lim) fs = (replicate (length cs) (Ok ()), self) \<and>
    is_complete self \<and> into_assembled self = Ok (concat cs)"
proof -
  let ?t = "as_u32 (length cs)"
  have "good_frames lim ?t ([] @ fs)" using good_frames_of assms by simp
  from accept_all_good [OF holds_frames_new this] obtain self where
    "accept_all (new_assembler lim) fs = (replicate (length fs) (Inr ()), self)" "holds_frames self lim ?t fs" by auto
  moreover have "length fs = length cs" using assms(1) frames_of_keys(4) [OF assms(3)] by (metis size_mset)
  ultimately show ?thesis using holds_complete assms(1-3) by fastforce
qed

theorem reassembly_any_order_witness:
  "\<exists>self. accept_all (new_assembler \<lparr>al_max_chunks = 2, al_max_total_bytes = 5, al_max_frame_payload = 3\<rparr>)
     [\<lparr>cf_index = 1, cf_total = 2, cf_payload = [4, 5]\<rparr>, \<lparr>cf_index = 0, cf_total = 2, cf_payload = [1, 2, 3]\<rparr>] =
     (replicate (length [[1, 2, 3], [4, 5 :: u8]]) (Ok ()), self) \<and> is_complete self \<and>
     into_assembled self = Ok (concat [[1, 2, 3], [4, 5]])"
  by (rule reassembly_any_order) (simp_all add: frames_of_def usize_max_def)

end
