(* ===== verification/Peer_Transport.thy ===== *)
theory Peer_Transport
  imports Peer_Frame
begin

text \<open>
  The send side of \<open>ferrosa-memory-sync/src/peer_transport.rs\<close>: \<open>PeerTransport\<close> over the
  interface \<open>DataChannel\<close>, and its binding \<open>RtcDataChannel\<close> of
  \<open>peer_transport_webrtc.rs\<close>. What the trait documents of a channel is the locale
  \<open>data_channel\<close>; dropping a send future at one of its awaits is a step of the relation
  \<open>transport_step\<close>, so the accounting claims cover cancellation.
\<close>

section \<open>Types\<close>

datatype transport_state = Verified | Open | DataFlow | Closed

record send_limits =
  sl_max_buffered_bytes :: nat
  sl_max_frame_payload :: nat
  sl_max_chunks :: u32

datatype transport_error =
    SendBeforeOpen transport_state
  | ChannelClosed
  | Frame frame_error
  | ChannelNotOpen
  | ChannelSend string

record 'c channel_ops =
  is_open :: "'c \<Rightarrow> bool"
  wait_buffered_below :: "nat \<Rightarrow> 'c \<Rightarrow> 'c"
  chan_send :: "bytes \<Rightarrow> 'c \<Rightarrow> (transport_error + unit) \<times> 'c"

record 'c peer_transport =
  pt_channel :: 'c
  pt_state :: transport_state
  pt_limits :: send_limits
  pt_sent_chunks :: u32
  pt_sent_bytes :: u64

definition word_sat_add :: "'a :: len word \<Rightarrow> 'a word \<Rightarrow> 'a word" where
  "word_sat_add a b = (if unat a + unat b < 2 ^ LENGTH('a) then a + b else - 1)"

lemma word_sat_add_one:
  "unat (word_sat_add (w :: u32) 1) = min (unat w + 1) (2 ^ 32 - 1)"
  using unsigned_less [where w = w, where 'a = nat]
  by (auto simp: word_sat_add_def unat_word_ariths unsigned_minus_1_eq_mask mask_eq_exp_minus_1)

section \<open>Operations\<close>

definition new_transport :: "'c \<Rightarrow> send_limits \<Rightarrow> 'c peer_transport" where
  "new_transport channel limits =
     \<lparr>pt_channel = channel, pt_state = Verified, pt_limits = limits, pt_sent_chunks = 0, pt_sent_bytes = 0\<rparr>"

definition mark_open :: "'c peer_transport \<Rightarrow> (transport_error + unit) \<times> 'c peer_transport" where
  "mark_open t =
     (case pt_state t of
        Closed \<Rightarrow> (Err ChannelClosed, t)
      | Verified \<Rightarrow> (Ok (), t\<lparr>pt_state := Open\<rparr>)
      | _ \<Rightarrow> (Ok (), t))"

definition mark_closed :: "'c peer_transport \<Rightarrow> 'c peer_transport" where
  "mark_closed t = t\<lparr>pt_state := Closed\<rparr>"

text \<open>Steps 1 and 2 of \<open>send_chunk\<close>: the state gate and the bounds, up to the frame
  that is to be sent.\<close>

definition send_gate :: "'c peer_transport \<Rightarrow> u32 \<Rightarrow> u32 \<Rightarrow> bytes \<Rightarrow> transport_error + bytes" where
  "send_gate t index tot payload =
     and_then (case pt_state t of
                 Verified \<Rightarrow> Err (SendBeforeOpen (pt_state t))
               | Closed \<Rightarrow> Err ChannelClosed
               | _ \<Rightarrow> Ok ()) (\<lambda>_.
     and_then (map_err Frame (encode_frame index tot payload (sl_max_frame_payload (pt_limits t)))) (\<lambda>frame.
     and_then (ensure (tot \<le> sl_max_chunks (pt_limits t)) (Frame (FrameIndexOutOfRange index tot))) (\<lambda>_.
     Ok frame)))"

text \<open>Step 5: the accounting of a chunk that was sent.\<close>

definition commit_sent :: "bytes \<Rightarrow> 'c peer_transport \<Rightarrow> 'c peer_transport" where
  "commit_sent payload t =
     t\<lparr>pt_state := DataFlow, pt_sent_chunks := word_sat_add (pt_sent_chunks t) 1,
       pt_sent_bytes := word_sat_add (pt_sent_bytes t) (as_u64 (length payload))\<rparr>"

definition send_chunk ::
    "'c channel_ops \<Rightarrow> u32 \<Rightarrow> u32 \<Rightarrow> bytes \<Rightarrow> 'c peer_transport \<Rightarrow> (transport_error + unit) \<times> 'c peer_transport" where
  "send_chunk ops index tot payload t =
     (case send_gate t index tot payload of
        Inl e \<Rightarrow> (Err e, t)
      | Inr frame \<Rightarrow>
          let t1 = t\<lparr>pt_channel := wait_buffered_below ops (sl_max_buffered_bytes (pt_limits t)) (pt_channel t)\<rparr> in
          if \<not> is_open ops (pt_channel t1) then (Err ChannelNotOpen, t1)
          else (case chan_send ops frame (pt_channel t1) of
                  (Inl e, c) \<Rightarrow> (Err e, t1\<lparr>pt_channel := c\<rparr>)
                | (Inr _, c) \<Rightarrow> (Ok (), commit_sent payload (t1\<lparr>pt_channel := c\<rparr>))))"

fun send_from ::
    "'c channel_ops \<Rightarrow> nat \<Rightarrow> u32 \<Rightarrow> bytes list \<Rightarrow> 'c peer_transport \<Rightarrow> (transport_error + unit) \<times> 'c peer_transport" where
  "send_from ops index tot [] t = (Ok (), t)"
| "send_from ops index tot (payload # rest) t =
     (case send_chunk ops (as_u32 index) tot payload t of
        (Inl e, t') \<Rightarrow> (Err e, t')
      | (Inr _, t') \<Rightarrow> send_from ops (Suc index) tot rest t')"

definition send_pack ::
    "'c channel_ops \<Rightarrow> bytes list \<Rightarrow> 'c peer_transport \<Rightarrow> (transport_error + unit) \<times> 'c peer_transport" where
  "send_pack ops chunks t = send_from ops 0 (as_u32 (length chunks)) chunks t"

section \<open>The lifecycle with cancellation\<close>

text \<open>
  What can happen to a transport: its owner marks it open or closed, runs a send
  to its end, or drops a send that passed its gate, either while it waits for the
  buffer to drain or while the channel is sending. \<open>delivered\<close> is the list of messages
  the peer gets; a send dropped in the channel may or may not have handed its message over.
\<close>

inductive transport_step ::
    "'c channel_ops \<Rightarrow> ('c \<Rightarrow> bytes list) \<Rightarrow> 'c peer_transport \<Rightarrow> 'c peer_transport \<Rightarrow> bool"
  for ops :: "'c channel_ops" and delivered :: "'c \<Rightarrow> bytes list" where
  step_open: "transport_step ops delivered t (snd (mark_open t))"
| step_close: "transport_step ops delivered t (mark_closed t)"
| step_send: "transport_step ops delivered t (snd (send_chunk ops index tot payload t))"
| drop_waiting: "send_gate t index tot payload = Inr frame \<Longrightarrow> delivered c = delivered (pt_channel t) \<Longrightarrow>
    transport_step ops delivered t (t\<lparr>pt_channel := c\<rparr>)"
| drop_sending: "send_gate t index tot payload = Inr frame \<Longrightarrow>
    delivered c = delivered (pt_channel t) \<or> delivered c = delivered (pt_channel t) @ [frame] \<Longrightarrow>
    transport_step ops delivered t (t\<lparr>pt_channel := c\<rparr>)"

inductive transport_reach ::
    "'c channel_ops \<Rightarrow> ('c \<Rightarrow> bytes list) \<Rightarrow> 'c peer_transport \<Rightarrow> 'c peer_transport \<Rightarrow> bool"
  for ops :: "'c channel_ops" and delivered :: "'c \<Rightarrow> bytes list" and t0 :: "'c peer_transport" where
  reach_here: "transport_reach ops delivered t0 t0"
| reach_step: "transport_reach ops delivered t0 t \<Longrightarrow> transport_step ops delivered t t' \<Longrightarrow>
    transport_reach ops delivered t0 t'"

inductive_cases transport_stepE [consumes 1]: "transport_step ops delivered t t'"

section \<open>The invariant of reachable transports\<close>

text \<open>Nothing leaves before the channel is open, the counter never runs ahead of what
  the peer got, and every message is one whole frame within the limits.\<close>

definition whole_frame :: "send_limits \<Rightarrow> bytes \<Rightarrow> bool" where
  "whole_frame lim b \<longleftrightarrow>
     (case decode_frame b (sl_max_frame_payload lim) of
        Inl _ \<Rightarrow> False | Inr f \<Rightarrow> cf_total f \<le> sl_max_chunks lim)"

definition transport_inv :: "('c \<Rightarrow> bytes list) \<Rightarrow> 'c peer_transport \<Rightarrow> bool" where
  "transport_inv delivered t \<longleftrightarrow>
     (pt_state t = Verified \<longrightarrow> delivered (pt_channel t) = []) \<and>
     (pt_state t \<in> {Verified, Open} \<longrightarrow> pt_sent_chunks t = 0) \<and>
     (pt_state t = DataFlow \<longrightarrow> pt_sent_chunks t \<noteq> 0) \<and>
     unat (pt_sent_chunks t) \<le> length (delivered (pt_channel t)) \<and>
     (\<forall>b \<in> set (delivered (pt_channel t)). whole_frame (pt_limits t) b)"

lemma gate_state: "send_gate t index tot payload = Inr frame \<Longrightarrow> pt_state t \<in> {Open, DataFlow}"
  by (auto simp: send_gate_def split: transport_state.splits)

lemma gate_whole_frame:
  assumes "send_gate t index tot payload = Inr frame" "sl_max_frame_payload (pt_limits t) < 2 ^ 32"
  shows "whole_frame (pt_limits t) frame"
proof -
  from assms(1) have enc: "encode_frame index tot payload (sl_max_frame_payload (pt_limits t)) = Ok frame"
    and tot: "tot \<le> sl_max_chunks (pt_limits t)" by (auto simp: send_gate_def)
  from enc have "length payload \<le> sl_max_frame_payload (pt_limits t)"
    by (auto simp: encode_frame_def split: if_splits)
  with decode_encode [OF enc] assms(2) tot show ?thesis by (simp add: whole_frame_def)
qed

section \<open>What every channel gives\<close>

locale data_channel =
  fixes ops :: "'c channel_ops" and delivered :: "'c \<Rightarrow> bytes list"
  assumes wait_sends_nothing: "delivered (wait_buffered_below ops n c) = delivered c"
    and send_all: "chan_send ops frame c = (Inr u, c') \<Longrightarrow> delivered c' = delivered c @ [frame]"
    and send_none: "chan_send ops frame c = (Inl e, c') \<Longrightarrow> delivered c' = delivered c"
begin

lemma send_chunk_result:
  assumes "send_chunk ops index tot payload t = (r, t')"
  obtains
    (sent) frame where "r = Ok ()" "send_gate t index tot payload = Ok frame"
      "delivered (pt_channel t') = delivered (pt_channel t) @ [frame]"
      "t' = commit_sent payload (t\<lparr>pt_channel := pt_channel t'\<rparr>)"
  | (refused) e where "r = Err e" "delivered (pt_channel t') = delivered (pt_channel t)"
      "t' = t\<lparr>pt_channel := pt_channel t'\<rparr>"
proof (cases "send_gate t index tot payload")
  case (Inl e)
  with assms show ?thesis by (intro refused) (auto simp: send_chunk_def)
next
  case (Inr frame)
  let ?c = "wait_buffered_below ops (sl_max_buffered_bytes (pt_limits t)) (pt_channel t)"
  obtain rs c where s: "chan_send ops frame ?c = (rs, c)" by fastforce
  show ?thesis
  proof (cases "is_open ops ?c")
    case False
    with assms Inr wait_sends_nothing show ?thesis
      by (intro refused) (auto simp: send_chunk_def)
  next
    case True
    show ?thesis
    proof (cases rs)
      case e: (Inl e)
      with assms Inr True s send_none [of frame ?c e c] wait_sends_nothing show ?thesis
        by (intro refused) (auto simp: send_chunk_def)
    next
      case ok: (Inr u)
      with assms Inr True s send_all [of frame ?c u c] wait_sends_nothing show ?thesis
        by (intro sent) (auto simp: send_chunk_def commit_sent_def)
    qed
  qed
qed

lemma send_from_prefix:
  assumes "send_from ops i tot cs t = (r, t')"
  shows "\<exists>fs. delivered (pt_channel t') = delivered (pt_channel t) @ fs \<and> length fs \<le> length cs \<and>
    (\<forall>j < length fs. encode_frame (as_u32 (i + j)) tot (cs ! j) (sl_max_frame_payload (pt_limits t)) = Ok (fs ! j)) \<and>
    (r = Ok () \<longleftrightarrow> length fs = length cs) \<and>
    unat (pt_sent_chunks t') = min (unat (pt_sent_chunks t) + length fs) (2 ^ 32 - 1) \<and>
    pt_limits t' = pt_limits t"
  using assms
proof (induction cs arbitrary: i t)
  case Nil
  moreover have "unat (pt_sent_chunks t) \<le> 2 ^ 32 - 1"
    using unsigned_less [where w = "pt_sent_chunks t", where 'a = nat] by simp
  ultimately show ?case by auto
next
  case (Cons c cs)
  obtain r1 t1 where one: "send_chunk ops (as_u32 i) tot c t = (r1, t1)" by fastforce
  from one show ?case
  proof (cases rule: send_chunk_result)
    case (sent frame)
    with Cons.prems one have "send_from ops (Suc i) tot cs t1 = (r, t')" by simp
    from Cons.IH [OF this] obtain fs where IH:
      "delivered (pt_channel t') = delivered (pt_channel t1) @ fs" "length fs \<le> length cs"
      "\<forall>j < length fs. encode_frame (as_u32 (Suc i + j)) tot (cs ! j) (sl_max_frame_payload (pt_limits t1)) = Ok (fs ! j)"
      "r = Ok () \<longleftrightarrow> length fs = length cs"
      "unat (pt_sent_chunks t') = min (unat (pt_sent_chunks t1) + length fs) (2 ^ 32 - 1)"
      "pt_limits t' = pt_limits t1" by blast
    have lim: "pt_limits t1 = pt_limits t"
      and cnt: "unat (pt_sent_chunks t1) = min (unat (pt_sent_chunks t) + 1) (2 ^ 32 - 1)"
      by (subst sent(4), simp add: commit_sent_def word_sat_add_one)+
    have head: "encode_frame (as_u32 i) tot c (sl_max_frame_payload (pt_limits t)) = Ok frame"
      using sent(2) by (auto simp: send_gate_def)
    have "encode_frame (as_u32 (i + j)) tot ((c # cs) ! j) (sl_max_frame_payload (pt_limits t)) = Ok ((frame # fs) ! j)"
      if "j < length (frame # fs)" for j
      using that head IH(3) lim by (cases j) auto
    with IH sent(3) lim cnt show ?thesis by (intro exI [of _ "frame # fs"]) auto
  next
    case (refused e)
    with Cons.prems one have "t' = t1" "r = Err e" by auto
    moreover have "unat (pt_sent_chunks t) \<le> 2 ^ 32 - 1"
      using unsigned_less [where w = "pt_sent_chunks t", where 'a = nat] by simp
    moreover have "pt_sent_chunks t1 = pt_sent_chunks t" "pt_limits t1 = pt_limits t"
      by (subst refused(3), simp)+
    ultimately show ?thesis using refused(2) by (intro exI [of _ "[]"]) auto
  qed
qed

lemma step_inv:
  assumes "transport_step ops delivered t t'" "transport_inv delivered t"
    "sl_max_frame_payload (pt_limits t) < 2 ^ 32"
  shows "transport_inv delivered t' \<and> pt_limits t' = pt_limits t"
  using assms(1)
proof (cases rule: transport_stepE)
  case 1
  show ?thesis
    unfolding 1 using assms(2) by (cases "pt_state t") (simp_all add: transport_inv_def mark_open_def)
next
  case 2
  show ?thesis unfolding 2 using assms(2) by (simp add: transport_inv_def mark_closed_def)
next
  case (3 index tot payload)
  obtain r where "send_chunk ops index tot payload t = (r, t')" by (metis 3 prod.collapse)
  then show ?thesis
  proof (cases rule: send_chunk_result)
    case (sent frame)
    have "transport_inv delivered (commit_sent payload (t\<lparr>pt_channel := pt_channel t'\<rparr>))"
      using assms(2) sent(3) gate_whole_frame [OF sent(2) assms(3)] word_sat_add_one [of "pt_sent_chunks t"]
      by (auto simp: transport_inv_def commit_sent_def)
    moreover have "pt_limits t' = pt_limits t" by (subst sent(4)) (simp add: commit_sent_def)
    ultimately show ?thesis by (simp flip: sent(4))
  next
    case (refused e)
    have "transport_inv delivered (t\<lparr>pt_channel := pt_channel t'\<rparr>)"
      using assms(2) refused(2) by (simp add: transport_inv_def)
    moreover have "pt_limits t' = pt_limits t" by (subst refused(3)) simp
    ultimately show ?thesis by (simp flip: refused(3))
  qed
next
  case (4 index tot payload frame c)
  with assms(2) show ?thesis by (simp add: transport_inv_def)
next
  case (5 index tot payload frame c)
  with assms(2) gate_whole_frame [OF 5(2) assms(3)] gate_state [OF 5(2)] show ?thesis
    by (auto simp: transport_inv_def)
qed

lemma reach_inv:
  assumes "transport_reach ops delivered t0 t" "transport_inv delivered t0"
    "sl_max_frame_payload (pt_limits t0) < 2 ^ 32"
  shows "transport_inv delivered t \<and> pt_limits t = pt_limits t0"
  using assms by (induction rule: transport_reach.induct) (auto simp: step_inv)

lemma step_closed:
  assumes "transport_step ops delivered t t'" "pt_state t = Closed"
  shows "pt_state t' = Closed \<and> delivered (pt_channel t') = delivered (pt_channel t)"
  using assms
  by (cases rule: transport_stepE) (auto simp: mark_open_def mark_closed_def send_chunk_def send_gate_def)

lemma reach_closed:
  assumes "transport_reach ops delivered t0 t" "pt_state t0 = Closed"
  shows "pt_state t = Closed \<and> delivered (pt_channel t) = delivered (pt_channel t0)"
  using assms by (induction rule: transport_reach.induct) (auto dest: step_closed)

end

section \<open>The WebRTC binding\<close>

text \<open>
  The wrapped \<open>RTCDataChannel\<close> answers as the network goes: \<open>rc_moments\<close> is what its
  successive \<open>buffered_amount\<close> calls return, with the ready state at that moment, and
  \<open>rc_refusals\<close> the errors of its successive sends. An exhausted list stands for a
  drained buffer and a send that succeeds. \<open>rc_sent\<close> is what the peer gets.
\<close>

record rtc_channel =
  rc_open :: bool
  rc_moments :: "(nat \<times> bool) list"
  rc_refusals :: "string option list"
  rc_sent :: "bytes list"

definition buffered_amount :: "rtc_channel \<Rightarrow> nat \<times> rtc_channel" where
  "buffered_amount c =
     (case rc_moments c of
        [] \<Rightarrow> (0, c)
      | (n, opn) # rest \<Rightarrow> (n, c\<lparr>rc_moments := rest, rc_open := opn\<rparr>))"

text \<open>\<open>max_waits\<close>, the cap \<open>attach\<close> sets.\<close>

definition max_waits :: nat where "max_waits = 10000"

text \<open>\<open>fuel\<close> counts down from the cap as the source's \<open>waits\<close> counts up to it.\<close>

fun wait_loop :: "nat \<Rightarrow> nat \<Rightarrow> rtc_channel \<Rightarrow> rtc_channel" where
  "wait_loop fuel threshold c =
     (let (n, c') = buffered_amount c in
      if n \<le> threshold then c'
      else if fuel \<le> 1 then c'
      else wait_loop (fuel - 1) threshold c')"

declare wait_loop.simps [simp del]

definition rtc_wait_buffered_below :: "nat \<Rightarrow> rtc_channel \<Rightarrow> rtc_channel" where
  "rtc_wait_buffered_below threshold c = wait_loop max_waits threshold c"

definition rtc_send :: "bytes \<Rightarrow> rtc_channel \<Rightarrow> (transport_error + unit) \<times> rtc_channel" where
  "rtc_send frame c =
     (case rc_refusals c of
        Some e # rest \<Rightarrow> (Err (ChannelSend e), c\<lparr>rc_refusals := rest\<rparr>)
      | rs \<Rightarrow> (Ok (), c\<lparr>rc_refusals := drop 1 rs, rc_sent := rc_sent c @ [frame]\<rparr>))"

definition rtc_ops :: "rtc_channel channel_ops" where
  "rtc_ops = \<lparr>is_open = rc_open, wait_buffered_below = rtc_wait_buffered_below, chan_send = rtc_send\<rparr>"

lemma wait_loop_sent: "rc_sent (wait_loop fuel threshold c) = rc_sent c"
proof (induction fuel threshold c rule: wait_loop.induct)
  case (1 fuel threshold c)
  obtain n c' where b: "buffered_amount c = (n, c')" by fastforce
  then have "rc_sent c' = rc_sent c"
    by (auto simp: buffered_amount_def split: list.splits)
  with 1 [OF b [symmetric] HOL.refl] b show ?case
    by (subst wait_loop.simps) auto
qed

text \<open>The wait ends: at a moment when the buffer is low enough, or at the cap.\<close>

lemma wait_loop_moments:
  "0 < fuel \<Longrightarrow> \<exists>k. k \<le> fuel \<and> rc_moments (wait_loop fuel threshold c) = drop k (rc_moments c) \<and>
     (\<forall>j < k - 1. j < length (rc_moments c) \<longrightarrow> threshold < fst (rc_moments c ! j)) \<and>
     (k < fuel \<longrightarrow> k \<le> length (rc_moments c) \<longrightarrow> 0 < k \<and> fst (rc_moments c ! (k - 1)) \<le> threshold)"
proof (induction fuel threshold c rule: wait_loop.induct)
  case (1 fuel threshold c)
  show ?case
  proof (cases "rc_moments c")
    case Nil
    then show ?thesis
      by (subst wait_loop.simps) (auto simp: buffered_amount_def Let_def intro!: exI [of _ 1] "1.prems" Suc_leI)
  next
    case (Cons m rest)
    obtain n opn where m: "m = (n, opn)" by (cases m)
    let ?c = "c\<lparr>rc_moments := rest, rc_open := opn\<rparr>"
    have b: "buffered_amount c = (n, ?c)" using Cons m by (simp add: buffered_amount_def)
    show ?thesis
    proof (cases "n \<le> threshold \<or> fuel \<le> 1")
      case True
      then have "wait_loop fuel threshold c = ?c"
        by (subst wait_loop.simps) (auto simp: b)
      with True Cons m "1.prems" show ?thesis by (intro exI [of _ 1]) auto
    next
      case False
      then have w: "wait_loop fuel threshold c = wait_loop (fuel - 1) threshold ?c"
        by (subst wait_loop.simps) (auto simp: b)
      from False "1.IH" [of "(n, ?c)" n ?c] b obtain k where k: "k \<le> fuel - 1"
        "rc_moments (wait_loop (fuel - 1) threshold ?c) = drop k rest"
        "\<forall>j < k - 1. j < length rest \<longrightarrow> threshold < fst (rest ! j)"
        "k < fuel - 1 \<longrightarrow> k \<le> length rest \<longrightarrow> 0 < k \<and> fst (rest ! (k - 1)) \<le> threshold"
        by auto
      have "threshold < fst ((m # rest) ! j)" if "j < Suc k - 1" "j < length (m # rest)" for j
        using that k(3) False m by (cases j) auto
      with k w Cons m False show ?thesis
        by (intro exI [of _ "Suc k"]) (auto simp: nth_Cons')
    qed
  qed
qed

interpretation rtc: data_channel rtc_ops rc_sent
  by unfold_locales
    (auto simp: rtc_ops_def rtc_wait_buffered_below_def wait_loop_sent rtc_send_def
      split: list.splits option.splits)

section \<open>Properties\<close>

text \<open>C17. However a transport over the WebRTC channel is driven from its creation, with sends dropped at any
  await: before it is marked open nothing has left, the chunk counter never exceeds the number of messages the
  peer got, and every message the peer got is one whole frame within the limits.\<close>

theorem transport_accounting:
  assumes "transport_reach rtc_ops rc_sent (new_transport c lim) t" "rc_sent c = []"
    "sl_max_frame_payload lim < 2 ^ 32"
  shows "(pt_state t = Verified \<longrightarrow> rc_sent (pt_channel t) = []) \<and>
    unat (pt_sent_chunks t) \<le> length (rc_sent (pt_channel t)) \<and>
    (\<forall>b \<in> set (rc_sent (pt_channel t)). whole_frame lim b)"
proof -
  have "transport_inv rc_sent (new_transport c lim)" "pt_limits (new_transport c lim) = lim"
    using assms(2) by (simp_all add: transport_inv_def new_transport_def)
  with rtc.reach_inv [OF assms(1)] assms(3) have "transport_inv rc_sent t" "pt_limits t = lim" by auto
  then show ?thesis by (auto simp: transport_inv_def)
qed

theorem transport_accounting_witness:
  "\<exists>t. transport_reach rtc_ops rc_sent
      (new_transport \<lparr>rc_open = True, rc_moments = [], rc_refusals = [], rc_sent = []\<rparr>
        \<lparr>sl_max_buffered_bytes = 9, sl_max_frame_payload = 3, sl_max_chunks = 4\<rparr>) t \<and>
    pt_state t = Open \<and> unat (pt_sent_chunks t) \<le> length (rc_sent (pt_channel t))"
proof -
  let ?start = "new_transport \<lparr>rc_open = True, rc_moments = [], rc_refusals = [], rc_sent = []\<rparr>
    \<lparr>sl_max_buffered_bytes = 9, sl_max_frame_payload = 3, sl_max_chunks = 4\<rparr>"
  let ?t = "snd (mark_open ?start)"
  have reach: "transport_reach rtc_ops rc_sent ?start ?t"
    by (rule reach_step [OF reach_here]) (rule step_open)
  moreover have "pt_state ?t = Open" by (simp add: mark_open_def new_transport_def)
  ultimately show ?thesis using transport_accounting [OF reach] by auto
qed

text \<open>A closed transport stays closed and sends nothing more, whatever is done with it.\<close>

theorem closed_is_final:
  assumes "transport_reach rtc_ops rc_sent t0 t" "pt_state t0 = Closed"
  shows "pt_state t = Closed \<and> rc_sent (pt_channel t) = rc_sent (pt_channel t0)"
  using assms by (rule rtc.reach_closed)

theorem closed_is_final_witness:
  "pt_state (snd (send_chunk rtc_ops 0 1 [1] (mark_closed (new_transport
      \<lparr>rc_open = True, rc_moments = [], rc_refusals = [], rc_sent = []\<rparr>
      \<lparr>sl_max_buffered_bytes = 9, sl_max_frame_payload = 3, sl_max_chunks = 4\<rparr>)))) = Closed"
  by (rule closed_is_final [OF reach_step [OF reach_here step_send], THEN conjunct1]) (simp add: mark_closed_def)

text \<open>C18. Sending a pack puts a prefix of its frames on the channel, whole and in order: all of them
  exactly when the call succeeds; the chunk counter advances by their number, saturating at its width.\<close>

theorem send_pack_prefix:
  assumes "send_pack rtc_ops chunks t = (r, t')"
  shows "\<exists>fs. rc_sent (pt_channel t') = rc_sent (pt_channel t) @ fs \<and> length fs \<le> length chunks \<and>
    (\<forall>j < length fs. encode_frame (as_u32 j) (as_u32 (length chunks)) (chunks ! j)
       (sl_max_frame_payload (pt_limits t)) = Ok (fs ! j)) \<and>
    (r = Ok () \<longleftrightarrow> length fs = length chunks) \<and>
    unat (pt_sent_chunks t') = min (unat (pt_sent_chunks t) + length fs) (2 ^ 32 - 1)"
  using rtc.send_from_prefix [of 0] assms by (fastforce simp: send_pack_def)

theorem send_pack_prefix_witness:
  "\<exists>t' fs. send_pack rtc_ops [[1], [2, 3]] (snd (mark_open (new_transport
      \<lparr>rc_open = True, rc_moments = [(50, True), (2, True)], rc_refusals = [None, Some ''reset''], rc_sent = []\<rparr>
      \<lparr>sl_max_buffered_bytes = 9, sl_max_frame_payload = 3, sl_max_chunks = 4\<rparr>))) = (Err (ChannelSend ''reset''), t') \<and>
    rc_sent (pt_channel t') = fs \<and> length fs < 2"
proof -
  let ?t = "snd (mark_open (new_transport
      \<lparr>rc_open = True, rc_moments = [(50, True), (2, True)], rc_refusals = [None, Some ''reset''], rc_sent = []\<rparr>
      \<lparr>sl_max_buffered_bytes = 9, sl_max_frame_payload = 3, sl_max_chunks = 4\<rparr>))"
  have "fst (send_pack rtc_ops [[1], [2, 3]] ?t) = Err (ChannelSend ''reset'')"
    by (simp add: send_pack_def send_chunk_def send_gate_def encode_frame_def mark_open_def new_transport_def
        rtc_ops_def rtc_wait_buffered_below_def max_waits_def wait_loop.simps buffered_amount_def rtc_send_def
        commit_sent_def word_le_nat_alt ensure_def)
  then obtain t' where s: "send_pack rtc_ops [[1], [2, 3]] ?t = (Err (ChannelSend ''reset''), t')"
    by (metis prod.collapse)
  moreover have "rc_sent (pt_channel ?t) = []" by (simp add: mark_open_def new_transport_def)
  ultimately show ?thesis using send_pack_prefix [OF s] by force
qed

text \<open>C19. The backpressure wait looks at the buffer at most \<open>max_waits\<close> times. It stops at the first
  moment the buffered amount is at or below the threshold, or, with the buffer still above it, at the cap.\<close>

theorem wait_is_bounded:
  "\<exists>k. 0 < k \<and> k \<le> max_waits \<and>
     rc_moments (rtc_wait_buffered_below threshold c) = drop k (rc_moments c) \<and>
     (\<forall>j < k - 1. j < length (rc_moments c) \<longrightarrow> threshold < fst (rc_moments c ! j)) \<and>
     (k < max_waits \<longrightarrow> k \<le> length (rc_moments c) \<longrightarrow> fst (rc_moments c ! (k - 1)) \<le> threshold)"
proof -
  have "0 < max_waits" by (simp add: max_waits_def)
  from wait_loop_moments [OF this, of threshold c] obtain k where
    k: "k \<le> max_waits" "rc_moments (wait_loop max_waits threshold c) = drop k (rc_moments c)"
      "\<forall>j < k - 1. j < length (rc_moments c) \<longrightarrow> threshold < fst (rc_moments c ! j)"
      "k < max_waits \<longrightarrow> k \<le> length (rc_moments c) \<longrightarrow> 0 < k \<and> fst (rc_moments c ! (k - 1)) \<le> threshold"
    by blast
  have "0 < k" using k(4) \<open>0 < max_waits\<close> by (cases k) auto
  with k show ?thesis unfolding rtc_wait_buffered_below_def by blast
qed

theorem wait_is_bounded_witness:
  "\<exists>k. 0 < k \<and> k \<le> max_waits \<and>
     rc_moments (rtc_wait_buffered_below 9 \<lparr>rc_open = True, rc_moments = [(50, True), (2, True)], rc_refusals = [], rc_sent = []\<rparr>)
       = drop k [(50, True), (2, True)]"
  using wait_is_bounded [of 9 "\<lparr>rc_open = True, rc_moments = [(50, True), (2, True)], rc_refusals = [], rc_sent = []\<rparr>"]
  by auto

end
