(* ===== verification/Pack_Receiver.thy ===== *)
theory Pack_Receiver
  imports Dir_Store Chunk_Assembler Peer_Transport
begin

text \<open>
  The wire helpers and the inbound receiver of
  \<open>ferrosa-memory-sync/src/peer_transport_webrtc.rs\<close>: a sealed pack reference is
  serialised and cut into chunks on one side; on the other, each message is decoded, assembled
  within bounds and, once the pack is complete, ingested.
\<close>

section \<open>The producer\<close>

record wire_env = crypto_env +
  pack_ref_to_vec :: "pack_ref \<Rightarrow> string + bytes"
  pack_ref_from_slice :: "bytes \<Rightarrow> string + pack_ref"

datatype wire_error = WireSerialize string | ZeroChunkSize

definition pack_ref_to_wire_chunks :: "'x wire_env_scheme \<Rightarrow> pack_ref \<Rightarrow> nat \<Rightarrow> wire_error + bytes list" where
  "pack_ref_to_wire_chunks env pack_ref max_frame_payload =
     (if max_frame_payload = 0 then Err ZeroChunkSize
      else and_then (map_err WireSerialize (pack_ref_to_vec env pack_ref)) (\<lambda>bs.
        Ok (chunks_of max_frame_payload bs)))"

datatype send_pack_error = SendWire wire_error | SendTransport transport_error

definition send_pack_ref ::
    "'x wire_env_scheme \<Rightarrow> 'c channel_ops \<Rightarrow> 'c peer_transport \<Rightarrow> pack_ref \<Rightarrow> nat
      \<Rightarrow> (send_pack_error + unit) \<times> 'c peer_transport" where
  "send_pack_ref env ops transport pack_ref max_frame_payload =
     (case pack_ref_to_wire_chunks env pack_ref max_frame_payload of
        Inl e \<Rightarrow> (Err (SendWire e), transport)
      | Inr chunks \<Rightarrow>
          let (r, transport') = send_pack ops chunks transport in (map_err SendTransport r, transport'))"

section \<open>The receiver\<close>

datatype 'err receiver_error =
    DecodeFailed frame_error
  | AssembleFailed assemble_error
  | ReassembleFailed assemble_error
  | DeserializeFailed string
  | IngestFailed "'err ingest_error"

record 'err receiver_health =
  rh_frames_received :: u64
  rh_frames_rejected :: u64
  rh_packs_applied :: u64
  rh_packs_failed :: u64
  rh_last_error :: "'err receiver_error option"

text \<open>\<open>pr_blocked\<close> is the process-wide counter of blocked downgrades.\<close>

record ('s, 'err) pack_receiver =
  pr_assembler :: chunk_assembler
  pr_limits :: assembler_limits
  pr_max_frame_payload :: nat
  pr_store :: 's
  pr_ikm :: secret
  pr_attestation :: channel_attestation
  pr_floor :: cipher_floor
  pr_health :: "'err receiver_health"
  pr_blocked :: downgrade_counter

definition health_default :: "'err receiver_health" where
  "health_default = \<lparr>rh_frames_received = 0, rh_frames_rejected = 0, rh_packs_applied = 0,
     rh_packs_failed = 0, rh_last_error = None\<rparr>"

definition new_receiver ::
    "'s \<Rightarrow> secret \<Rightarrow> channel_attestation \<Rightarrow> cipher_floor \<Rightarrow> assembler_limits \<Rightarrow> nat \<Rightarrow> downgrade_counter
      \<Rightarrow> ('s, 'err) pack_receiver" where
  "new_receiver store ikm attestation floor limits max_frame_payload blocked =
     \<lparr>pr_assembler = new_assembler limits, pr_limits = limits, pr_max_frame_payload = max_frame_payload,
      pr_store = store, pr_ikm = ikm, pr_attestation = attestation, pr_floor = floor,
      pr_health = health_default, pr_blocked = blocked\<rparr>"

definition record_health ::
    "('err receiver_health \<Rightarrow> 'err receiver_health) \<Rightarrow> ('s, 'err) pack_receiver \<Rightarrow> ('s, 'err) pack_receiver" where
  "record_health f recv = recv\<lparr>pr_health := f (pr_health recv)\<rparr>"

definition frame_rejected :: "'err receiver_error \<Rightarrow> 'err receiver_health \<Rightarrow> 'err receiver_health" where
  "frame_rejected e h = h\<lparr>rh_frames_rejected := rh_frames_rejected h + 1, rh_last_error := Some e\<rparr>"

definition pack_failed :: "'err receiver_error \<Rightarrow> 'err receiver_health \<Rightarrow> 'err receiver_health" where
  "pack_failed e h = h\<lparr>rh_packs_failed := rh_packs_failed h + 1, rh_last_error := Some e\<rparr>"

text \<open>The assembly section of \<open>handle_frame_bytes\<close>, under the assembler's lock.\<close>

definition assemble_frame ::
    "('s, 'err) pack_receiver \<Rightarrow> chunk_frame \<Rightarrow> bytes option \<times> ('s, 'err) pack_receiver" where
  "assemble_frame recv frame =
     (case accept (pr_assembler recv) frame of
        (Inl e, asm) \<Rightarrow> (None, record_health (frame_rejected (AssembleFailed e)) (recv\<lparr>pr_assembler := asm\<rparr>))
      | (Inr _, asm) \<Rightarrow>
          if is_complete asm then
            let recv' = recv\<lparr>pr_assembler := new_assembler (pr_limits recv)\<rparr> in
            (case into_assembled asm of
               Inr bs \<Rightarrow> (Some bs, recv')
             | Inl e \<Rightarrow> (None, record_health (pack_failed (ReassembleFailed e)) recv'))
          else (None, recv\<lparr>pr_assembler := asm\<rparr>))"

definition ingest_assembled ::
    "'x wire_env_scheme \<Rightarrow> ('s, 'err) apply_store_ops \<Rightarrow> ('s, 'err) pack_receiver \<Rightarrow> bytes
      \<Rightarrow> ('s, 'err) pack_receiver" where
  "ingest_assembled env ops recv bs =
     (case pack_ref_from_slice env bs of
        Inl e \<Rightarrow> record_health (pack_failed (DeserializeFailed e)) recv
      | Inr pack_ref \<Rightarrow>
          (case ingest_pack env ops (pr_blocked recv) (pr_store recv) pack_ref (pr_ikm recv)
                  (pr_attestation recv) (pr_floor recv) of
             (r, s, b) \<Rightarrow>
               let recv' = recv\<lparr>pr_store := s, pr_blocked := b\<rparr> in
               (case r of
                  Inr _ \<Rightarrow> record_health (\<lambda>h. h\<lparr>rh_packs_applied := rh_packs_applied h + 1\<rparr>) recv'
                | Inl e \<Rightarrow> record_health (pack_failed (IngestFailed e)) recv')))"

definition handle_frame_bytes ::
    "'x wire_env_scheme \<Rightarrow> ('s, 'err) apply_store_ops \<Rightarrow> ('s, 'err) pack_receiver \<Rightarrow> bytes
      \<Rightarrow> ('s, 'err) pack_receiver" where
  "handle_frame_bytes env ops recv raw =
     (let recv = record_health (\<lambda>h. h\<lparr>rh_frames_received := rh_frames_received h + 1\<rparr>) recv in
      case decode_frame raw (pr_max_frame_payload recv) of
        Inl e \<Rightarrow> record_health (frame_rejected (DecodeFailed e)) recv
      | Inr frame \<Rightarrow>
          (case assemble_frame recv frame of
             (None, recv') \<Rightarrow> recv'
           | (Some bs, recv') \<Rightarrow> ingest_assembled env ops recv' bs))"

definition handle_all ::
    "'x wire_env_scheme \<Rightarrow> ('s, 'err) apply_store_ops \<Rightarrow> ('s, 'err) pack_receiver \<Rightarrow> bytes list
      \<Rightarrow> ('s, 'err) pack_receiver" where
  "handle_all env ops recv raws = foldl (handle_frame_bytes env ops) recv raws"

section \<open>One message\<close>

lemma record_health_simps [simp]:
  "pr_assembler (record_health f r) = pr_assembler r" "pr_limits (record_health f r) = pr_limits r"
  "pr_max_frame_payload (record_health f r) = pr_max_frame_payload r" "pr_store (record_health f r) = pr_store r"
  "pr_ikm (record_health f r) = pr_ikm r" "pr_attestation (record_health f r) = pr_attestation r"
  "pr_floor (record_health f r) = pr_floor r" "pr_blocked (record_health f r) = pr_blocked r"
  "pr_health (record_health f r) = f (pr_health r)"
  by (simp_all add: record_health_def)

lemmas receiver_defs = handle_frame_bytes_def assemble_frame_def ingest_assembled_def

lemma handle_config:
  "pr_limits (handle_frame_bytes env ops recv raw) = pr_limits recv"
  "pr_max_frame_payload (handle_frame_bytes env ops recv raw) = pr_max_frame_payload recv"
  "pr_ikm (handle_frame_bytes env ops recv raw) = pr_ikm recv"
  "pr_attestation (handle_frame_bytes env ops recv raw) = pr_attestation recv"
  "pr_floor (handle_frame_bytes env ops recv raw) = pr_floor recv"
  by (auto simp: receiver_defs Let_def split: sum.splits prod.splits option.splits if_splits)

text \<open>A message reaches the store only through one call of \<open>ingest_pack\<close>, with the
  receiver's own key material and attestation.\<close>

definition own_requests ::
    "('s, 'err) pack_receiver \<Rightarrow> pack_ref list \<Rightarrow> (pack_ref \<times> secret \<times> channel_attestation \<times> cipher_floor) list" where
  "own_requests recv refs = map (\<lambda>ref. (ref, pr_ikm recv, pr_attestation recv, pr_floor recv)) refs"

lemma handle_store:
  "\<exists>refs. (pr_store (handle_frame_bytes env ops recv raw), pr_blocked (handle_frame_bytes env ops recv raw)) =
     ingest_all env ops (pr_blocked recv) (pr_store recv) (own_requests recv refs)"
proof -
  let ?recv = "record_health (\<lambda>h. h\<lparr>rh_frames_received := rh_frames_received h + 1\<rparr>) recv"
  have none: ?thesis if "pr_store (handle_frame_bytes env ops recv raw) = pr_store recv"
      "pr_blocked (handle_frame_bytes env ops recv raw) = pr_blocked recv"
    using that by (intro exI [of _ "[]"]) (simp add: own_requests_def)
  show ?thesis
  proof (cases "decode_frame raw (pr_max_frame_payload recv)")
    case (Inl e)
    then show ?thesis by (intro none) (simp_all add: handle_frame_bytes_def)
  next
    case (Inr frame)
    obtain o1 recv1 where asm: "assemble_frame ?recv frame = (o1, recv1)" by fastforce
    have same: "pr_store recv1 = pr_store recv" "pr_blocked recv1 = pr_blocked recv" "pr_ikm recv1 = pr_ikm recv"
      "pr_attestation recv1 = pr_attestation recv" "pr_floor recv1 = pr_floor recv"
      using asm by (auto simp: assemble_frame_def Let_def split: prod.splits sum.splits if_splits)
    show ?thesis
    proof (cases o1)
      case None
      with Inr asm same show ?thesis by (intro none) (simp_all add: handle_frame_bytes_def)
    next
      case (Some bs)
      show ?thesis
      proof (cases "pack_ref_from_slice env bs")
        case e: (Inl e)
        with Inr asm same Some show ?thesis
          by (intro none) (simp_all add: handle_frame_bytes_def ingest_assembled_def)
      next
        case ref: (Inr ref)
        with Inr asm same Some show ?thesis
          by (intro exI [of _ "[ref]"])
            (auto simp: handle_frame_bytes_def ingest_assembled_def own_requests_def Let_def
              split: prod.splits sum.splits)
      qed
    qed
  qed
qed

lemma ingest_all_append:
  "ingest_all env ops b s (xs @ ys) = (let (s', b') = ingest_all env ops b s xs in ingest_all env ops b' s' ys)"
  by (induction env ops b s xs rule: ingest_all.induct) (auto simp: Let_def split: prod.splits)

lemma handle_all_store:
  "\<exists>refs. (pr_store (handle_all env ops recv raws), pr_blocked (handle_all env ops recv raws)) =
     ingest_all env ops (pr_blocked recv) (pr_store recv) (own_requests recv refs)"
proof (induction raws arbitrary: recv)
  case Nil
  show ?case by (intro exI [of _ "[]"]) (simp add: handle_all_def own_requests_def)
next
  case (Cons raw raws)
  let ?r = "handle_frame_bytes env ops recv raw"
  from handle_store [of env ops recv raw] obtain refs1 where one:
    "(pr_store ?r, pr_blocked ?r) = ingest_all env ops (pr_blocked recv) (pr_store recv) (own_requests recv refs1)"
    by blast
  from Cons [of ?r] obtain refs2 where two:
    "(pr_store (handle_all env ops ?r raws), pr_blocked (handle_all env ops ?r raws)) =
       ingest_all env ops (pr_blocked ?r) (pr_store ?r) (own_requests ?r refs2)" by blast
  have "own_requests ?r refs2 = own_requests recv refs2"
    by (simp add: own_requests_def handle_config)
  moreover have "own_requests recv (refs1 @ refs2) = own_requests recv refs1 @ own_requests recv refs2"
    by (simp add: own_requests_def)
  ultimately show ?case
    using two by (intro exI [of _ "refs1 @ refs2"]) (simp add: handle_all_def ingest_all_append flip: one)
qed

section \<open>Bounded memory\<close>

definition recv_inv :: "('s, 'err) pack_receiver \<Rightarrow> bool" where
  "recv_inv recv \<longleftrightarrow> asm_inv (pr_assembler recv) \<and> ca_limits (pr_assembler recv) = pr_limits recv"

lemma new_receiver_inv:
  "recv_inv (new_receiver store ikm att floor limits mx blocked)"
  "pr_limits (new_receiver store ikm att floor limits mx blocked) = limits"
  by (simp_all add: recv_inv_def new_receiver_def, simp add: new_assembler_def)

lemma handle_inv:
  assumes "recv_inv recv" "al_max_total_bytes (pr_limits recv) < usize_max"
  shows "recv_inv (handle_frame_bytes env ops recv raw)"
proof -
  have acc: "asm_inv a \<and> ca_limits a = pr_limits recv" if "accept (pr_assembler recv) f = (r, a)" for f r a
    using accept_inv [of "pr_assembler recv" f] accept_limits [of "pr_assembler recv" f] assms that
    by (simp add: recv_inv_def)
  have new: "asm_inv (new_assembler l) \<and> ca_limits (new_assembler l) = l" for l
    by (simp add: new_assembler_def asm_inv_def)
  show ?thesis
    using assms(1) acc new
    by (auto simp: recv_inv_def receiver_defs Let_def split: sum.splits prod.splits option.splits if_splits)
qed

lemma handle_all_inv:
  assumes "recv_inv recv" "al_max_total_bytes (pr_limits recv) < usize_max"
  shows "recv_inv (handle_all env ops recv raws) \<and> pr_limits (handle_all env ops recv raws) = pr_limits recv"
  unfolding handle_all_def using assms
  by (induction raws arbitrary: recv) (auto simp: handle_inv handle_config)

section \<open>A pack arrives\<close>

definition seen_frames :: "nat \<Rightarrow> 'err receiver_health \<Rightarrow> 'err receiver_health" where
  "seen_frames n h = h\<lparr>rh_frames_received := rh_frames_received h + of_nat n\<rparr>"

lemma handle_prefix:
  assumes "holds_frames (pr_assembler recv) lim t fs" "good_frames lim t (fs @ gs)"
    "map (\<lambda>raw. decode_frame raw (pr_max_frame_payload recv)) raws = map Inr gs"
    "length fs + length gs < unat t"
  shows "\<exists>asm. holds_frames asm lim t (fs @ gs) \<and>
    handle_all env ops recv raws = recv\<lparr>pr_assembler := asm, pr_health := seen_frames (length gs) (pr_health recv)\<rparr>"
  using assms
proof (induction gs arbitrary: fs raws recv)
  case Nil
  then show ?case by (intro exI [of _ "pr_assembler recv"]) (simp add: handle_all_def seen_frames_def)
next
  case (Cons g gs)
  then obtain raw raws' where raws: "raws = raw # raws'" and dec: "decode_frame raw (pr_max_frame_payload recv) = Inr g"
    and rest: "map (\<lambda>raw. decode_frame raw (pr_max_frame_payload recv)) raws' = map Inr gs" by auto
  from good_frames_prefix [of lim t "fs @ [g]" gs] Cons.prems(2) have good: "good_frames lim t (fs @ [g])" by simp
  from accept_next [OF Cons.prems(1) good] obtain asm where
    acc: "accept (pr_assembler recv) g = (Inr (), asm)" and hold: "holds_frames asm lim t (fs @ [g])" by blast
  have "\<not> is_complete asm" using holds_incomplete [OF hold] Cons.prems(4) by simp
  with dec acc have one: "handle_frame_bytes env ops recv raw =
      recv\<lparr>pr_assembler := asm, pr_health := seen_frames 1 (pr_health recv)\<rparr>" (is "_ = ?r")
    by (simp add: handle_frame_bytes_def assemble_frame_def record_health_def seen_frames_def)
  from Cons.IH [of ?r "fs @ [g]" raws'] hold Cons.prems(2,4) rest obtain asm' where
    "holds_frames asm' lim t ((fs @ [g]) @ gs)"
    "handle_all env ops ?r raws' = ?r\<lparr>pr_assembler := asm', pr_health := seen_frames (length gs) (pr_health ?r)\<rparr>"
    by auto
  with one raws show ?case
    by (intro exI [of _ asm']) (simp add: handle_all_def seen_frames_def)
qed

lemma handle_pack:
  assumes fresh: "pr_assembler recv = new_assembler (pr_limits recv)"
    and perm: "mset gs = mset (frames_of cs)"
    and dec: "map (\<lambda>raw. decode_frame raw (pr_max_frame_payload recv)) raws = map Inr gs"
    and size: "0 < length cs" "length cs < 2 ^ 32" "length cs \<le> unat (al_max_chunks (pr_limits recv))"
      "\<forall>c \<in> set cs. length c \<le> al_max_frame_payload (pr_limits recv)"
      "sum_list (map length cs) \<le> al_max_total_bytes (pr_limits recv)"
      "al_max_total_bytes (pr_limits recv) < usize_max"
  shows "handle_all env ops recv raws =
    ingest_assembled env ops (recv\<lparr>pr_health := seen_frames (length cs) (pr_health recv)\<rparr>) (concat cs)"
proof -
  let ?t = "as_u32 (length cs)" and ?lim = "pr_limits recv"
  have good: "good_frames ?lim ?t gs" using good_frames_of perm size by blast
  have len: "length gs = length cs" using perm frames_of_keys(4) [OF size(2)] by (metis size_mset)
  have t: "unat ?t = length cs" using size(2) by (simp add: unat_of_nat)
  obtain gs' g where gs: "gs = gs' @ [g]" using len size(1) by (metis append_butlast_last_id length_0_conv less_nat_zero_code)
  with dec obtain raws' raw where raws: "raws = raws' @ [raw]"
    and dec': "map (\<lambda>raw. decode_frame raw (pr_max_frame_payload recv)) raws' = map Inr gs'"
    and last: "decode_frame raw (pr_max_frame_payload recv) = Inr g"
    by (auto simp: map_eq_append_conv)
  have lc: "length cs = Suc (length gs')" using len gs by simp
  have start: "holds_frames (pr_assembler recv) ?lim ?t []" unfolding fresh by (rule holds_frames_new)
  have good': "good_frames ?lim ?t ([] @ gs')" using good gs good_frames_prefix by auto
  have short: "length [] + length gs' < unat ?t" using len gs t by simp
  from handle_prefix [OF start good' dec' short, of env ops] obtain asm where
    hold: "holds_frames asm ?lim ?t gs'"
    and pre: "handle_all env ops recv raws' = recv\<lparr>pr_assembler := asm, pr_health := seen_frames (length gs') (pr_health recv)\<rparr>"
    by auto
  from accept_next [OF hold, of g] good gs obtain asm' where
    acc: "accept asm g = (Inr (), asm')" and hold': "holds_frames asm' ?lim ?t gs" by auto
  note complete = holds_complete [OF hold' perm size(1,2)]
  have "handle_all env ops recv raws = handle_frame_bytes env ops (handle_all env ops recv raws') raw"
    by (simp add: handle_all_def raws)
  also have "\<dots> = ingest_assembled env ops
      (recv\<lparr>pr_assembler := new_assembler ?lim, pr_health := seen_frames (length cs) (pr_health recv)\<rparr>) (concat cs)"
    unfolding pre using last acc complete lc
    by (cases recv) (simp add: handle_frame_bytes_def assemble_frame_def record_health_def seen_frames_def
        Let_def algebra_simps)
  also have "recv\<lparr>pr_assembler := new_assembler ?lim, pr_health := seen_frames (length cs) (pr_health recv)\<rparr> =
      recv\<lparr>pr_health := seen_frames (length cs) (pr_health recv)\<rparr>"
    using fresh by (cases recv) simp
  finally show ?thesis .
qed


section \<open>The cipher floor of a receiver\<close>

text \<open>No suite of the code reaches a floor above 100, and every suite meets one up to 100.\<close>

lemma handle_below_floor:
  assumes "pr_floor recv = CipherFloor f" "100 < f"
  shows "pr_store (handle_frame_bytes env ops recv raw) = pr_store recv \<and>
    rh_packs_applied (pr_health (handle_frame_bytes env ops recv raw)) = rh_packs_applied (pr_health recv)"
  using assms(1) linorder_class.not_le [THEN iffD2, OF assms(2)]
  by (auto simp: receiver_defs Let_def ingest_pack_def verify_pack_ref_def open_pack_def cipher_strength_eq frame_rejected_def pack_failed_def
      split: sum.splits prod.splits option.splits if_splits)

lemma handle_above_floor:
  assumes "pr_floor recv = CipherFloor f" "f \<le> 100"
  shows "pr_blocked (handle_frame_bytes env ops recv raw) = pr_blocked recv"
  using assms
  by (auto simp: receiver_defs Let_def ingest_pack_def verify_pack_ref_def open_pack_def cipher_strength_eq
      split: sum.splits prod.splits option.splits if_splits)

lemma handle_all_below_floor:
  "pr_floor recv = CipherFloor f \<Longrightarrow> 100 < f \<Longrightarrow> pr_store (handle_all env ops recv raws) = pr_store recv \<and>
    rh_packs_applied (pr_health (handle_all env ops recv raws)) = rh_packs_applied (pr_health recv)"
  by (induction raws arbitrary: recv) (simp_all add: handle_all_def handle_config handle_below_floor)

lemma handle_all_above_floor:
  "pr_floor recv = CipherFloor f \<Longrightarrow> f \<le> 100 \<Longrightarrow> pr_blocked (handle_all env ops recv raws) = pr_blocked recv"
  by (induction raws arbitrary: recv) (simp_all add: handle_all_def handle_config handle_above_floor)

end
