(* ===== verification/Delivery.thy ===== *)
theory Delivery
  imports Pack_Receiver
begin

text \<open>
  The whole path of a pack, from the teacher's selection to the learner's landing
  directory: what the sender puts on the channel decodes, in any order, to the
  frames of the wire chunks; the receiver hands their concatenation to the ingest
  path; and the ingest path applies what the teacher selected.
\<close>

section \<open>From the channel to the frames\<close>

lemma sent_frames_decode:
  assumes enc: "\<forall>j < length cs. encode_frame (as_u32 j) (as_u32 (length cs)) (cs ! j) mx = Ok (fs ! j)"
    and len: "length fs = length cs"
    and size: "\<forall>c \<in> set cs. length c \<le> mx'" "mx' < 2 ^ 32"
  shows "map (\<lambda>raw. decode_frame raw mx') fs = map Inr (frames_of cs)"
proof (rule nth_equalityI)
  fix i
  assume "i < length (map (\<lambda>raw. decode_frame raw mx') fs)"
  then have i: "i < length cs" using len by simp
  have "length (cs ! i) \<le> mx'" using size(1) i by simp
  with decode_encode [of "as_u32 i" "as_u32 (length cs)" "cs ! i" mx "fs ! i" mx'] enc i size(2) len
  show "map (\<lambda>raw. decode_frame raw mx') fs ! i = map Inr (frames_of cs) ! i"
    by (simp add: frames_of_def)
qed (simp add: len frames_of_def)

text \<open>Reordering the messages reorders the decoded frames.\<close>

lemma permuted_frames:
  assumes "map dec fs = map Inr gs" "mset raws = mset fs"
  shows "\<exists>hs. map dec raws = map Inr hs \<and> mset hs = mset gs"
proof -
  let ?hs = "map (projr \<circ> dec) raws"
  have gs: "gs = map (projr \<circ> dec) fs"
    using arg_cong [OF assms(1), of "map projr"] by (simp add: comp_def)
  have "\<forall>raw \<in> set fs. \<exists>g. dec raw = Inr g"
  proof
    fix raw assume "raw \<in> set fs"
    then have "dec raw \<in> set (map dec fs)" by simp
    then show "\<exists>g. dec raw = Inr g" unfolding assms(1) by auto
  qed
  moreover have "set raws = set fs" using assms(2) by (metis set_mset_mset)
  ultimately have "map dec raws = map Inr ?hs" by auto
  moreover have "mset ?hs = mset gs" unfolding gs using assms(2) by simp
  ultimately show ?thesis by blast
qed

lemma send_pack_ref_frames:
  assumes "send_pack_ref env rtc_ops t ref mx = (Inr u, t')" "pack_ref_to_wire_chunks env ref mx = Ok cs"
    "rc_sent (pt_channel t) = []" "mx' < 2 ^ 32" "\<forall>c \<in> set cs. length c \<le> mx'"
  shows "map (\<lambda>raw. decode_frame raw mx') (rc_sent (pt_channel t')) = map Inr (frames_of cs)"
proof -
  from assms(1,2) have "send_from rtc_ops 0 (as_u32 (length cs)) cs t = (Inr (), t')"
    by (auto simp: send_pack_ref_def send_pack_def split: prod.splits)
  from rtc.send_from_prefix [OF this] assms(3) obtain fs where
    fs: "rc_sent (pt_channel t') = fs" "length fs = length cs"
      "\<forall>j < length fs. encode_frame (as_u32 (0 + j)) (as_u32 (length cs)) (cs ! j)
         (sl_max_frame_payload (pt_limits t)) = Ok (fs ! j)"
    by auto
  show ?thesis
    unfolding fs(1) by (rule sent_frames_decode) (use fs assms(4,5) in auto)
qed

section \<open>From the frames to the store\<close>

lemma build_and_seal_OkE:
  assumes "build_and_seal env salt nb blocked sel params ikm sz floor = (Inr (ref, report), blocked')"
  obtains b where "build_pack env sel params = Ok b" "report = bu_report b"
    "meets_cipher_floor (pm_cipher_suite (kp_manifest (bu_pack b))) floor"
    "seal_body env salt nb (bu_pack b) ikm (ppe_teacher_fingerprint (bp_provenance params))
       (ppe_learner_fingerprint (bp_provenance params)) sz = Ok ref"
  using assms
  by (auto simp: build_and_seal_def seal_pack_def Let_def split: sum.splits if_splits prod.splits)

lemma sealed_manifest:
  assumes "seal_body env salt nb k ikm t l sz = Ok ref"
  shows "clear_tags (pr_manifest ref) = clear_tags (kp_manifest k)"
  using assms by (elim seal_body_OkE) simp

lemma clear_tags_fields:
  assumes "clear_tags m = clear_tags n"
  shows "pm_pack_id m = pm_pack_id n" "pm_pack_version m = pm_pack_version n"
    "pm_cipher_suite m = pm_cipher_suite n" "pm_provenance m = pm_provenance n"
    "pm_ttl_expires_at m = pm_ttl_expires_at n"
  using arg_cong [OF assms, of pm_pack_id] arg_cong [OF assms, of pm_pack_version]
    arg_cong [OF assms, of pm_cipher_suite] arg_cong [OF assms, of pm_provenance]
    arg_cong [OF assms, of pm_ttl_expires_at]
  by (simp_all add: clear_tags_def)

text \<open>The learner's verification accepts what the teacher emitted for this pair of peers.\<close>

lemma verify_emitted:
  assumes "aead_correct env" "payload_roundtrips env (fst (select_payload sel params))"
    and emit: "build_and_seal env salt nb blocked sel params ikm sz floor = (Inr (ref, report), blocked')"
    and peers: "binds_fingerprints params (ca_attested_teacher att) (ca_attested_learner att)"
  shows "verify_pack_ref env b ref ikm att floor =
    (Inr \<lparr>kp_manifest = pr_manifest ref, kp_payload = fst (select_payload sel params)\<rparr>, b)"
    and "pm_pack_id (pr_manifest ref) = bp_pack_id params"
    and "pm_pack_version (pr_manifest ref) = bp_pack_version params"
proof -
  from emit obtain bu where bp: "build_pack env sel params = Ok bu"
    and floor: "meets_cipher_floor (pm_cipher_suite (kp_manifest (bu_pack bu))) floor"
    and seal: "seal_body env salt nb (bu_pack bu) ikm (ppe_teacher_fingerprint (bp_provenance params))
       (ppe_learner_fingerprint (bp_provenance params)) sz = Ok ref" by (rule build_and_seal_OkE)
  from bp obtain m where m: "build_manifest env (fst (select_payload sel params)) params = Ok m"
    and pk: "bu_pack bu = \<lparr>kp_manifest = m, kp_payload = fst (select_payload sel params)\<rparr>"
    by (rule build_pack_OkE)
  note tags = clear_tags_fields [OF sealed_manifest [OF seal]]
  note fields = build_manifest_OkD(4-7) [OF m]
  show "pm_pack_id (pr_manifest ref) = bp_pack_id params" "pm_pack_version (pr_manifest ref) = bp_pack_version params"
    using tags pk fields by simp_all
  have "payload_roundtrips env (kp_payload (bu_pack bu))" using assms(2) pk by simp
  from open_seal_body [OF assms(1) this seal] pk
  have op: "open_body env ref ikm (ppe_teacher_fingerprint (bp_provenance params)) (ppe_learner_fingerprint (bp_provenance params)) =
      Ok \<lparr>kp_manifest = pr_manifest ref, kp_payload = fst (select_payload sel params)\<rparr>" by simp
  then have "validate env \<lparr>kp_manifest = pr_manifest ref, kp_payload = fst (select_payload sel params)\<rparr> = Ok ()"
    by (elim open_body_OkE) (simp add: validate_Ok_iff)
  with op floor tags pk fields peers
  show "verify_pack_ref env b ref ikm att floor =
      (Inr \<lparr>kp_manifest = pr_manifest ref, kp_payload = fst (select_payload sel params)\<rparr>, b)"
    by (simp add: verify_pack_ref_def open_pack_def check_attestation_def binds_fingerprints_def)
qed

text \<open>A verified pack that is newer than the ledger lands in a healthy directory.\<close>

lemma ingest_lands:
  assumes "verify_pack_ref env b ref ikm att floor = (Inr pack :: peer_cli_error ingest_error + knowledge_pack, b')"
    and "healthy d" "\<And>a. ledger d (pm_pack_id (kp_manifest pack)) = Some a \<Longrightarrow> a < pm_pack_version (kp_manifest pack)"
  shows "\<exists>d'. ingest_pack env dir_ops b d ref ikm att floor = (Inr (applied_outcome (build_staged pack att)), d', b') \<and> healthy d' \<and>
    ledger d' = (ledger d)(pm_pack_id (kp_manifest pack) \<mapsto> pm_pack_version (kp_manifest pack)) \<and>
    applied d' (pm_pack_id (kp_manifest pack)) (pm_pack_version (kp_manifest pack)) = Some (build_staged pack att)"
proof -
  from dir_apply_healthy [OF assms(2,3)] obtain d' where
    ap: "apply_verified dir_ops d pack att = (Ok (applied_outcome (build_staged pack att)), d')" "healthy d'" by blast
  have ids: "sp_pack_id (build_staged pack att) = pm_pack_id (kp_manifest pack)"
    "sp_pack_version (build_staged pack att) = pm_pack_version (kp_manifest pack)"
    by (simp_all add: build_staged_def)
  from ap(1) have "ledger d' = (ledger d)(pm_pack_id (kp_manifest pack) \<mapsto> pm_pack_version (kp_manifest pack)) \<and>
    applied d' (pm_pack_id (kp_manifest pack)) (pm_pack_version (kp_manifest pack)) = Some (build_staged pack att)"
  proof (cases rule: dir.apply_verified_cases)
    case (applied sp)
    then show ?thesis by (simp add: ids)
  next
    case noop
    then show ?thesis by (simp add: applied_outcome_def noop_outcome_def)
  qed auto
  with ap assms(1) show ?thesis by (simp add: ingest_pack_def)
qed

lemma delivered_pack:
  assumes aead: "aead_correct env" and serde: "payload_roundtrips env (fst (select_payload sel params))"
    and json: "pack_ref_from_slice env (concat cs) = Ok ref"
    and emit: "build_and_seal env salt nb blocked sel params ikm sz floor = (Inr (ref, report), blocked')"
    and peers: "binds_fingerprints params (ca_attested_teacher (pr_attestation recv)) (ca_attested_learner (pr_attestation recv))"
    and wire: "pack_ref_to_wire_chunks env ref mx = Ok cs"
    and send: "send_pack_ref env rtc_ops t ref mx = (Inr (), t')" "rc_sent (pt_channel t) = []"
    and perm: "mset raws = mset (rc_sent (pt_channel t'))"
    and recv: "pr_assembler recv = new_assembler (pr_limits recv)" "pr_ikm recv = ikm" "pr_floor recv = floor"
    and store: "healthy (pr_store recv)"
      "\<And>a. ledger (pr_store recv) (bp_pack_id params) = Some a \<Longrightarrow> a < bp_pack_version params"
    and size: "0 < length cs" "length cs < 2 ^ 32" "length cs \<le> unat (al_max_chunks (pr_limits recv))"
      "mx \<le> al_max_frame_payload (pr_limits recv)" "mx \<le> pr_max_frame_payload recv"
      "pr_max_frame_payload recv < 2 ^ 32" "sum_list (map length cs) \<le> al_max_total_bytes (pr_limits recv)"
      "al_max_total_bytes (pr_limits recv) < usize_max"
  defines "recv' \<equiv> handle_all env dir_ops recv raws"
  shows "ledger (pr_store recv') = (ledger (pr_store recv))(bp_pack_id params \<mapsto> bp_pack_version params)"
    and "applied (pr_store recv') (bp_pack_id params) (bp_pack_version params) =
      Some (build_staged \<lparr>kp_manifest = pr_manifest ref, kp_payload = fst (select_payload sel params)\<rparr>
        (pr_attestation recv))"
    and "pr_health recv' = (seen_frames (length cs) (pr_health recv))
      \<lparr>rh_packs_applied := rh_packs_applied (pr_health recv) + 1\<rparr>"
proof -
  let ?pack = "\<lparr>kp_manifest = pr_manifest ref, kp_payload = fst (select_payload sel params)\<rparr>"
  let ?att = "pr_attestation recv"
  have small: "\<forall>c \<in> set cs. length c \<le> mx"
    using wire chunks_of_bound by (auto simp: pack_ref_to_wire_chunks_def split: if_splits)
  have "map (\<lambda>raw. decode_frame raw (pr_max_frame_payload recv)) (rc_sent (pt_channel t')) = map Inr (frames_of cs)"
    by (rule send_pack_ref_frames [OF send(1) wire send(2) size(6)]) (use small size(5) in auto)
  from permuted_frames [OF this perm] obtain gs where
    gs: "map (\<lambda>raw. decode_frame raw (pr_max_frame_payload recv)) raws = map Inr gs" "mset gs = mset (frames_of cs)"
    by blast
  let ?r = "recv\<lparr>pr_health := seen_frames (length cs) (pr_health recv)\<rparr>"
  have handled: "recv' = ingest_assembled env dir_ops ?r (concat cs)"
    unfolding recv'_def
    by (rule handle_pack [OF recv(1) gs(2,1) size(1-3)]) (use small size in auto)
  note ver = verify_emitted [OF aead serde emit peers]
  from ingest_lands [OF ver(1) store(1)] store(2) ver(2,3) obtain d' where
    ing: "ingest_pack env dir_ops (pr_blocked recv) (pr_store recv) ref ikm ?att floor =
        (Inr (applied_outcome (build_staged ?pack ?att)), d', pr_blocked recv)"
    and led: "ledger d' = (ledger (pr_store recv))(bp_pack_id params \<mapsto> bp_pack_version params)"
    and app: "applied d' (bp_pack_id params) (bp_pack_version params) = Some (build_staged ?pack ?att)"
    by auto
  have fin: "pr_store recv' = d'" "pr_health recv' = (seen_frames (length cs) (pr_health recv))
      \<lparr>rh_packs_applied := rh_packs_applied (pr_health recv) + 1\<rparr>"
    using ing recv(2,3) by (simp_all add: handled ingest_assembled_def json seen_frames_def)
  then show "ledger (pr_store recv') = (ledger (pr_store recv))(bp_pack_id params \<mapsto> bp_pack_version params)"
    "applied (pr_store recv') (bp_pack_id params) (bp_pack_version params) = Some (build_staged ?pack ?att)"
    "pr_health recv' = (seen_frames (length cs) (pr_health recv))
      \<lparr>rh_packs_applied := rh_packs_applied (pr_health recv) + 1\<rparr>"
    using led app by simp_all
qed


section \<open>What the delivered unit holds\<close>

text \<open>The unit the learner publishes, in terms of the selection: only the teaching items of the pack have no place in it.\<close>

lemma emitted_unit:
  assumes emit: "build_and_seal env salt nb blocked sel params ikm sz floor = (Inr (ref, report), blocked')"
  shows "build_staged \<lparr>kp_manifest = pr_manifest ref, kp_payload = fst (select_payload sel params)\<rparr> att =
    \<lparr>sp_pack_id = bp_pack_id params, sp_pack_version = bp_pack_version params, sp_entities = ts_entities sel,
     sp_folds = map (\<lambda>f. if bp_summary_first params then f\<lparr>fe_raw_trajectory := []\<rparr> else f) (ts_folds sel),
     sp_temporal = filter (\<lambda>t. te_entity_id t \<in> ee_entity_id ` set (ts_entities sel)) (ts_temporal sel),
     sp_edges = filter (\<lambda>e. {ed_src_id e, ed_dst_id e} \<subseteq> ee_entity_id ` set (ts_entities sel)) (ts_edges sel),
     sp_provenance = map (\<lambda>p. p\<lparr>mp_remote_id := ca_remote_id att\<rparr>) (ts_provenance_rows sel),
     sp_ttl_expires_at = bp_ttl_expires_at params, sp_remote_id = ca_remote_id att\<rparr>"
proof -
  from emit obtain bu where bp: "build_pack env sel params = Ok bu"
    and seal: "seal_body env salt nb (bu_pack bu) ikm (ppe_teacher_fingerprint (bp_provenance params))
       (ppe_learner_fingerprint (bp_provenance params)) sz = Ok ref" by (rule build_and_seal_OkE)
  from bp obtain m where m: "build_manifest env (fst (select_payload sel params)) params = Ok m"
    and pk: "bu_pack bu = \<lparr>kp_manifest = m, kp_payload = fst (select_payload sel params)\<rparr>"
    by (rule build_pack_OkE)
  note tags = clear_tags_fields [OF sealed_manifest [OF seal]] and fields = build_manifest_OkD [OF m]
  have "f\<lparr>fe_raw_trajectory := []\<rparr> = f" if "fe_raw_trajectory f = []" for f :: fold_entry
    using that by (cases f) simp
  then show ?thesis using tags pk fields
    by (auto simp: build_staged_def select_payload_eq inside_selection_def intro!: map_cong filter_cong)
qed

end
