(* ===== verification/Sample_Env.thy ===== *)
theory Sample_Env
  imports Delivery
begin

text \<open>
  A concrete instance of everything the pack path takes as a parameter, on which
  the witnesses evaluate the definitions: a one-entity selection with an edge that
  leaves it, an item whose body summary-first mode strips, and a cipher that
  appends a constant tag. It stands for no cryptographic strength; it only shows
  that the hypotheses of the properties can hold together.
\<close>

definition sample_teacher :: public_key_fingerprint where
  "sample_teacher = PublicKeyFingerprint ''t''"

definition sample_learner :: public_key_fingerprint where
  "sample_learner = PublicKeyFingerprint ''l''"

definition sample_entity :: entity_entry where
  "sample_entity = \<lparr>ee_tenant_id = 1, ee_entity_id = 5, ee_session_id = 2, ee_entity_name = ''e'',
     ee_entity_type = ''tool'', ee_source_fold_id = None, ee_context_snippet = [],
     ee_entity_embedding = None, ee_confidence = 0, ee_state = MemActive, ee_created_at = 0,
     ee_description = None, ee_description_embedding = None, ee_tags = [], ee_properties = JNull,
     ee_content_hash = None, ee_updated_at = None, ee_scope = ScopeSession, ee_ingested_by_session = None\<rparr>"

definition sample_edge :: "uuid \<Rightarrow> typed_edge" where
  "sample_edge dst = \<lparr>ed_tenant_id = 1, ed_session_id = 2, ed_src_id = 5, ed_edge_type = ''uses'',
     ed_dst_id = dst, ed_weight = 0, ed_metadata = None, ed_created_at = 0\<rparr>"

definition sample_item :: "string option \<Rightarrow> teaching_item" where
  "sample_item body = \<lparr>ti_item_id = 8, ti_packet_id = 9, ti_kind = TkFact, ti_title = ''t'', ti_summary = ''s'',
     ti_body = body, ti_content_hash = ContentHash [],
     ti_applicability = \<lparr>af_namespaces = [], af_host_os = None, af_container_runtime = None, af_hardware = [],
       af_required_tags = [], af_excluded_tags = [], af_confidence = 0\<rparr>,
     ti_safety = \<lparr>sc_risk = RiskNone, sc_reasons = [], sc_redacted = False, sc_requires_human = False\<rparr>,
     ti_detail_ref = None, ti_metadata = JNull, ti_created_at = 0\<rparr>"

definition sample_provenance_row :: "uuid \<Rightarrow> memory_provenance" where
  "sample_provenance_row remote = \<lparr>mp_provenance_id = 3, mp_local_entity_id = 5, mp_remote_id = remote,
     mp_packet_id = 9, mp_item_id = 8, mp_content_hash = ContentHash [], mp_signature_hash = ContentHash [],
     mp_imported_at = 0\<rparr>"

definition sample_selection :: teacher_selection where
  "sample_selection = \<lparr>ts_entities = [sample_entity], ts_folds = [], ts_temporal = [],
     ts_edges = [sample_edge 5, sample_edge 6], ts_items = [sample_item (Some ''body'')],
     ts_provenance_rows = [sample_provenance_row 99]\<rparr>"

definition sample_payload :: pack_payload where
  "sample_payload = \<lparr>pp_entities = [sample_entity], pp_folds = [], pp_temporal = [],
     pp_edges = [sample_edge 5], pp_items = [sample_item None],
     pp_provenance_rows = [sample_provenance_row 99]\<rparr>"

definition sample_params :: pack_build_params where
  "sample_params = \<lparr>bp_pack_id = 77, bp_pack_version = 4, bp_cipher_suite = ChaCha20Poly1305,
     bp_engine_version = ''1'', bp_embedding_model = ''m'', bp_embedding_dim = 3, bp_summary_first = True,
     bp_created_at = 10, bp_ttl_expires_at = Some 20,
     bp_provenance = \<lparr>ppe_teacher_instance_id = InstanceId 1, ppe_teacher_fingerprint = sample_teacher,
       ppe_learner_fingerprint = sample_learner, ppe_request_id = None, ppe_source_namespace = ''n''\<rparr>\<rparr>"

definition sample_manifest :: pack_manifest where
  "sample_manifest = \<lparr>pm_pack_id = 77, pm_schema_version = PACK_SCHEMA_VERSION, pm_pack_version = 4,
     pm_declared_size_bytes = 3, pm_entity_count = 1, pm_fold_count = 0, pm_temporal_count = 0,
     pm_edge_count = 1, pm_item_count = 1,
     pm_entities_hash = ContentHash ''07'', pm_folds_hash = ContentHash ''07'',
     pm_temporal_hash = ContentHash ''07'', pm_edges_hash = ContentHash ''07'',
     pm_items_hash = ContentHash ''07'', pm_chunk_macs = [], pm_pack_mac = None,
     pm_cipher_suite = ChaCha20Poly1305, pm_engine_version = ''1'', pm_embedding_model = ''m'',
     pm_embedding_dim = 3, pm_provenance = bp_provenance sample_params, pm_created_at = 10,
     pm_ttl_expires_at = Some 20, pm_summary_first = True\<rparr>"

text \<open>The payload \<open>[10, 20, 30]\<close> in chunks of two, each followed by a tag of 16 zero bytes.\<close>

definition sample_ref :: pack_ref where
  "sample_ref =
     \<lparr>pr_manifest = sample_manifest\<lparr>pm_chunk_macs := [ChunkMac (replicate 16 0), ChunkMac (replicate 16 0)],
        pm_pack_mac := Some (PackMac [7])\<rparr>,
      pr_kdf_salt = [1],
      pr_chunks = [\<lparr>sc_ciphertext = [10, 20] @ replicate 16 0, sc_nonce = [0, 0, 0, 0, 0, 0, 0, 6, 0, 0, 0, 0]\<rparr>,
                   \<lparr>sc_ciphertext = [30] @ replicate 16 0, sc_nonce = [0, 0, 0, 0, 0, 0, 0, 6, 0, 0, 0, 1]\<rparr>]\<rparr>"

definition sample_env :: wire_env where
  "sample_env =
     \<lparr>sha256 = (\<lambda>_. [7]), json_to_vec = (\<lambda>_. Ok [0]),
      entities_to_value = (\<lambda>_. Ok JNull), folds_to_value = (\<lambda>_. Ok JNull),
      temporal_to_value = (\<lambda>_. Ok JNull), edges_to_value = (\<lambda>_. Ok JNull), items_to_value = (\<lambda>_. Ok JNull),
      identity_error_text = (\<lambda>_. []), manifest_to_vec = (\<lambda>_. Ok [42]),
      payload_to_vec = (\<lambda>_. Ok [10, 20, 30]),
      payload_from_slice = (\<lambda>bs. if bs = [10, 20, 30] then Ok sample_payload else Err ''parse''),
      hkdf_sha256 = (\<lambda>_ _ _ n. Ok (replicate n 9)), aead_new = (\<lambda>_ _. True),
      aead_encrypt = (\<lambda>_ _ _ msg _. Some (msg @ replicate 16 0)),
      aead_decrypt = (\<lambda>_ _ _ ct _. if 16 \<le> length ct then Some (take (length ct - 16) ct) else None),
      pack_ref_to_vec = (\<lambda>_. Ok [1, 2, 3, 4, 5]),
      pack_ref_from_slice = (\<lambda>bs. if bs = [1, 2, 3, 4, 5] then Ok sample_ref else Err ''parse'')\<rparr>"

definition sample_ikm :: secret where "sample_ikm = Secret [4]"

definition sample_attestation :: channel_attestation where
  "sample_attestation = \<lparr>ca_attested_teacher = sample_teacher, ca_attested_learner = sample_learner,
     ca_remote_id = 55\<rparr>"

section \<open>The sample evaluates\<close>

lemma sample_aead: "aead_correct sample_env"
  by (simp add: aead_correct_def sample_env_def)

lemma sample_select: "fst (select_payload sample_selection sample_params) = sample_payload"
  by (simp add: select_payload_def sample_selection_def sample_params_def sample_payload_def sample_entity_def
      sample_edge_def sample_item_def)

lemma sample_serde: "payload_roundtrips sample_env sample_payload"
  by (simp add: payload_roundtrips_def sample_env_def)

lemma sample_hash: "sha256_json sample_env f x = and_then (map_err RiSerde (f x)) (\<lambda>_. Ok (ContentHash ''07''))"
  by (simp add: sha256_json_def sample_env_def sha256_bytes_def hex_encode_def hex_byte_def hex_chars_def and_then_def
      split: sum.splits)

lemma sample_manifest_built: "build_manifest sample_env sample_payload sample_params = Ok sample_manifest"
  apply (simp add: build_manifest_def hash_section_def sample_hash sample_manifest_def)
  apply (simp add: sample_env_def sample_payload_def sample_params_def)
  done

lemma sample_section_hashes:
  "compute_section_hashes sample_env sample_payload = Ok (manifest_hashes sample_manifest)"
  apply (simp add: compute_section_hashes_def sample_hash manifest_hashes_def sample_manifest_def)
  apply (simp add: sample_env_def)
  done

lemma sample_well_formed: "pack_well_formed sample_env \<lparr>kp_manifest = sample_manifest, kp_payload = sample_payload\<rparr>"
proof -
  have "counts_bounded sample_manifest" "ttl_future sample_manifest"
    by (simp_all add: counts_bounded_def ttl_future_def sample_manifest_def MAX_PACK_ELEMENTS_def MAX_PACK_SIZE_BYTES_def)
  moreover have "counts_agree sample_manifest sample_payload" "embeddings_agree (pm_embedding_dim sample_manifest) sample_payload"
    "edges_closed sample_payload" "pm_schema_version sample_manifest = PACK_SCHEMA_VERSION"
    by (simp_all add: counts_agree_def embeddings_agree_def edges_closed_def embedding_ok_def sample_manifest_def
        sample_payload_def sample_entity_def sample_edge_def)
  ultimately show ?thesis
    by (simp add: pack_well_formed_def sample_section_hashes)
qed

lemma sample_built:
  "build_pack sample_env sample_selection sample_params =
     Ok \<lparr>bu_pack = \<lparr>kp_manifest = sample_manifest, kp_payload = sample_payload\<rparr>,
         bu_report = snd (select_payload sample_selection sample_params)\<rparr>"
  using sample_select sample_well_formed
  by (simp add: build_pack_def split_beta sample_manifest_built validate_Ok_iff Let_def)

lemma sample_env_fields:
  "payload_to_vec sample_env p = Ok [10, 20, 30]" "manifest_to_vec sample_env m = Ok [42]"
  "hkdf_sha256 sample_env salt k info n = Ok (replicate n 9)" "sha256 sample_env bs = [7]"
  by (simp_all add: sample_env_def)

lemma sample_cipher: "pm_cipher_suite sample_manifest = ChaCha20Poly1305"
  by (simp add: sample_manifest_def)

lemma sample_sealed_body:
  "seal_body sample_env [1] 6 \<lparr>kp_manifest = sample_manifest, kp_payload = sample_payload\<rparr> sample_ikm
     sample_teacher sample_learner 2 = Ok sample_ref"
proof -
  have valid: "validate sample_env \<lparr>kp_manifest = sample_manifest, kp_payload = sample_payload\<rparr> = Ok ()"
    using sample_well_formed by (simp add: validate_Ok_iff)
  have loop: "seal_chunks sample_env ChaCha20Poly1305 (Secret (replicate 32 9)) 6 [10, 20, 30] 2 [42] [0, 1] =
    Ok (pr_chunks sample_ref, [ChunkMac (replicate 16 0), ChunkMac (replicate 16 0)],
        [10, 20] @ replicate 16 0 @ [30] @ replicate 16 0)"
    by (simp add: chunk_nonce_def MAX_CHUNKS_PER_PACK_def encrypt_chunk_def secret_len_def CONTENT_KEY_LEN_def
        chunk_slice_def get_range_def extract_tag_def sample_env_def sample_ref_def
        u64_to_be_bytes_def u32_to_be_bytes_def word_le_nat_alt)
  have n: "max (div_ceil (Suc (Suc (Suc 0))) (Suc (Suc 0))) (Suc 0) = Suc (Suc 0)"
    by code_simp
  have two: "2 = Suc (Suc 0)" "1 = Suc 0" by simp_all
  have "seal_body sample_env [1] 6 \<lparr>kp_manifest = sample_manifest, kp_payload = sample_payload\<rparr> sample_ikm
      sample_teacher sample_learner 2 =
    Ok \<lparr>pr_manifest = sample_manifest\<lparr>pm_chunk_macs := [ChunkMac (replicate 16 0), ChunkMac (replicate 16 0)],
        pm_pack_mac := Some (PackMac [7])\<rparr>, pr_kdf_salt = [1], pr_chunks = pr_chunks sample_ref\<rparr>"
    by (simp add: seal_body_def valid sample_env_fields sample_cipher derive_content_key_def manifest_aad_def
        n loop [unfolded two] Let_def ensure_def CONTENT_KEY_LEN_def MAX_CHUNKS_PER_PACK_def word_less_nat_alt
        del: seal_chunks.simps and_then_eq_Ok map_ok_eq_Ok)
  then show ?thesis by (simp add: sample_ref_def)
qed

lemma sample_emitted:
  "build_and_seal sample_env [1] 6 0 sample_selection sample_params sample_ikm 2 default_cipher_floor =
     (Ok (sample_ref, snd (select_payload sample_selection sample_params)), 0)"
proof -
  have "ppe_teacher_fingerprint (bp_provenance sample_params) = sample_teacher"
    "ppe_learner_fingerprint (bp_provenance sample_params) = sample_learner"
    by (simp_all add: sample_params_def)
  then show ?thesis
    by (simp add: build_and_seal_def sample_built seal_pack_def sample_sealed_body)
qed

lemma sample_peers: "binds_fingerprints sample_params sample_teacher sample_learner"
  by (simp add: binds_fingerprints_def sample_params_def)

section \<open>A channel and a receiver\<close>

definition sample_transport :: "rtc_channel peer_transport" where
  "sample_transport =
     \<lparr>pt_channel = \<lparr>rc_open = True, rc_moments = [], rc_refusals = [], rc_sent = []\<rparr>, pt_state = Open,
      pt_limits = \<lparr>sl_max_buffered_bytes = 100, sl_max_frame_payload = 3, sl_max_chunks = 10\<rparr>,
      pt_sent_chunks = 0, pt_sent_bytes = 0\<rparr>"

definition sample_store :: dir_store where
  "sample_store = \<lparr>ds_files = Map.empty, ds_faults = []\<rparr>"

definition sample_limits :: assembler_limits where
  "sample_limits = \<lparr>al_max_chunks = 10, al_max_total_bytes = 100, al_max_frame_payload = 3\<rparr>"

definition sample_receiver :: "(dir_store, peer_cli_error) pack_receiver" where
  "sample_receiver = new_receiver sample_store sample_ikm sample_attestation default_cipher_floor sample_limits 3 0"

text \<open>The two messages of \<open>sample_ref\<close> in frames of at most three bytes.\<close>

definition sample_frame_0 :: bytes where
  "sample_frame_0 = [70, 77, 80, 49, 1, 0, 0, 0, 0, 0, 0, 0, 2, 0, 0, 0, 3, 1, 2, 3]"

definition sample_frame_1 :: bytes where
  "sample_frame_1 = [70, 77, 80, 49, 1, 0, 0, 0, 1, 0, 0, 0, 2, 0, 0, 0, 2, 4, 5]"

lemma sample_chunks: "pack_ref_to_wire_chunks sample_env sample_ref 3 = Ok [[1, 2, 3], [4, 5]]"
  by (simp add: pack_ref_to_wire_chunks_def sample_env_def chunks_of.simps)

lemma sample_sent:
  "send_pack_ref sample_env rtc_ops sample_transport sample_ref 3 =
     (Ok (), sample_transport
       \<lparr>pt_channel := (pt_channel sample_transport)\<lparr>rc_sent := [sample_frame_0, sample_frame_1]\<rparr>,
        pt_state := DataFlow, pt_sent_chunks := 2, pt_sent_bytes := 5\<rparr>)"
  by (simp add: send_pack_ref_def sample_chunks send_pack_def send_chunk_def send_gate_def encode_frame_def
      sample_transport_def rtc_ops_def rtc_wait_buffered_below_def wait_loop.simps [of max_waits] buffered_amount_def
      rtc_send_def commit_sent_def word_sat_add_def FRAME_MAGIC_def FRAME_VERSION_def u32_to_be_bytes_def
      sample_frame_0_def sample_frame_1_def ensure_def word_le_nat_alt)

section \<open>The sample is ingested\<close>

abbreviation sample_pack :: knowledge_pack where
  "sample_pack \<equiv> \<lparr>kp_manifest = pr_manifest sample_ref, kp_payload = sample_payload\<rparr>"

lemma sample_verified:
  "verify_pack_ref sample_env b sample_ref sample_ikm sample_attestation default_cipher_floor = (Inr sample_pack, b)"
  "pm_pack_id (pr_manifest sample_ref) = 77" "pm_pack_version (pr_manifest sample_ref) = 4"
proof -
  have peers: "binds_fingerprints sample_params (ca_attested_teacher sample_attestation) (ca_attested_learner sample_attestation)"
    using sample_peers by (simp add: sample_attestation_def)
  show "verify_pack_ref sample_env b sample_ref sample_ikm sample_attestation default_cipher_floor = (Inr sample_pack, b)"
    using verify_emitted(1) [OF sample_aead _ sample_emitted peers] sample_serde by (simp add: sample_select)
qed (simp_all add: sample_ref_def sample_manifest_def)

lemma sample_ingested:
  "\<exists>d'. ingest_pack sample_env dir_ops b sample_store sample_ref sample_ikm sample_attestation default_cipher_floor =
      (Ok (applied_outcome (build_staged sample_pack sample_attestation)), d', b) \<and> healthy d'"
  using ingest_lands [OF sample_verified(1), of sample_store b]
  by (force simp: healthy_def ledger_def sample_store_def)

text \<open>The same pack against a ledger that is ahead of it.\<close>

lemma sample_replayed:
  "ingest_pack sample_env dir_ops b \<lparr>ds_files = [VersionsPath \<mapsto> VersionsJson [77 \<mapsto> 9]], ds_faults = []\<rparr>
     sample_ref sample_ikm sample_attestation default_cipher_floor =
     (Err (ReplayRejected 77 4 9), \<lparr>ds_files = [VersionsPath \<mapsto> VersionsJson [77 \<mapsto> 9]], ds_faults = []\<rparr>, b)"
  by (simp add: ingest_pack_def sample_verified apply_verified_def dir_last_applied_version_def Let_def
      read_versions_healthy healthy_def ledger_def word_less_nat_alt)

section \<open>A refused build\<close>

definition late_params :: pack_build_params where
  "late_params = sample_params\<lparr>bp_ttl_expires_at := Some 5\<rparr>"

definition late_manifest :: pack_manifest where
  "late_manifest = sample_manifest\<lparr>pm_ttl_expires_at := Some 5\<rparr>"

lemma late_manifest_built: "build_manifest sample_env sample_payload late_params = Ok late_manifest"
  apply (simp add: build_manifest_def hash_section_def sample_hash sample_manifest_def late_manifest_def)
  apply (simp add: sample_env_def sample_payload_def late_params_def sample_params_def)
  done

lemma late_refused:
  "build_pack sample_env sample_selection late_params = Err (BuildInvalid (TtlNotInFuture 10 5))"
proof -
  let ?k = "\<lparr>kp_manifest = late_manifest, kp_payload = sample_payload\<rparr>"
  have sel: "fst (select_payload sample_selection late_params) = sample_payload"
    using sample_select by (simp add: select_payload_def late_params_def)
  have same: "counts_bounded late_manifest = counts_bounded sample_manifest"
    "counts_agree late_manifest = counts_agree sample_manifest" "manifest_hashes late_manifest = manifest_hashes sample_manifest"
    "pm_embedding_dim late_manifest = pm_embedding_dim sample_manifest"
    "pm_schema_version late_manifest = pm_schema_version sample_manifest"
    by (simp_all add: late_manifest_def counts_bounded_def counts_agree_def manifest_hashes_def fun_eq_iff)
  have "validate_schema_version ?k = Ok ()" "validate_bounds ?k = Ok ()" "validate_counts ?k = Ok ()"
    "validate_embeddings ?k = Ok ()" "validate_hashes sample_env ?k = Ok ()" "validate_edge_closure ?k = Ok ()"
    using sample_well_formed by (simp_all add: validate_steps_Ok pack_well_formed_def same)
  moreover have "validate_ttl ?k = Err (TtlNotInFuture 10 5)"
    by (simp add: validate_ttl_def late_manifest_def sample_manifest_def)
  ultimately have "validate sample_env ?k = Err (TtlNotInFuture 10 5)" by (simp add: validate_def)
  then show ?thesis by (simp add: build_pack_def split_beta sel late_manifest_built Let_def)
qed

end
