(* ===== verification/Device_Key.thy ===== *)
theory Device_Key
  imports Remote_Identity
begin

text \<open>
  The device key file of \<open>ferrosa-memory-sync/src/peer_cli.rs\<close>: the identity's secret
  as 64 hexadecimal digits, written by \<open>keygen\<close> and read back by \<open>load_identity\<close>.
  The file's JSON text is kept as the record it encodes; a \<open>String\<close> is its UTF-8 bytes.
\<close>

record device_key_file =
  dk_instance_id :: uuid
  dk_secret_hex :: bytes

datatype key_file_error = KeyFile string

section \<open>The hexadecimal codec\<close>

text \<open>\<open>write!(s, "{b:02x}")\<close> for every byte.\<close>

definition hex_nibble :: "u8 \<Rightarrow> u8" where
  "hex_nibble n = (if n < 10 then n + 48 else n + 87)"

definition cli_hex_encode :: "bytes \<Rightarrow> bytes" where
  "cli_hex_encode bs = foldl (\<lambda>s b. s @ [hex_nibble (drop_bit 4 b), hex_nibble (b AND 15)]) [] bs"

definition hex_digit :: "u8 \<Rightarrow> u8 option" where
  "hex_digit c =
     (if 48 \<le> c \<and> c \<le> 57 then Some (c - 48)
      else if 97 \<le> c \<and> c \<le> 102 then Some (c - 97 + 10)
      else if 65 \<le> c \<and> c \<le> 70 then Some (c - 65 + 10)
      else None)"

fun parse_pairs :: "bytes \<Rightarrow> bytes option" where
  "parse_pairs (h # l # rest) =
     (case hex_digit h of None \<Rightarrow> None
      | Some hi \<Rightarrow> (case hex_digit l of None \<Rightarrow> None
        | Some lo \<Rightarrow> (case parse_pairs rest of None \<Rightarrow> None
          | Some out \<Rightarrow> Some ((push_bit 4 hi OR lo) # out))))"
| "parse_pairs _ = Some []"

definition parse_hex32 :: "bytes \<Rightarrow> bytes option" where
  "parse_hex32 hex = (if length hex \<noteq> 64 then None else parse_pairs hex)"

section \<open>Writing and reading the key file\<close>

definition key_file_of :: "uuid \<Rightarrow> bytes \<Rightarrow> device_key_file" where
  "key_file_of instance secret = \<lparr>dk_instance_id = instance, dk_secret_hex = cli_hex_encode secret\<rparr>"

definition load_identity :: "device_key_file \<Rightarrow> key_file_error + instance_signing_identity" where
  "load_identity file =
     and_then (ok_or (parse_hex32 (dk_secret_hex file)) (KeyFile ''secret must be 64 hex chars'')) (\<lambda>secret.
       Ok \<lparr>isi_instance_id = InstanceId (dk_instance_id file), isi_signing_key = secret\<rparr>)"

section \<open>The codec is exact\<close>

lemma cli_hex_encode_Nil [simp]: "cli_hex_encode [] = []"
  by (simp add: cli_hex_encode_def)

lemma foldl_append_pairs: "foldl (\<lambda>s b. s @ f b) acc bs = acc @ concat (map f bs)"
  by (induction bs arbitrary: acc) auto

lemma cli_hex_encode_Cons [simp]:
  "cli_hex_encode (b # bs) = hex_nibble (drop_bit 4 b) # hex_nibble (b AND 15) # cli_hex_encode bs"
  by (simp add: cli_hex_encode_def foldl_append_pairs)

lemma length_cli_hex_encode [simp]: "length (cli_hex_encode bs) = 2 * length bs"
  by (induction bs) auto

lemma hex_digit_nibble: "n < 16 \<Longrightarrow> hex_digit (hex_nibble n) = Some n"
proof -
  assume "n < 16"
  then have n: "unat n < 16" by (simp add: word_less_nat_alt)
  show ?thesis
  proof (cases "n < 10")
    case True
    then have "unat n < 10" by (simp add: word_less_nat_alt)
    then have u: "unat (n + 48) = unat n + 48" by (subst unat_add_lem [THEN iffD1]) auto
    with True \<open>unat n < 10\<close> show ?thesis
      by (simp add: hex_nibble_def hex_digit_def word_le_nat_alt)
  next
    case False
    then have ge: "10 \<le> unat n" by (simp add: word_less_nat_alt)
    from n have u: "unat (n + 87) = unat n + 87" by (subst unat_add_lem [THEN iffD1]) auto
    with False n ge show ?thesis
      by (simp add: hex_nibble_def hex_digit_def word_le_nat_alt)
  qed
qed

lemma nibbles_small: "drop_bit 4 (b :: u8) < 16" "(b AND 15 :: u8) < 16"
  using nibble_bounds [of b] by (simp_all add: word_less_nat_alt)

lemma nibbles_join: "push_bit 4 (drop_bit 4 b) OR (b AND 15) = (b :: u8)"
proof -
  have "(b AND 15) = take_bit 4 b" by (simp add: take_bit_eq_mask mask_eq_exp_minus_1)
  then show ?thesis by (auto simp: bit_simps intro!: bit_word_eqI)
qed

lemma parse_pairs_encode: "parse_pairs (cli_hex_encode bs) = Some bs"
  by (induction bs) (simp_all add: hex_digit_nibble nibbles_small nibbles_join)

lemma parse_hex32_encode: "length bs = 32 \<Longrightarrow> parse_hex32 (cli_hex_encode bs) = Some bs"
  by (simp add: parse_hex32_def parse_pairs_encode)

lemma parse_pairs_length: "parse_pairs hex = Some bs \<Longrightarrow> length bs = length hex div 2"
  by (induction hex arbitrary: bs rule: parse_pairs.induct) (auto split: option.splits)

lemma parse_hex32_length: "parse_hex32 hex = Some bs \<Longrightarrow> length bs = 32"
  by (auto simp: parse_hex32_def parse_pairs_length split: if_splits)

section \<open>Property\<close>

text \<open>The secret that \<open>keygen\<close> writes as hexadecimal is the secret \<open>load_identity\<close> reads back,
  for every 32-byte secret, and whatever \<open>load_identity\<close> accepts is a 32-byte secret.\<close>

theorem key_file_roundtrip:
  assumes "length secret = 32"
  shows "load_identity (key_file_of i secret) = Ok \<lparr>isi_instance_id = InstanceId i, isi_signing_key = secret\<rparr> \<and>
    (\<forall>file ident. load_identity file = Ok ident \<longrightarrow> length (isi_signing_key ident) = 32)"
  using assms by (auto simp: load_identity_def key_file_of_def parse_hex32_encode dest: parse_hex32_length)

theorem key_file_roundtrip_witness:
  "load_identity (key_file_of 7 (replicate 32 171)) = Ok \<lparr>isi_instance_id = InstanceId 7, isi_signing_key = replicate 32 171\<rparr>"
  by (rule key_file_roundtrip [THEN conjunct1]) simp

end
