(* ===== verification/Float64.thy ===== *)
theory Float64
  imports Complex_Main
begin

text \<open>
  The binary64 arithmetic the rule engine computes with. A number is NaN, an infinity or a rational;
  a result is the exact rational rounded to the nearest representable one, ties to even, overflowing to an
  infinity. The sign of zero and the payload of a NaN are not kept: \<open>OrderedFloat\<close>, by which the engine
  compares and stores numbers, identifies the two zeros and all NaNs. The engine's uses of the
  standard library's \<open>f64\<close> are defined here; \<open>powf\<close> has no specified precision and stays a parameter
  where it is called.
\<close>

datatype f64 = NaN | Infinite bool | Fin rat

datatype ordering = Less | Equal | Greater

section \<open>Rounding\<close>

definition two_power :: "int \<Rightarrow> rat" where
  "two_power k = (if 0 \<le> k then 2 ^ nat k else 1 / 2 ^ nat (- k))"

text \<open>The exponent of a positive integer.\<close>

function ilog :: "int \<Rightarrow> int" where
  "ilog n = (if n \<le> 1 then 0 else 1 + ilog (n div 2))"
  by pat_completeness auto
termination
  by (relation "measure nat") auto

declare ilog.simps [simp del]

text \<open>The exponent of a positive rational: the greatest \<open>k\<close> with \<open>2 ^ k \<le> r\<close>.\<close>

definition exponent :: "rat \<Rightarrow> int" where
  "exponent r =
     (let (a, b) = quotient_of r; k = ilog a - ilog b
      in if two_power k \<le> r then k else k - 1)"

definition round_half_even :: "rat \<Rightarrow> int" where
  "round_half_even q =
     (let n = \<lfloor>q\<rfloor>; d = q - of_int n in
      if d < 1 / 2 then n else if d > 1 / 2 then n + 1 else if even n then n else n + 1)"

definition round64 :: "rat \<Rightarrow> f64" where
  "round64 r =
     (if r = 0 then Fin 0
      else let e = max (exponent \<bar>r\<bar> - 52) (- 1074);
               v = of_int (round_half_even (r / two_power e)) * two_power e
           in if two_power 1024 \<le> \<bar>v\<bar> then Infinite (r < 0) else Fin v)"

section \<open>Operations\<close>

fun f64_neg :: "f64 \<Rightarrow> f64" where
  "f64_neg NaN = NaN"
| "f64_neg (Infinite s) = Infinite (\<not> s)"
| "f64_neg (Fin r) = Fin (- r)"

fun f64_add :: "f64 \<Rightarrow> f64 \<Rightarrow> f64" where
  "f64_add (Fin a) (Fin b) = round64 (a + b)"
| "f64_add (Infinite s) (Infinite t) = (if s = t then Infinite s else NaN)"
| "f64_add (Infinite s) (Fin _) = Infinite s"
| "f64_add (Fin _) (Infinite s) = Infinite s"
| "f64_add _ _ = NaN"

definition f64_sub :: "f64 \<Rightarrow> f64 \<Rightarrow> f64" where
  "f64_sub a b = f64_add a (f64_neg b)"

fun f64_mul :: "f64 \<Rightarrow> f64 \<Rightarrow> f64" where
  "f64_mul (Fin a) (Fin b) = round64 (a * b)"
| "f64_mul (Infinite s) (Infinite t) = Infinite (s \<noteq> t)"
| "f64_mul (Infinite s) (Fin b) = (if b = 0 then NaN else Infinite (s \<noteq> (b < 0)))"
| "f64_mul (Fin a) (Infinite s) = (if a = 0 then NaN else Infinite (s \<noteq> (a < 0)))"
| "f64_mul _ _ = NaN"

text \<open>Division and remainder are only called with a divisor that is not zero.\<close>

fun f64_div :: "f64 \<Rightarrow> f64 \<Rightarrow> f64" where
  "f64_div (Fin a) (Fin b) = (if b = 0 then (if a = 0 then NaN else Infinite (a < 0)) else round64 (a / b))"
| "f64_div (Infinite s) (Fin b) = Infinite (s \<noteq> (b < 0))"
| "f64_div (Fin _) (Infinite _) = Fin 0"
| "f64_div _ _ = NaN"

definition trunc_rat :: "rat \<Rightarrow> int" where
  "trunc_rat r = (if 0 \<le> r then \<lfloor>r\<rfloor> else \<lceil>r\<rceil>)"

fun f64_rem :: "f64 \<Rightarrow> f64 \<Rightarrow> f64" where
  "f64_rem (Fin a) (Fin b) = (if b = 0 then NaN else Fin (a - b * of_int (trunc_rat (a / b))))"
| "f64_rem (Fin a) (Infinite _) = Fin a"
| "f64_rem _ _ = NaN"

fun f64_abs :: "f64 \<Rightarrow> f64" where
  "f64_abs NaN = NaN"
| "f64_abs (Infinite _) = Infinite False"
| "f64_abs (Fin r) = Fin \<bar>r\<bar>"

fun f64_floor :: "f64 \<Rightarrow> f64" where
  "f64_floor (Fin r) = Fin (of_int \<lfloor>r\<rfloor>)"
| "f64_floor x = x"

fun f64_ceil :: "f64 \<Rightarrow> f64" where
  "f64_ceil (Fin r) = Fin (of_int \<lceil>r\<rceil>)"
| "f64_ceil x = x"

text \<open>Halves round away from zero.\<close>

fun f64_round :: "f64 \<Rightarrow> f64" where
  "f64_round (Fin r) = Fin (of_int (if 0 \<le> r then \<lfloor>r + 1 / 2\<rfloor> else \<lceil>r - 1 / 2\<rceil>))"
| "f64_round x = x"

fun is_finite :: "f64 \<Rightarrow> bool" where
  "is_finite (Fin _) = True"
| "is_finite _ = False"

definition of_integer :: "int \<Rightarrow> f64" where
  "of_integer n = round64 (of_int n)"

text \<open>\<open>x as i64\<close> and \<open>x as usize\<close>: truncate, saturate, NaN to zero.\<close>

definition clamp_int :: "int \<Rightarrow> int \<Rightarrow> int \<Rightarrow> int" where
  "clamp_int lo hi n = max lo (min hi n)"

fun as_i64 :: "f64 \<Rightarrow> int" where
  "as_i64 NaN = 0"
| "as_i64 (Infinite s) = (if s then - (2 ^ 63) else 2 ^ 63 - 1)"
| "as_i64 (Fin r) = clamp_int (- (2 ^ 63)) (2 ^ 63 - 1) (trunc_rat r)"

fun as_usize :: "f64 \<Rightarrow> nat" where
  "as_usize NaN = 0"
| "as_usize (Infinite s) = (if s then 0 else 2 ^ 64 - 1)"
| "as_usize (Fin r) = nat (clamp_int 0 (2 ^ 64 - 1) (trunc_rat r))"

definition cmp_of :: "'a :: linorder \<Rightarrow> 'a \<Rightarrow> ordering" where
  "cmp_of a b = (if a < b then Less else if a = b then Equal else Greater)"

text \<open>\<open>partial_cmp\<close> has no answer on NaN; \<open>OrderedFloat\<close> puts NaN above everything.\<close>

fun partial_cmp :: "f64 \<Rightarrow> f64 \<Rightarrow> ordering option" where
  "partial_cmp (Fin a) (Fin b) = Some (cmp_of a b)"
| "partial_cmp (Infinite s) (Infinite t) = Some (if s = t then Equal else if s then Less else Greater)"
| "partial_cmp (Infinite s) (Fin _) = Some (if s then Less else Greater)"
| "partial_cmp (Fin _) (Infinite s) = Some (if s then Greater else Less)"
| "partial_cmp _ _ = None"

definition total_cmp :: "f64 \<Rightarrow> f64 \<Rightarrow> ordering" where
  "total_cmp a b =
     (case partial_cmp a b of
        Some ord \<Rightarrow> ord
      | None \<Rightarrow> if a = NaN then (if b = NaN then Equal else Greater) else Less)"

text \<open>The order of \<open>OrderedFloat\<close> is linear, so the library's sorting applies to numbers.\<close>

instantiation f64 :: linorder
begin

definition less_eq_f64 :: "f64 \<Rightarrow> f64 \<Rightarrow> bool" where
  "less_eq_f64 a b \<longleftrightarrow> total_cmp a b \<noteq> Greater"

definition less_f64 :: "f64 \<Rightarrow> f64 \<Rightarrow> bool" where
  "less_f64 a b \<longleftrightarrow> total_cmp a b = Less"

instance
proof
  fix x y z :: f64
  show "x < y \<longleftrightarrow> x \<le> y \<and> \<not> y \<le> x"
    by (cases x; cases y) (auto simp: less_f64_def less_eq_f64_def total_cmp_def cmp_of_def)
  show "x \<le> x"
    by (cases x) (auto simp: less_eq_f64_def total_cmp_def cmp_of_def)
  show "x \<le> y \<Longrightarrow> y \<le> z \<Longrightarrow> x \<le> z"
    by (cases x; cases y; cases z) (auto simp: less_eq_f64_def total_cmp_def cmp_of_def split: if_splits)
  show "x \<le> y \<Longrightarrow> y \<le> x \<Longrightarrow> x = y"
    by (cases x; cases y) (auto simp: less_eq_f64_def total_cmp_def cmp_of_def split: if_splits)
  show "x \<le> y \<or> y \<le> x"
    by (cases x; cases y) (auto simp: less_eq_f64_def total_cmp_def cmp_of_def)
qed

end

lemma total_cmp_is_cmp_of: "total_cmp a b = cmp_of a b"
  by (cases "total_cmp a b"; cases a; cases b)
    (auto simp: cmp_of_def less_f64_def total_cmp_def split: if_splits)

section \<open>Square root\<close>

function isqrt :: "int \<Rightarrow> int" where
  "isqrt n = (if n \<le> 0 then 0 else
     let m = 2 * isqrt (n div 4) in if (m + 1) ^ 2 \<le> n then m + 1 else m)"
  by pat_completeness auto
termination
  by (relation "measure nat") auto

declare isqrt.simps [simp del]

text \<open>Scaled so that the integer root has at least 55 bits; a sticky half unit records that it is inexact.\<close>

definition sqrt64 :: "rat \<Rightarrow> f64" where
  "sqrt64 r =
     (if r = 0 then Fin 0
      else let k = max 0 (56 - exponent r div 2);
               q = r * two_power (2 * k);
               n = isqrt \<lfloor>q\<rfloor>;
               sticky = (if of_int (n ^ 2) = q then 0 else 1)
           in round64 (of_int (2 * n + sticky) / two_power (k + 1)))"

fun f64_sqrt :: "f64 \<Rightarrow> f64" where
  "f64_sqrt NaN = NaN"
| "f64_sqrt (Infinite s) = (if s then NaN else Infinite False)"
| "f64_sqrt (Fin r) = (if r < 0 then NaN else sqrt64 r)"

section \<open>The error of rounding\<close>

lemma two_power_pos [simp]: "0 < two_power k"
  by (simp add: two_power_def)

lemma two_power_Suc: "two_power (k + 1) = 2 * two_power k"
proof (cases "0 \<le> k")
  case True
  then show ?thesis by (simp add: two_power_def nat_add_distrib)
next
  case False
  then have "nat (- k) = Suc (nat (- (k + 1)))" by simp
  then show ?thesis using False by (cases "k = - 1") (simp_all add: two_power_def)
qed

lemma two_power_add: "two_power (k + int n) = 2 ^ n * two_power k"
proof (induction n)
  case (Suc n)
  then show ?case using two_power_Suc [of "k + int n"] by (simp add: algebra_simps)
qed simp

lemma two_power_mono: "k \<le> l \<Longrightarrow> two_power k \<le> two_power l"
proof -
  assume "k \<le> l"
  then have "two_power l = 2 ^ nat (l - k) * two_power k" using two_power_add [of k "nat (l - k)"] by simp
  moreover have "1 \<le> (2 :: rat) ^ nat (l - k)" by simp
  ultimately show ?thesis using two_power_pos [of k] mult_right_mono [of 1 "2 ^ nat (l - k)" "two_power k"] by simp
qed

lemma two_power_int: "0 \<le> k \<Longrightarrow> two_power k = of_int (2 ^ nat k)"
  by (simp add: two_power_def)

lemma ilog_bounds: "1 \<le> n \<Longrightarrow> 0 \<le> ilog n \<and> two_power (ilog n) \<le> of_int n \<and> of_int n < two_power (ilog n + 1)"
proof (induction n rule: ilog.induct)
  case (1 n)
  show ?case
  proof (cases "n \<le> 1")
    case True
    then show ?thesis using 1 by (simp add: ilog.simps two_power_def)
  next
    case False
    let ?m = "n div 2"
    have IH: "0 \<le> ilog ?m" "two_power (ilog ?m) \<le> of_int ?m" "of_int ?m < two_power (ilog ?m + 1)"
      using 1 False by auto
    have step: "ilog n = ilog ?m + 1" using False by (simp add: ilog.simps [of n])
    have "two_power (ilog ?m + 1) = of_int (2 ^ nat (ilog ?m + 1))" using IH(1) by (intro two_power_int) simp
    then have "?m + 1 \<le> 2 ^ nat (ilog ?m + 1)" using IH(3) by (simp only: of_int_less_iff)
    then have "n < 2 * 2 ^ nat (ilog ?m + 1)" by linarith
    then have "(of_int n :: rat) < of_int (2 * 2 ^ nat (ilog ?m + 1))" by (simp only: of_int_less_iff)
    then have upper: "of_int n < 2 * two_power (ilog ?m + 1)"
      using \<open>two_power (ilog ?m + 1) = of_int (2 ^ nat (ilog ?m + 1))\<close> by simp
    have "2 * ?m \<le> n" by linarith
    then have "2 * of_int ?m \<le> (of_int n :: rat)" by (metis of_int_le_iff of_int_mult of_int_numeral)
    then show ?thesis using IH upper step two_power_Suc [of "ilog ?m"] two_power_Suc [of "ilog ?m + 1"] by (simp add: algebra_simps)
  qed
qed

lemma exponent_below:
  assumes "0 < r"
  shows "two_power (exponent r) \<le> r"
proof -
  obtain a b where q: "quotient_of r = (a, b)" by (cases "quotient_of r")
  then have b: "0 < b" and r: "r = of_int a / of_int b" using quotient_of_denom_pos quotient_of_div by blast+
  then have a: "0 < a" using assms by (simp add: zero_less_divide_iff)
  let ?k = "ilog a - ilog b"
  have A: "two_power (ilog a) \<le> of_int a" and B: "of_int b < two_power (ilog b + 1)" "0 \<le> ilog b"
    using ilog_bounds [of a] ilog_bounds [of b] a b by auto
  have "two_power (?k - 1) * two_power (ilog b + 1) = two_power (ilog a)"
    using two_power_add [of "?k - 1" "nat (ilog b + 1)"] two_power_def [of "ilog b + 1"] B(2) by simp
  then have "two_power (?k - 1) * of_int b \<le> of_int a"
    using A B(1) mult_left_mono [of "of_int b" "two_power (ilog b + 1)" "two_power (?k - 1)"] two_power_pos [of "?k - 1"] by linarith
  then have "two_power (?k - 1) \<le> r" using r b by (simp add: pos_le_divide_eq)
  then show ?thesis by (simp add: exponent_def q Let_def)
qed

lemma round_half_even_near: "\<bar>of_int (round_half_even q) - q\<bar> \<le> (1 / 2 :: rat)"
proof -
  have "of_int \<lfloor>q\<rfloor> \<le> q" "q < of_int \<lfloor>q\<rfloor> + 1" by linarith+
  then show ?thesis unfolding round_half_even_def Let_def by (auto simp: abs_if) linarith+
qed

text \<open>A number below \<open>2 ^ n\<close> is rounded by at most \<open>2 ^ (n - 54)\<close>.\<close>

lemma round64_near:
  assumes "\<bar>r\<bar> < 2 ^ n" "n \<le> 1000"
  obtains v where "round64 r = Fin v" "\<bar>v - r\<bar> \<le> two_power (int n - 53) / 2"
proof (cases "r = 0")
  case True
  then show ?thesis using that [of 0] two_power_pos [of "int n - 53"] by (simp add: round64_def)
next
  case False
  let ?e = "max (exponent \<bar>r\<bar> - 52) (- 1074)"
  let ?v = "of_int (round_half_even (r / two_power ?e)) * two_power ?e"
  have "two_power (exponent \<bar>r\<bar>) \<le> \<bar>r\<bar>" using False by (intro exponent_below) simp
  then have "two_power (exponent \<bar>r\<bar>) < two_power (int n)" using assms(1) by (simp add: two_power_def [of "int n"])
  then have "\<not> int n \<le> exponent \<bar>r\<bar>" using two_power_mono [of "int n" "exponent \<bar>r\<bar>"] by linarith
  then have e: "?e \<le> int n - 53" by simp
  have "\<bar>of_int (round_half_even (r / two_power ?e)) - r / two_power ?e\<bar> * two_power ?e \<le> 1 / 2 * two_power ?e"
    using round_half_even_near [of "r / two_power ?e"] by (intro mult_right_mono) (simp_all add: order_less_imp_le)
  then have "\<bar>of_int (round_half_even (r / two_power ?e)) - r / two_power ?e\<bar> * two_power ?e \<le> two_power (int n - 53) / 2"
    using two_power_mono [OF e] by linarith
  moreover have scale: "\<bar>x * t - r\<bar> = \<bar>x - r / t\<bar> * t" if "0 < t" for x t :: rat
  proof -
    have "x * t - r = (x - r / t) * t" using that by (simp add: field_simps)
    then show ?thesis using that by (simp add: abs_mult)
  qed
  ultimately have near: "\<bar>?v - r\<bar> \<le> two_power (int n - 53) / 2"
    using scale [OF two_power_pos [of ?e], of "of_int (round_half_even (r / two_power ?e))"] by metis
  have "two_power (int n - 53) \<le> two_power (int n)" by (intro two_power_mono) simp
  moreover have "\<bar>?v\<bar> \<le> \<bar>?v - r\<bar> + \<bar>r\<bar>" using abs_triangle_ineq [of "?v - r" r] by simp
  moreover have "\<bar>r\<bar> < two_power (int n)" using assms(1) by (simp add: two_power_def)
  ultimately have "\<bar>?v\<bar> < 2 * two_power (int n)" using near two_power_pos [of "int n"] by linarith
  also have "\<dots> \<le> two_power 1024" using two_power_Suc [of "int n"] two_power_mono [of "int n + 1" 1024] assms(2) by simp
  finally have "round64 r = Fin ?v" using False by (simp add: round64_def Let_def)
  then show ?thesis using near by (rule that)
qed

end
