(* ===== verification/Datalog_Types.thy ===== *)
theory Datalog_Types
  imports Memory_Types Float64 "HOL-Library.Char_ord" "HOL-Library.List_Lexorder"
begin

text \<open>
  The data of the rule engine (\<open>ferrosa-memory-core/src/types.rs\<close>): terms, atoms, filters, expressions, rules,
  fact sets and derived facts. A hash map or hash set is a list without duplicates, in insertion order;
  its iteration order is unspecified in the source, and no theorem depends on the one chosen here beyond
  the order of a result list. A \<open>String\<close> is its UTF-8 bytes.
\<close>

section \<open>Terms and expressions\<close>

datatype dl_term =
    Var string
  | Const uuid
  | ConstStr string
  | ConstFloat f64
  | ConstTime instant
  | ConstNull

record atom =
  at_predicate :: string
  at_args :: "dl_term list"

datatype arith_op = Add | Sub | Mul | Div | Rem | Pow

datatype cmp_op = CmpEq | CmpNe | CmpLt | CmpLe | CmpGt | CmpGe

datatype func =
    FnAbs | FnFloor | FnCeil | FnRound | FnLen | FnLower | FnUpper | FnConcat
  | FnNow | FnDate | FnWeeks | FnDays | FnHours | FnMinutes

datatype filter_expr =
    FVar string
  | LitNum f64
  | LitStr string
  | BinOp arith_op filter_expr filter_expr
  | Neg filter_expr
  | FNull
  | LitTime instant
  | Call func "filter_expr list"

datatype str_op = StartsWith | EndsWith | Contains

datatype builtin_filter =
    GreaterThan string f64
  | LessThan string f64
  | NotEqual string string
  | Compare cmp_op filter_expr filter_expr
  | IsNull filter_expr
  | StrPred str_op filter_expr filter_expr
  | AnyOf "builtin_filter list"
  | AllOf "builtin_filter list"
  | Not "builtin_filter"

fun str_op_keyword :: "str_op \<Rightarrow> string" where
  "str_op_keyword StartsWith = ''str_starts_with''"
| "str_op_keyword EndsWith = ''str_ends_with''"
| "str_op_keyword Contains = ''str_contains''"

text \<open>\<open>subject.contains(arg)\<close>: some suffix of the subject starts with the argument.\<close>

fun starts_with :: "string \<Rightarrow> string \<Rightarrow> bool" where
  "starts_with _ [] = True"
| "starts_with [] (_ # _) = False"
| "starts_with (c # cs) (d # ds) = (c = d \<and> starts_with cs ds)"

fun str_contains :: "string \<Rightarrow> string \<Rightarrow> bool" where
  "str_contains [] arg = (arg = [])"
| "str_contains (c # cs) arg = (starts_with (c # cs) arg \<or> str_contains cs arg)"

text \<open>\<open>[String]::join\<close>.\<close>

fun join_strings :: "string \<Rightarrow> string list \<Rightarrow> string" where
  "join_strings sep [] = []"
| "join_strings sep [s] = s"
| "join_strings sep (s # rest) = s @ sep @ join_strings sep rest"

fun str_op_apply :: "str_op \<Rightarrow> string \<Rightarrow> string \<Rightarrow> bool" where
  "str_op_apply StartsWith subject arg = starts_with subject arg"
| "str_op_apply EndsWith subject arg = starts_with (rev subject) (rev arg)"
| "str_op_apply Contains subject arg = str_contains subject arg"

fun func_keyword :: "func \<Rightarrow> string" where
  "func_keyword FnAbs = ''abs''"
| "func_keyword FnFloor = ''floor''"
| "func_keyword FnCeil = ''ceil''"
| "func_keyword FnRound = ''round''"
| "func_keyword FnLen = ''len''"
| "func_keyword FnLower = ''lower''"
| "func_keyword FnUpper = ''upper''"
| "func_keyword FnConcat = ''concat''"
| "func_keyword FnNow = ''now''"
| "func_keyword FnDate = ''date''"
| "func_keyword FnWeeks = ''weeks''"
| "func_keyword FnDays = ''days''"
| "func_keyword FnHours = ''hours''"
| "func_keyword FnMinutes = ''minutes''"

definition all_funcs :: "func list" where
  "all_funcs = [FnAbs, FnFloor, FnCeil, FnRound, FnLen, FnLower, FnUpper, FnConcat,
     FnNow, FnDate, FnWeeks, FnDays, FnHours, FnMinutes]"

definition func_parse :: "string \<Rightarrow> func option" where
  "func_parse name = List.find (\<lambda>f. func_keyword f = name) all_funcs"

fun func_arity :: "func \<Rightarrow> nat" where
  "func_arity FnConcat = 2"
| "func_arity FnNow = 0"
| "func_arity _ = 1"

fun func_reads_the_clock :: "func \<Rightarrow> bool" where
  "func_reads_the_clock FnNow = True"
| "func_reads_the_clock _ = False"

section \<open>Aggregates and rules\<close>

datatype aggregate_kind =
  Count | Sum | Min | Max | Avg | CountDistinct | StdDev | Median | Percentile | GroupConcat

fun aggregate_keyword :: "aggregate_kind \<Rightarrow> string" where
  "aggregate_keyword Count = ''count''"
| "aggregate_keyword Sum = ''sum''"
| "aggregate_keyword Min = ''min''"
| "aggregate_keyword Max = ''max''"
| "aggregate_keyword Avg = ''avg''"
| "aggregate_keyword CountDistinct = ''count_distinct''"
| "aggregate_keyword StdDev = ''stddev''"
| "aggregate_keyword Median = ''median''"
| "aggregate_keyword Percentile = ''percentile''"
| "aggregate_keyword GroupConcat = ''group_concat''"

definition needs_value_var :: "aggregate_kind \<Rightarrow> bool" where
  "needs_value_var k \<longleftrightarrow> k \<noteq> Count"

definition needs_param :: "aggregate_kind \<Rightarrow> bool" where
  "needs_param k \<longleftrightarrow> k \<in> {Percentile, GroupConcat}"

definition retains_group :: "aggregate_kind \<Rightarrow> bool" where
  "retains_group k \<longleftrightarrow> k \<in> {Median, Percentile, GroupConcat}"

fun identity_over_empty :: "aggregate_kind \<Rightarrow> dl_term option" where
  "identity_over_empty Count = Some (ConstFloat (Fin 0))"
| "identity_over_empty Sum = Some (ConstFloat (Fin 0))"
| "identity_over_empty CountDistinct = Some (ConstFloat (Fin 0))"
| "identity_over_empty GroupConcat = Some (ConstStr [])"
| "identity_over_empty _ = None"

record aggregate =
  ag_kind :: aggregate_kind
  ag_param :: "dl_term option"
  ag_inner :: atom
  ag_inner_conjunction :: "atom list"
  ag_group_vars :: "string list"
  ag_output_var :: string
  ag_value_var :: "string option"

datatype stratify_error =
    RecursionThroughAggregate "string list"
  | RecursionThroughNegation "string list"
  | RecursionThroughHeadExpression "string list"

record rule_binding =
  rb_var :: string
  rb_expr :: filter_expr

record head_expr =
  he_index :: nat
  he_expr :: filter_expr

record datalog_rule =
  dr_head :: atom
  dr_body :: "atom list"
  dr_filters :: "builtin_filter list"
  dr_aggregates :: "aggregate list"
  dr_negated :: "atom list"
  dr_head_exprs :: "head_expr list"
  dr_bindings :: "rule_binding list"

section \<open>Fact sets\<close>

record fact_set =
  fs_facts :: "(string \<times> dl_term list list) list"

definition fs_new :: fact_set where
  "fs_new = \<lparr>fs_facts = []\<rparr>"

definition fs_get :: "fact_set \<Rightarrow> string \<Rightarrow> dl_term list list option" where
  "fs_get F p = map_of (fs_facts F) p"

text \<open>\<open>entry(predicate).or_default().insert(args)\<close>: the flag says whether the row is new.\<close>

fun entry_insert :: "string \<Rightarrow> dl_term list \<Rightarrow> (string \<times> dl_term list list) list
    \<Rightarrow> bool \<times> (string \<times> dl_term list list) list" where
  "entry_insert p args [] = (True, [(p, [args])])"
| "entry_insert p args ((q, rows) # rest) =
     (if p = q then
        (if args \<in> set rows then (False, (q, rows) # rest) else (True, (q, rows @ [args]) # rest))
      else let (new, rest') = entry_insert p args rest in (new, (q, rows) # rest'))"

definition fs_insert :: "fact_set \<Rightarrow> string \<Rightarrow> dl_term list \<Rightarrow> bool \<times> fact_set" where
  "fs_insert F p args = (let (new, m) = entry_insert p args (fs_facts F) in (new, \<lparr>fs_facts = m\<rparr>))"

definition fs_contains :: "fact_set \<Rightarrow> string \<Rightarrow> dl_term list \<Rightarrow> bool" where
  "fs_contains F p args \<longleftrightarrow> (case fs_get F p of None \<Rightarrow> False | Some rows \<Rightarrow> args \<in> set rows)"

definition fs_len :: "fact_set \<Rightarrow> nat" where
  "fs_len F = sum_list (map (\<lambda>(p, rows). length rows) (fs_facts F))"

definition fs_is_empty :: "fact_set \<Rightarrow> bool" where
  "fs_is_empty F \<longleftrightarrow> fs_len F = 0"

definition fs_predicates :: "fact_set \<Rightarrow> string list" where
  "fs_predicates F = map fst (fs_facts F)"

section \<open>Derived facts\<close>

definition PROVENANCE_KIND_ABSENCE :: string where "PROVENANCE_KIND_ABSENCE = ''absence''"
definition PROVENANCE_KIND_CLOCK :: string where "PROVENANCE_KIND_CLOCK = ''clock''"

record provenance_step =
  ps_parent_src :: string
  ps_parent_pred :: string
  ps_parent_dst :: string
  ps_parent_kind :: string

record derived_fact =
  df_src_id :: string
  df_pred :: string
  df_dst_id :: string
  df_confidence :: f64
  df_rule_id :: string
  df_support_count :: nat
  df_provenance :: "provenance_step list"

text \<open>\<open>is_uuid\<close> is \<open>Uuid::parse_str(..).is_ok()\<close>.\<close>

definition has_uuid_endpoints :: "(string \<Rightarrow> bool) \<Rightarrow> derived_fact \<Rightarrow> bool" where
  "has_uuid_endpoints is_uuid f \<longleftrightarrow> is_uuid (df_src_id f) \<and> is_uuid (df_dst_id f)"

definition rests_on_absence :: "derived_fact \<Rightarrow> bool" where
  "rests_on_absence f \<longleftrightarrow> list_ex (\<lambda>s. ps_parent_kind s = PROVENANCE_KIND_ABSENCE) (df_provenance f)"

definition df_reads_the_clock :: "derived_fact \<Rightarrow> bool" where
  "df_reads_the_clock f \<longleftrightarrow> list_ex (\<lambda>s. ps_parent_kind s = PROVENANCE_KIND_CLOCK) (df_provenance f)"

definition is_cacheable :: "(string \<Rightarrow> bool) \<Rightarrow> derived_fact \<Rightarrow> bool" where
  "is_cacheable is_uuid f \<longleftrightarrow>
     has_uuid_endpoints is_uuid f \<and> \<not> rests_on_absence f \<and> \<not> df_reads_the_clock f"

section \<open>A fact set as a set of facts\<close>

definition facts_of :: "fact_set \<Rightarrow> (string \<times> dl_term list) set" where
  "facts_of F = {(p, args). fs_contains F p args}"

definition fs_wf :: "fact_set \<Rightarrow> bool" where
  "fs_wf F \<longleftrightarrow> distinct (map fst (fs_facts F)) \<and> (\<forall>(p, rows) \<in> set (fs_facts F). distinct rows)"

lemma fs_contains_facts_of: "fs_contains F p args \<longleftrightarrow> (p, args) \<in> facts_of F"
  by (simp add: facts_of_def)

lemma facts_of_new [simp]: "facts_of fs_new = {}"
  by (simp add: facts_of_def fs_contains_def fs_get_def fs_new_def)

lemma fs_wf_new [simp]: "fs_wf fs_new"
  by (simp add: fs_wf_def fs_new_def)

lemma entry_insert_get:
  "map_of (snd (entry_insert p args m)) q =
     (if q = p then Some (case map_of m p of None \<Rightarrow> [args] | Some rows \<Rightarrow> if args \<in> set rows then rows else rows @ [args])
      else map_of m q)"
  by (induction p args m rule: entry_insert.induct) (auto simp: Let_def split: prod.splits option.splits)

lemma facts_of_insert: "facts_of (snd (fs_insert F p args)) = insert (p, args) (facts_of F)"
  by (auto simp: facts_of_def fs_contains_def fs_get_def fs_insert_def split_beta Let_def entry_insert_get
      split: option.splits if_splits)

lemma entry_insert_keys: "fst ` set (snd (entry_insert p args m)) = insert p (fst ` set m)"
  by (induction p args m rule: entry_insert.induct) (simp_all add: Let_def split_beta insert_commute)

lemma entry_insert_wf:
  "distinct (map fst m) \<Longrightarrow> \<forall>(q, rows) \<in> set m. distinct rows \<Longrightarrow>
    distinct (map fst (snd (entry_insert p args m))) \<and> (\<forall>(q, rows) \<in> set (snd (entry_insert p args m)). distinct rows)"
proof (induction p args m rule: entry_insert.induct)
  case (2 p args q rows rest)
  then show ?case
    using entry_insert_keys [of p args rest] by (auto simp: Let_def split_beta)
qed auto

lemma fs_wf_insert: "fs_wf F \<Longrightarrow> fs_wf (snd (fs_insert F p args))"
  using entry_insert_wf [of "fs_facts F" p args] by (simp add: fs_wf_def fs_insert_def Let_def split_beta)

lemma entry_insert_len:
  "sum_list (map (\<lambda>(q, rows). length rows) (snd (entry_insert p args m))) =
     sum_list (map (\<lambda>(q, rows). length rows) m) + (if fst (entry_insert p args m) then 1 else 0)"
  by (induction p args m rule: entry_insert.induct) (auto simp: Let_def split_beta)

lemma entry_insert_new: "fst (entry_insert p args m) \<longleftrightarrow> \<not> (case map_of m p of None \<Rightarrow> False | Some rows \<Rightarrow> args \<in> set rows)"
  by (induction p args m rule: entry_insert.induct) (auto simp: Let_def split_beta)

lemma fs_insert_new: "fst (fs_insert F p args) \<longleftrightarrow> (p, args) \<notin> facts_of F"
  by (simp add: fs_insert_def Let_def split_beta entry_insert_new facts_of_def fs_contains_def fs_get_def)

lemma fs_len_insert:
  "fs_len (snd (fs_insert F p args)) = fs_len F + (if (p, args) \<in> facts_of F then 0 else 1)"
  using fs_insert_new [of F p args]
  by (simp add: fs_len_def fs_insert_def Let_def split_beta entry_insert_len)

lemma fs_rows:
  "fs_get F p = Some rows \<Longrightarrow> set rows = {args. (p, args) \<in> facts_of F}"
  by (simp add: facts_of_def fs_contains_def)

lemma fs_no_rows: "fs_get F p = None \<Longrightarrow> {args. (p, args) \<in> facts_of F} = {}"
  by (simp add: facts_of_def fs_contains_def)

lemma fs_len_card:
  assumes "fs_wf F"
  shows "fs_len F = card (facts_of F)"
proof -
  have "(p, rows) \<in> set (fs_facts F) \<longleftrightarrow> fs_get F p = Some rows" for p rows
    using assms by (simp add: fs_get_def fs_wf_def)
  then have "facts_of F = (\<Union>(p, rows) \<in> set (fs_facts F). Pair p ` set rows)"
    by (fastforce simp: facts_of_def fs_contains_def split: option.splits)
  moreover have "card (\<Union>(p, rows) \<in> set m. Pair p ` set rows) = sum_list (map (\<lambda>(p, rows). length rows) m)"
    if "distinct (map fst m)" "\<forall>(p, rows) \<in> set m. distinct rows" for m :: "(string \<times> dl_term list list) list"
    using that
  proof (induction m)
    case (Cons e m)
    obtain p rows where e: "e = (p, rows)" by (cases e)
    have "card (Pair p ` set rows \<union> (\<Union>(p, rows) \<in> set m. Pair p ` set rows)) =
        card (Pair p ` set rows) + card (\<Union>(p, rows) \<in> set m. Pair p ` set rows)"
      using Cons.prems e by (intro card_Un_disjoint) (force simp: image_iff)+
    moreover have "card (Pair p ` set rows) = length rows"
      using Cons.prems e by (simp add: card_image inj_on_def distinct_card)
    ultimately show ?case using Cons e by simp
  qed simp
  ultimately show ?thesis using assms by (simp add: fs_len_def fs_wf_def)
qed

end
