(* ===== verification/Datalog_Filter.thy ===== *)
theory Datalog_Filter
  imports Datalog_Types
begin

text \<open>
  Filter expressions and their five-valued verdicts (\<open>datalog.rs\<close>: \<open>eval_expr\<close>, \<open>eval_call\<close>, \<open>apply_cmp\<close>,
  \<open>eval_filter\<close>, \<open>filter_references_any\<close>). What comes from the calendar, UUID and Unicode libraries is a parameter.
\<close>

type_synonym binding = "string \<rightharpoonup> dl_term"

record datalog_env =
  powf :: "f64 \<Rightarrow> f64 \<Rightarrow> f64"
  to_lowercase :: "string \<Rightarrow> string"
  to_uppercase :: "string \<Rightarrow> string"
  parse_rfc3339 :: "string \<Rightarrow> instant option"
  parse_ymd :: "string \<Rightarrow> instant option"
  try_milliseconds :: "int \<Rightarrow> int option"
  checked_add_signed :: "instant \<Rightarrow> int \<Rightarrow> instant option"
  num_milliseconds :: "int \<Rightarrow> int"
  uuid_text :: "uuid \<Rightarrow> string"
  f64_text :: "f64 \<Rightarrow> string"
  rfc3339_text :: "instant \<Rightarrow> string"

section \<open>Expressions\<close>

datatype eval_value = Num f64 | Str string | UuidV uuid | Time instant

datatype eval = Value eval_value | Null | Unbound | Undefined

definition parse_iso8601 :: "'x datalog_env_scheme \<Rightarrow> string \<Rightarrow> instant option" where
  "parse_iso8601 env text = (case parse_rfc3339 env text of Some t \<Rightarrow> Some t | None \<Rightarrow> parse_ymd env text)"

definition shift_time :: "'x datalog_env_scheme \<Rightarrow> instant \<Rightarrow> f64 \<Rightarrow> eval" where
  "shift_time env t ms =
     (if \<not> is_finite ms then Undefined
      else case try_milliseconds env (as_i64 ms) of
        None \<Rightarrow> Undefined
      | Some d \<Rightarrow> (case checked_add_signed env t d of Some shifted \<Rightarrow> Value (Time shifted) | None \<Rightarrow> Undefined))"

text \<open>\<open>s.chars().count()\<close>: the bytes that do not continue a character.\<close>

definition chars_count :: "string \<Rightarrow> nat" where
  "chars_count s = length (filter (\<lambda>c. (of_char c :: nat) div 64 \<noteq> 2) s)"

text \<open>\<open>eval_call\<close> once its arguments are values.\<close>

fun on_num :: "(f64 \<Rightarrow> f64) \<Rightarrow> eval_value list \<Rightarrow> eval" where
  "on_num f [Num x] = Value (Num (f x))"
| "on_num f _ = Undefined"

fun on_str :: "(string \<Rightarrow> eval) \<Rightarrow> eval_value list \<Rightarrow> eval" where
  "on_str f [Str s] = f s"
| "on_str f _ = Undefined"

fun apply_date :: "'x datalog_env_scheme \<Rightarrow> eval_value list \<Rightarrow> eval" where
  "apply_date env [Str text] = (case parse_iso8601 env text of Some t \<Rightarrow> Value (Time t) | None \<Rightarrow> Undefined)"
| "apply_date env [Time t] = Value (Time t)"
| "apply_date env _ = Undefined"

fun apply_concat :: "eval_value list \<Rightarrow> eval" where
  "apply_concat [Str a, Str b] = Value (Str (a @ b))"
| "apply_concat _ = Undefined"

fun apply_func :: "'x datalog_env_scheme \<Rightarrow> func \<Rightarrow> eval_value list \<Rightarrow> eval" where
  "apply_func env FnNow vs = Undefined"
| "apply_func env FnDate vs = apply_date env vs"
| "apply_func env FnWeeks vs = on_num (\<lambda>n. f64_mul n (Fin 604800000)) vs"
| "apply_func env FnDays vs = on_num (\<lambda>n. f64_mul n (Fin 86400000)) vs"
| "apply_func env FnHours vs = on_num (\<lambda>n. f64_mul n (Fin 3600000)) vs"
| "apply_func env FnMinutes vs = on_num (\<lambda>n. f64_mul n (Fin 60000)) vs"
| "apply_func env FnAbs vs = on_num f64_abs vs"
| "apply_func env FnFloor vs = on_num f64_floor vs"
| "apply_func env FnCeil vs = on_num f64_ceil vs"
| "apply_func env FnRound vs = on_num f64_round vs"
| "apply_func env FnLen vs = on_str (\<lambda>s. Value (Num (of_integer (int (chars_count s))))) vs"
| "apply_func env FnLower vs = on_str (\<lambda>s. Value (Str (to_lowercase env s))) vs"
| "apply_func env FnUpper vs = on_str (\<lambda>s. Value (Str (to_uppercase env s))) vs"
| "apply_func env FnConcat vs = apply_concat vs"

fun num_binop :: "'x datalog_env_scheme \<Rightarrow> arith_op \<Rightarrow> f64 \<Rightarrow> f64 \<Rightarrow> eval" where
  "num_binop env Add a b = Value (Num (f64_add a b))"
| "num_binop env Sub a b = Value (Num (f64_sub a b))"
| "num_binop env Mul a b = Value (Num (f64_mul a b))"
| "num_binop env Div a b = (if b = Fin 0 then Undefined else Value (Num (f64_div a b)))"
| "num_binop env Pow a b = (let r = powf env a b in if is_finite r then Value (Num r) else Undefined)"
| "num_binop env Rem a b = (if b = Fin 0 then Undefined else Value (Num (f64_rem a b)))"

fun value_binop :: "'x datalog_env_scheme \<Rightarrow> arith_op \<Rightarrow> eval_value \<Rightarrow> eval_value \<Rightarrow> eval" where
  "value_binop env op (Time t) (Num ms) =
     (case op of Add \<Rightarrow> shift_time env t ms | Sub \<Rightarrow> shift_time env t (f64_neg ms) | _ \<Rightarrow> Undefined)"
| "value_binop env op (Num ms) (Time t) = (if op = Add then shift_time env t ms else Undefined)"
| "value_binop env op (Time a) (Time b) =
     (case op of Sub \<Rightarrow> Value (Num (of_integer (num_milliseconds env (a - b)))) | _ \<Rightarrow> Undefined)"
| "value_binop env op (Num a) (Num b) = num_binop env op a b"
| "value_binop env op _ _ = Undefined"

definition binop :: "'x datalog_env_scheme \<Rightarrow> arith_op \<Rightarrow> eval \<Rightarrow> eval \<Rightarrow> eval" where
  "binop env op l r =
     (if l = Undefined \<or> r = Undefined then Undefined
      else if l = Null \<or> r = Null then Null
      else case (l, r) of (Value a, Value b) \<Rightarrow> value_binop env op a b | _ \<Rightarrow> Unbound)"

fun eval_of_term :: "dl_term \<Rightarrow> eval" where
  "eval_of_term (ConstFloat f) = Value (Num f)"
| "eval_of_term (ConstStr s) = Value (Str s)"
| "eval_of_term (Const u) = Value (UuidV u)"
| "eval_of_term (ConstTime t) = Value (Time t)"
| "eval_of_term ConstNull = Null"
| "eval_of_term (Var _) = Unbound"

fun eval_neg :: "eval \<Rightarrow> eval" where
  "eval_neg (Value (Num x)) = Value (Num (f64_neg x))"
| "eval_neg (Value _) = Undefined"
| "eval_neg other = other"

fun eval_expr :: "'x datalog_env_scheme \<Rightarrow> filter_expr \<Rightarrow> binding \<Rightarrow> eval"
  and eval_args :: "'x datalog_env_scheme \<Rightarrow> filter_expr list \<Rightarrow> binding \<Rightarrow> eval + eval_value list" where
  "eval_expr env (FVar name) b = (case b name of Some t \<Rightarrow> eval_of_term t | None \<Rightarrow> Unbound)"
| "eval_expr env (LitNum f) b = Value (Num f)"
| "eval_expr env (LitStr s) b = Value (Str s)"
| "eval_expr env FNull b = Null"
| "eval_expr env (LitTime t) b = Value (Time t)"
| "eval_expr env (Call func args) b =
     (case eval_args env args b of Inl other \<Rightarrow> other | Inr values \<Rightarrow> apply_func env func values)"
| "eval_expr env (Neg inner) b = eval_neg (eval_expr env inner b)"
| "eval_expr env (BinOp op l r) b = binop env op (eval_expr env l b) (eval_expr env r b)"
| "eval_args env [] b = Inr []"
| "eval_args env (a # rest) b =
     (case eval_expr env a b of
        Value v \<Rightarrow> map_ok (\<lambda>vs. v # vs) (eval_args env rest b)
      | other \<Rightarrow> Inl other)"

text \<open>The term a computed value becomes in a head or a binding; an undecided or failed expression gives none.\<close>

fun term_of_eval :: "eval \<Rightarrow> dl_term option" where
  "term_of_eval (Value (Num f)) = Some (ConstFloat f)"
| "term_of_eval (Value (Str s)) = Some (ConstStr s)"
| "term_of_eval (Value (UuidV u)) = Some (Const u)"
| "term_of_eval (Value (Time t)) = Some (ConstTime t)"
| "term_of_eval Null = Some ConstNull"
| "term_of_eval _ = None"

section \<open>Verdicts\<close>

fun ordered :: "cmp_op \<Rightarrow> ordering \<Rightarrow> bool" where
  "ordered CmpEq ord = (ord = Equal)"
| "ordered CmpNe ord = (ord \<noteq> Equal)"
| "ordered CmpLt ord = (ord = Less)"
| "ordered CmpLe ord = (ord \<noteq> Greater)"
| "ordered CmpGt ord = (ord = Greater)"
| "ordered CmpGe ord = (ord \<noteq> Less)"

fun apply_cmp :: "cmp_op \<Rightarrow> eval_value \<Rightarrow> eval_value \<Rightarrow> bool" where
  "apply_cmp op (Num a) (Num b) = (case partial_cmp a b of Some ord \<Rightarrow> ordered op ord | None \<Rightarrow> False)"
| "apply_cmp op (Str a) (Str b) = ordered op (cmp_of a b)"
| "apply_cmp op (Time a) (Time b) = ordered op (cmp_of a b)"
| "apply_cmp op (UuidV a) (UuidV b) = (case op of CmpEq \<Rightarrow> a = b | CmpNe \<Rightarrow> a \<noteq> b | _ \<Rightarrow> False)"
| "apply_cmp op _ _ = False"

datatype verdict = VTrue | VFalse | VUnknown | VUndefined | VUnbound

definition verdict_of :: "bool \<Rightarrow> verdict" where
  "verdict_of b = (if b then VTrue else VFalse)"

definition passes :: "verdict \<Rightarrow> bool" where
  "passes v \<longleftrightarrow> v \<in> {VTrue, VUnbound}"

fun compare_verdict :: "cmp_op \<Rightarrow> eval \<Rightarrow> eval \<Rightarrow> verdict" where
  "compare_verdict op (Value l) (Value r) = verdict_of (apply_cmp op l r)"
| "compare_verdict op l r =
     (if l = Undefined \<or> r = Undefined then VUndefined
      else if l = Null \<or> r = Null then VUnknown
      else VUnbound)"

fun is_null_verdict :: "eval \<Rightarrow> verdict" where
  "is_null_verdict Null = VTrue"
| "is_null_verdict (Value _) = VFalse"
| "is_null_verdict Undefined = VUndefined"
| "is_null_verdict Unbound = VUnbound"

fun is_value :: "eval \<Rightarrow> bool" where
  "is_value (Value _) = True"
| "is_value _ = False"

fun str_pred_verdict :: "str_op \<Rightarrow> eval \<Rightarrow> eval \<Rightarrow> verdict" where
  "str_pred_verdict op (Value (Str s)) (Value (Str a)) = verdict_of (str_op_apply op s a)"
| "str_pred_verdict op l r =
     (if l = Null \<or> r = Null then VUnknown
      else if is_value l \<or> is_value r then VUndefined
      else VUnbound)"

fun f64_gt :: "f64 \<Rightarrow> f64 \<Rightarrow> bool" where
  "f64_gt a b = (partial_cmp a b = Some Greater)"

definition all_verdict :: "verdict list \<Rightarrow> verdict" where
  "all_verdict vs =
     (if VUndefined \<in> set vs then VUndefined
      else if VFalse \<in> set vs then VFalse
      else if VUnknown \<in> set vs then VUnknown
      else VTrue)"

definition any_verdict :: "verdict list \<Rightarrow> verdict" where
  "any_verdict vs =
     (if VUndefined \<in> set vs then VUndefined
      else if VTrue \<in> set vs \<or> VUnbound \<in> set vs then VTrue
      else if VUnknown \<in> set vs then VUnknown
      else VFalse)"

fun not_verdict :: "verdict \<Rightarrow> verdict" where
  "not_verdict VTrue = VFalse"
| "not_verdict VFalse = VTrue"
| "not_verdict other = other"

fun eval_filter :: "'x datalog_env_scheme \<Rightarrow> builtin_filter \<Rightarrow> binding \<Rightarrow> verdict" where
  "eval_filter env (NotEqual lhs rhs) b =
     (case (b lhs, b rhs) of (Some x, Some y) \<Rightarrow> verdict_of (x \<noteq> y) | _ \<Rightarrow> VUnbound)"
| "eval_filter env (GreaterThan var threshold) b =
     (case b var of Some (ConstFloat v) \<Rightarrow> verdict_of (f64_gt v threshold) | _ \<Rightarrow> VUnbound)"
| "eval_filter env (LessThan var threshold) b =
     (case b var of Some (ConstFloat v) \<Rightarrow> verdict_of (f64_gt threshold v) | _ \<Rightarrow> VUnbound)"
| "eval_filter env (Compare op lhs rhs) b = compare_verdict op (eval_expr env lhs b) (eval_expr env rhs b)"
| "eval_filter env (IsNull e) b = is_null_verdict (eval_expr env e b)"
| "eval_filter env (StrPred op subject arg) b =
     str_pred_verdict op (eval_expr env subject b) (eval_expr env arg b)"
| "eval_filter env (AllOf branches) b = all_verdict (map (\<lambda>f. eval_filter env f b) branches)"
| "eval_filter env (AnyOf branches) b = any_verdict (map (\<lambda>f. eval_filter env f b) branches)"
| "eval_filter env (Not inner) b = not_verdict (eval_filter env inner b)"

definition check_one_filter :: "'x datalog_env_scheme \<Rightarrow> builtin_filter \<Rightarrow> binding \<Rightarrow> bool" where
  "check_one_filter env f b = passes (eval_filter env f b)"

definition check_filters :: "'x datalog_env_scheme \<Rightarrow> builtin_filter list \<Rightarrow> binding \<Rightarrow> bool" where
  "check_filters env fs b = list_all (\<lambda>f. check_one_filter env f b) fs"

section \<open>Which variables a filter looks at\<close>

fun expr_refs :: "filter_expr \<Rightarrow> string set \<Rightarrow> bool" where
  "expr_refs (FVar name) vars = (name \<in> vars)"
| "expr_refs (LitNum _) vars = False"
| "expr_refs (LitStr _) vars = False"
| "expr_refs FNull vars = False"
| "expr_refs (LitTime _) vars = False"
| "expr_refs (Neg inner) vars = expr_refs inner vars"
| "expr_refs (BinOp op l r) vars = (expr_refs l vars \<or> expr_refs r vars)"
| "expr_refs (Call f args) vars = list_ex (\<lambda>a. expr_refs a vars) args"

fun filter_references_any :: "builtin_filter \<Rightarrow> string set \<Rightarrow> bool" where
  "filter_references_any (NotEqual a b) vars = (a \<in> vars \<or> b \<in> vars)"
| "filter_references_any (GreaterThan a _) vars = (a \<in> vars)"
| "filter_references_any (LessThan a _) vars = (a \<in> vars)"
| "filter_references_any (Compare _ l r) vars = (expr_refs l vars \<or> expr_refs r vars)"
| "filter_references_any (StrPred _ s a) vars = (expr_refs s vars \<or> expr_refs a vars)"
| "filter_references_any (IsNull e) vars = expr_refs e vars"
| "filter_references_any (AnyOf bs) vars = list_ex (\<lambda>b. filter_references_any b vars) bs"
| "filter_references_any (AllOf bs) vars = list_ex (\<lambda>b. filter_references_any b vars) bs"
| "filter_references_any (Not inner) vars = filter_references_any inner vars"

lemma eval_expr_agree:
  "(\<And>x. x \<notin> vars \<Longrightarrow> b x = c x) \<Longrightarrow> \<not> expr_refs e vars \<Longrightarrow> eval_expr env e b = eval_expr env e c"
  "(\<And>x. x \<notin> vars \<Longrightarrow> b x = c x) \<Longrightarrow> \<not> list_ex (\<lambda>a. expr_refs a vars) es \<Longrightarrow> eval_args env es b = eval_args env es c"
  by (induction env e b and env es b rule: eval_expr_eval_args.induct) (auto split: eval.splits)

lemma eval_filter_agree:
  assumes "\<And>x. x \<notin> vars \<Longrightarrow> b x = c x"
  shows "\<not> filter_references_any f vars \<Longrightarrow> eval_filter env f b = eval_filter env f c"
proof (induction f)
  case (AnyOf fs)
  then have "map (\<lambda>f. eval_filter env f b) fs = map (\<lambda>f. eval_filter env f c) fs" by (auto simp: list_ex_iff)
  then show ?case by (simp only: eval_filter.simps)
next
  case (AllOf fs)
  then have "map (\<lambda>f. eval_filter env f b) fs = map (\<lambda>f. eval_filter env f c) fs" by (auto simp: list_ex_iff)
  then show ?case by (simp only: eval_filter.simps)
next
  case (NotEqual x y)
  then show ?case using assms by simp
next
  case (GreaterThan x t)
  then show ?case using assms by simp
next
  case (LessThan x t)
  then show ?case using assms by simp
qed (simp_all add: eval_expr_agree(1) [where vars = vars and b = b and c = c, OF assms])

section \<open>The leaves of a filter tree\<close>

fun leaves :: "builtin_filter \<Rightarrow> builtin_filter list" where
  "leaves (AllOf bs) = concat (map leaves bs)"
| "leaves (AnyOf bs) = concat (map leaves bs)"
| "leaves (Not f) = leaves f"
| "leaves f = [f]"

lemma verdict_lists_undefined:
  "all_verdict vs = VUndefined \<longleftrightarrow> VUndefined \<in> set vs"
  "any_verdict vs = VUndefined \<longleftrightarrow> VUndefined \<in> set vs"
  by (simp_all add: all_verdict_def any_verdict_def)

lemma not_verdict_undefined: "not_verdict v = VUndefined \<longleftrightarrow> v = VUndefined"
  by (cases v) simp_all

lemma undefined_leaf:
  "eval_filter env f b = VUndefined \<longleftrightarrow> (\<exists>l \<in> set (leaves f). eval_filter env l b = VUndefined)"
proof (induction f)
  case (AllOf fs)
  have "eval_filter env (AllOf fs) b = VUndefined \<longleftrightarrow> (\<exists>f \<in> set fs. eval_filter env f b = VUndefined)"
    by (simp add: verdict_lists_undefined) (metis image_iff)
  then show ?case using AllOf.IH by simp
next
  case (AnyOf fs)
  have "eval_filter env (AnyOf fs) b = VUndefined \<longleftrightarrow> (\<exists>f \<in> set fs. eval_filter env f b = VUndefined)"
    by (simp add: verdict_lists_undefined) (metis image_iff)
  then show ?case using AnyOf.IH by simp
qed (simp_all add: not_verdict_undefined)

section \<open>The Kleene reading\<close>

text \<open>False below unknown below true; conjunction is the least branch, disjunction the greatest, negation reverses.\<close>

fun rank :: "verdict \<Rightarrow> nat" where
  "rank VTrue = 2"
| "rank VFalse = 0"
| "rank _ = 1"

fun kleene :: "(builtin_filter \<Rightarrow> nat) \<Rightarrow> builtin_filter \<Rightarrow> nat" where
  "kleene v (AllOf bs) = foldr (\<lambda>f m. min (kleene v f) m) bs 2"
| "kleene v (AnyOf bs) = foldr (\<lambda>f m. max (kleene v f) m) bs 0"
| "kleene v (Not f) = 2 - kleene v f"
| "kleene v f = v f"

definition decided :: "verdict \<Rightarrow> bool" where
  "decided v \<longleftrightarrow> v \<in> {VTrue, VFalse, VUnknown}"

lemma all_verdict_rank:
  "\<forall>v \<in> set vs. decided v \<Longrightarrow> decided (all_verdict vs) \<and> rank (all_verdict vs) = foldr min (map rank vs) 2"
proof (induction vs)
  case (Cons v vs)
  then have d: "decided v" and IH: "rank (all_verdict vs) = foldr min (map rank vs) 2" by simp_all
  have no: "VUndefined \<notin> set vs" using Cons.prems by (auto simp: decided_def)
  from d no show ?case
    by (auto simp: decided_def all_verdict_def simp flip: IH split: if_splits)
qed (simp add: all_verdict_def decided_def)

lemma any_verdict_rank:
  "\<forall>v \<in> set vs. decided v \<Longrightarrow> decided (any_verdict vs) \<and> rank (any_verdict vs) = foldr max (map rank vs) 0"
proof (induction vs)
  case (Cons v vs)
  then have d: "decided v" and IH: "rank (any_verdict vs) = foldr max (map rank vs) 0" by simp_all
  have no: "VUndefined \<notin> set vs" "VUnbound \<notin> set vs" using Cons.prems by (auto simp: decided_def)
  from d no show ?case
    by (auto simp: decided_def any_verdict_def simp flip: IH split: if_splits)
qed (simp add: any_verdict_def decided_def)

lemma eval_filter_kleene:
  "\<forall>l \<in> set (leaves f). decided (eval_filter env l b) \<Longrightarrow>
    decided (eval_filter env f b) \<and> rank (eval_filter env f b) = kleene (\<lambda>l. rank (eval_filter env l b)) f"
proof (induction f)
  case (AllOf fs)
  then have "\<forall>f \<in> set fs. decided (eval_filter env f b) \<and>
      rank (eval_filter env f b) = kleene (\<lambda>l. rank (eval_filter env l b)) f" by auto
  moreover from this have "foldr min (map rank (map (\<lambda>f. eval_filter env f b) fs)) 2 =
      foldr (\<lambda>f. min (kleene (\<lambda>l. rank (eval_filter env l b)) f)) fs 2"
    by (induction fs) auto
  ultimately show ?case using all_verdict_rank [of "map (\<lambda>f. eval_filter env f b) fs"] by simp
next
  case (AnyOf fs)
  then have "\<forall>f \<in> set fs. decided (eval_filter env f b) \<and>
      rank (eval_filter env f b) = kleene (\<lambda>l. rank (eval_filter env l b)) f" by auto
  moreover from this have "foldr max (map rank (map (\<lambda>f. eval_filter env f b) fs)) 0 =
      foldr (\<lambda>f. max (kleene (\<lambda>l. rank (eval_filter env l b)) f)) fs 0"
    by (induction fs) auto
  ultimately show ?case using any_verdict_rank [of "map (\<lambda>f. eval_filter env f b) fs"] by simp
next
  case (Not f)
  then have IH: "decided (eval_filter env f b)" "rank (eval_filter env f b) = kleene (\<lambda>l. rank (eval_filter env l b)) f"
    by auto
  from IH(1) show ?case by (auto simp: decided_def simp flip: IH(2))
qed simp_all

section \<open>Properties\<close>

text \<open>Errors poison: a filter tree has no answer exactly when one of its leaves has none, and then it does not
  pass, whatever its other branches say and however it is negated.\<close>

theorem error_poisons_filter:
  "(eval_filter env f b = VUndefined \<longleftrightarrow> list_ex (\<lambda>l. eval_filter env l b = VUndefined) (leaves f)) \<and>
   \<not> passes VUndefined"
  using undefined_leaf [of env f b] by (simp add: list_ex_iff passes_def)

text \<open>C39. Over leaves that are true, false or unknown, a filter tree computes the value of strong Kleene logic:
  conjunction is the minimum, disjunction the maximum, negation the reversal.\<close>

theorem filters_are_kleene:
  assumes "\<forall>l \<in> set (leaves f). decided (eval_filter env l b)"
  shows "rank (eval_filter env f b) = kleene (\<lambda>l. rank (eval_filter env l b)) f"
  using eval_filter_kleene [OF assms] by blast

definition plain_env :: datalog_env where
  "plain_env = \<lparr>powf = (\<lambda>a b. NaN), to_lowercase = (\<lambda>s. s), to_uppercase = (\<lambda>s. s), parse_rfc3339 = (\<lambda>s. None),
     parse_ymd = (\<lambda>s. None), try_milliseconds = (\<lambda>n. Some (n * 1000000)), checked_add_signed = (\<lambda>t d. Some (t + d)),
     num_milliseconds = (\<lambda>d. d div 1000000), uuid_text = (\<lambda>u. ''u''), f64_text = (\<lambda>x. ''n''), rfc3339_text = (\<lambda>t. ''t'')\<rparr>"

theorem filters_are_kleene_witness:
  "rank (eval_filter plain_env (AllOf [IsNull FNull, Compare CmpEq (LitNum (Fin 1)) FNull]) Map.empty) = 1"
proof -
  have "\<forall>l \<in> set (leaves (AllOf [IsNull FNull, Compare CmpEq (LitNum (Fin 1)) FNull])).
      decided (eval_filter plain_env l Map.empty)"
    by (simp add: decided_def)
  then show ?thesis by (subst filters_are_kleene) simp_all
qed

text \<open>A string question whose two operands both fail to evaluate passes, as if a variable were unbound, although an
  error is meant to refuse the whole tree.\<close>

lemma str_pred_on_two_errors_passes:
  assumes "eval_expr env s b = Undefined" "eval_expr env a b = Undefined"
  shows "check_one_filter env (StrPred op s a) b"
  using assms by (simp add: check_one_filter_def passes_def)

lemma str_pred_on_two_errors_example:
  "check_one_filter plain_env (StrPred Contains (Call FnLower [LitNum (Fin 1)]) (Call FnLower [LitNum (Fin 2)])) Map.empty"
  by (rule str_pred_on_two_errors_passes) simp_all

end
