(* ===== verification/Datalog_Clock.thy ===== *)
theory Datalog_Clock
  imports Datalog_Filter
begin

text \<open>
  Reading the clock once per evaluation (\<open>datalog.rs\<close>: \<open>stamp_clock\<close>, \<open>stamp_filter\<close>, \<open>stamp_expr\<close>,
  \<open>rule_reads_the_clock\<close>).
\<close>

fun expr_reads :: "filter_expr \<Rightarrow> bool" where
  "expr_reads (LitTime _) = True"
| "expr_reads (Call func args) = (func_reads_the_clock func \<or> list_ex expr_reads args)"
| "expr_reads (Neg inner) = expr_reads inner"
| "expr_reads (BinOp _ l r) = (expr_reads l \<or> expr_reads r)"
| "expr_reads _ = False"

fun filter_reads :: "builtin_filter \<Rightarrow> bool" where
  "filter_reads (Compare _ l r) = (expr_reads l \<or> expr_reads r)"
| "filter_reads (StrPred _ s a) = (expr_reads s \<or> expr_reads a)"
| "filter_reads (IsNull e) = expr_reads e"
| "filter_reads (AnyOf bs) = list_ex filter_reads bs"
| "filter_reads (AllOf bs) = list_ex filter_reads bs"
| "filter_reads (Not inner) = filter_reads inner"
| "filter_reads _ = False"

definition rule_reads_the_clock :: "datalog_rule \<Rightarrow> bool" where
  "rule_reads_the_clock rule \<longleftrightarrow>
     list_ex filter_reads (dr_filters rule) \<or> list_ex (\<lambda>h. expr_reads (he_expr h)) (dr_head_exprs rule) \<or>
     list_ex (\<lambda>b. expr_reads (rb_expr b)) (dr_bindings rule)"

fun stamp_expr :: "instant \<Rightarrow> filter_expr \<Rightarrow> filter_expr" where
  "stamp_expr now (Call func args) =
     (if func_reads_the_clock func then LitTime now else Call func (map (stamp_expr now) args))"
| "stamp_expr now (Neg inner) = Neg (stamp_expr now inner)"
| "stamp_expr now (BinOp op l r) = BinOp op (stamp_expr now l) (stamp_expr now r)"
| "stamp_expr now e = e"

fun stamp_filter :: "instant \<Rightarrow> builtin_filter \<Rightarrow> builtin_filter" where
  "stamp_filter now (Compare op l r) = Compare op (stamp_expr now l) (stamp_expr now r)"
| "stamp_filter now (StrPred op s a) = StrPred op (stamp_expr now s) (stamp_expr now a)"
| "stamp_filter now (IsNull e) = IsNull (stamp_expr now e)"
| "stamp_filter now (AnyOf bs) = AnyOf (map (stamp_filter now) bs)"
| "stamp_filter now (AllOf bs) = AllOf (map (stamp_filter now) bs)"
| "stamp_filter now (Not inner) = Not (stamp_filter now inner)"
| "stamp_filter now f = f"

definition stamp_clock :: "datalog_rule \<Rightarrow> instant \<Rightarrow> datalog_rule" where
  "stamp_clock rule now =
     (if \<not> rule_reads_the_clock rule then rule
      else rule\<lparr>dr_filters := map (stamp_filter now) (dr_filters rule),
                dr_head_exprs := map (\<lambda>h. h\<lparr>he_expr := stamp_expr now (he_expr h)\<rparr>) (dr_head_exprs rule),
                dr_bindings := map (\<lambda>b. b\<lparr>rb_expr := stamp_expr now (rb_expr b)\<rparr>) (dr_bindings rule)\<rparr>)"

section \<open>Calls that are left\<close>

fun expr_asks :: "filter_expr \<Rightarrow> bool" where
  "expr_asks (Call func args) = (func_reads_the_clock func \<or> list_ex expr_asks args)"
| "expr_asks (Neg inner) = expr_asks inner"
| "expr_asks (BinOp _ l r) = (expr_asks l \<or> expr_asks r)"
| "expr_asks _ = False"

fun filter_asks :: "builtin_filter \<Rightarrow> bool" where
  "filter_asks (Compare _ l r) = (expr_asks l \<or> expr_asks r)"
| "filter_asks (StrPred _ s a) = (expr_asks s \<or> expr_asks a)"
| "filter_asks (IsNull e) = expr_asks e"
| "filter_asks (AnyOf bs) = list_ex filter_asks bs"
| "filter_asks (AllOf bs) = list_ex filter_asks bs"
| "filter_asks (Not inner) = filter_asks inner"
| "filter_asks _ = False"

definition rule_asks :: "datalog_rule \<Rightarrow> bool" where
  "rule_asks rule \<longleftrightarrow>
     list_ex filter_asks (dr_filters rule) \<or> list_ex (\<lambda>h. expr_asks (he_expr h)) (dr_head_exprs rule) \<or>
     list_ex (\<lambda>b. expr_asks (rb_expr b)) (dr_bindings rule)"

lemma stamp_expr_facts:
  "\<not> expr_asks (stamp_expr now e)" "expr_reads (stamp_expr now e) = expr_reads e"
  "stamp_expr later (stamp_expr now e) = stamp_expr now e"
  by (induction e) (auto simp: list_ex_iff)

lemma expr_asks_reads: "expr_asks e \<Longrightarrow> expr_reads e"
  by (induction e) (auto simp: list_ex_iff)

lemma stamp_filter_facts:
  "\<not> filter_asks (stamp_filter now f)" "filter_reads (stamp_filter now f) = filter_reads f"
  "stamp_filter later (stamp_filter now f) = stamp_filter now f"
  by (induction f) (auto simp: list_ex_iff stamp_expr_facts)

lemma filter_asks_reads: "filter_asks f \<Longrightarrow> filter_reads f"
  by (induction f) (auto simp: list_ex_iff dest: expr_asks_reads)

lemma rule_asks_reads: "rule_asks r \<Longrightarrow> rule_reads_the_clock r"
  unfolding rule_asks_def rule_reads_the_clock_def list_ex_iff
  by (blast dest: expr_asks_reads filter_asks_reads)

lemma stamp_clock_parts:
  "dr_head (stamp_clock r now) = dr_head r" "dr_body (stamp_clock r now) = dr_body r"
  "dr_aggregates (stamp_clock r now) = dr_aggregates r" "dr_negated (stamp_clock r now) = dr_negated r"
  "map he_index (dr_head_exprs (stamp_clock r now)) = map he_index (dr_head_exprs r)"
  by (simp_all add: stamp_clock_def comp_def)

lemma stamp_clock_asks: "\<not> rule_asks (stamp_clock r now)"
proof (cases "rule_reads_the_clock r")
  case True
  then show ?thesis
    by (auto simp: stamp_clock_def rule_asks_def list_ex_iff stamp_expr_facts(1) stamp_filter_facts(1))
next
  case False
  then show ?thesis using rule_asks_reads by (auto simp: stamp_clock_def)
qed

lemma stamp_clock_reads: "rule_reads_the_clock (stamp_clock r now) = rule_reads_the_clock r"
  by (auto simp: stamp_clock_def rule_reads_the_clock_def list_ex_iff stamp_expr_facts(2) stamp_filter_facts(2))

lemma stamp_clock_again: "stamp_clock (stamp_clock r now) later = stamp_clock r now"
  by (cases r) (auto simp: stamp_clock_def stamp_clock_reads stamp_expr_facts(3) stamp_filter_facts(3) comp_def
      rule_reads_the_clock_def)

section \<open>Property\<close>

text \<open>Stamping reads the clock once: a stamped rule has no call of \<open>now()\<close> left, a later stamping changes nothing, and
  whether the rule depends on the clock is still visible after stamping.\<close>

theorem clock_is_read_once:
  "\<not> rule_asks (stamp_clock rule now) \<and> stamp_clock (stamp_clock rule now) later = stamp_clock rule now \<and>
   rule_reads_the_clock (stamp_clock rule now) = rule_reads_the_clock rule"
  by (simp add: stamp_clock_asks stamp_clock_again stamp_clock_reads)

end
