(* ===== verification/Datalog_Match.thy ===== *)
theory Datalog_Match
  imports Datalog_Clock
begin

text \<open>
  Matching a rule's body against a fact set (\<open>datalog.rs\<close>: \<open>try_unify\<close>, \<open>collect_bindings\<close>,
  \<open>negated_atom_matches\<close>, \<open>instantiate_head\<close> and the provenance steps), and the declarative reading of a body:
  the valuations of its named variables under which every atom is a stored fact.
\<close>

section \<open>Rendering and provenance\<close>

fun term_to_string :: "'x datalog_env_scheme \<Rightarrow> dl_term \<Rightarrow> string" where
  "term_to_string env (Var s) = s"
| "term_to_string env (Const u) = uuid_text env u"
| "term_to_string env (ConstStr s) = s"
| "term_to_string env (ConstFloat f) = f64_text env f"
| "term_to_string env (ConstTime t) = rfc3339_text env t"
| "term_to_string env ConstNull = ''null''"

fun extract_src_dst :: "'x datalog_env_scheme \<Rightarrow> dl_term list \<Rightarrow> string \<times> string" where
  "extract_src_dst env [] = ([], [])"
| "extract_src_dst env [s] = (term_to_string env s, [])"
| "extract_src_dst env (s # d # _) = (term_to_string env s, term_to_string env d)"

definition make_provenance_step :: "'x datalog_env_scheme \<Rightarrow> string \<Rightarrow> dl_term list \<Rightarrow> provenance_step" where
  "make_provenance_step env predicate args =
     (let (src, dst) = extract_src_dst env args in
      \<lparr>ps_parent_src = src, ps_parent_pred = predicate, ps_parent_dst = dst, ps_parent_kind = ''base''\<rparr>)"

fun subst_term :: "binding \<Rightarrow> dl_term \<Rightarrow> dl_term" where
  "subst_term b (Var name) = (case b name of Some t \<Rightarrow> t | None \<Rightarrow> Var name)"
| "subst_term b other = other"

definition instantiate :: "dl_term list \<Rightarrow> binding \<Rightarrow> dl_term list" where
  "instantiate args b = map (subst_term b) args"

definition make_absence_step :: "'x datalog_env_scheme \<Rightarrow> atom \<Rightarrow> binding \<Rightarrow> provenance_step" where
  "make_absence_step env a b =
     (let (src, dst) = extract_src_dst env (instantiate (at_args a) b) in
      \<lparr>ps_parent_src = src, ps_parent_pred = at_predicate a, ps_parent_dst = dst,
       ps_parent_kind = PROVENANCE_KIND_ABSENCE\<rparr>)"

section \<open>Unification\<close>

definition is_anon :: "string \<Rightarrow> bool" where
  "is_anon name = starts_with name ''_anon_''"

text \<open>The loop over \<open>atom_args.iter().zip(fact_args)\<close>: it ends with the shorter list.\<close>

fun try_unify :: "dl_term list \<Rightarrow> dl_term list \<Rightarrow> binding \<Rightarrow> binding option" where
  "try_unify (Var name # as) (t # ts) b =
     (if is_anon name then try_unify as ts b
      else case b name of
        Some bound \<Rightarrow> if bound \<noteq> t then None else try_unify as ts b
      | None \<Rightarrow> try_unify as ts (b(name \<mapsto> t)))"
| "try_unify (a # as) (t # ts) b = (if a \<noteq> t then None else try_unify as ts b)"
| "try_unify _ _ b = Some b"

type_synonym candidate = "binding \<times> provenance_step list"

text \<open>One round of the fold over the body: every candidate against every row of the atom's predicate.\<close>

definition extend_by_row :: "'x datalog_env_scheme \<Rightarrow> atom \<Rightarrow> candidate \<Rightarrow> dl_term list \<Rightarrow> candidate option" where
  "extend_by_row env a c row =
     (if length row \<noteq> length (at_args a) then None
      else case try_unify (at_args a) row (fst c) of
        None \<Rightarrow> None
      | Some b \<Rightarrow> Some (b, snd c @ [make_provenance_step env (at_predicate a) row]))"

definition extend_by_atom :: "'x datalog_env_scheme \<Rightarrow> fact_set \<Rightarrow> atom \<Rightarrow> candidate list \<Rightarrow> candidate list" where
  "extend_by_atom env F a cs =
     concat (map (\<lambda>c. case fs_get F (at_predicate a) of
         None \<Rightarrow> []
       | Some rows \<Rightarrow> List.map_filter (extend_by_row env a c) rows) cs)"

definition join_body :: "'x datalog_env_scheme \<Rightarrow> fact_set \<Rightarrow> atom list \<Rightarrow> candidate list" where
  "join_body env F body = fold (extend_by_atom env F) body [(Map.empty, [])]"

section \<open>Bindings, filters and negation\<close>

fun apply_bindings :: "'x datalog_env_scheme \<Rightarrow> rule_binding list \<Rightarrow> binding \<Rightarrow> binding option" where
  "apply_bindings env [] b = Some b"
| "apply_bindings env (rb # rest) b =
     (case term_of_eval (eval_expr env (rb_expr rb) b) of
        None \<Rightarrow> None
      | Some v \<Rightarrow> apply_bindings env rest (b(rb_var rb \<mapsto> v)))"

fun negated_term_fits :: "binding \<Rightarrow> dl_term \<Rightarrow> dl_term \<Rightarrow> bool" where
  "negated_term_fits b (Var name) actual = (case b name of Some bound \<Rightarrow> bound = actual | None \<Rightarrow> True)"
| "negated_term_fits b constant actual = (constant = actual)"

definition negated_row_fits :: "binding \<Rightarrow> atom \<Rightarrow> dl_term list \<Rightarrow> bool" where
  "negated_row_fits b a row \<longleftrightarrow>
     length row = length (at_args a) \<and> list_all (\<lambda>(p, t). negated_term_fits b p t) (zip (at_args a) row)"

definition negated_atom_matches :: "atom \<Rightarrow> binding \<Rightarrow> fact_set \<Rightarrow> bool" where
  "negated_atom_matches a b F =
     (case fs_get F (at_predicate a) of None \<Rightarrow> False | Some rows \<Rightarrow> list_ex (negated_row_fits b a) rows)"

fun check_negated :: "'x datalog_env_scheme \<Rightarrow> fact_set \<Rightarrow> atom list \<Rightarrow> candidate \<Rightarrow> candidate option" where
  "check_negated env F [] c = Some c"
| "check_negated env F (a # rest) c =
     (if negated_atom_matches a (fst c) F then None
      else check_negated env F rest (fst c, snd c @ [make_absence_step env a (fst c)]))"

definition bind_candidate :: "'x datalog_env_scheme \<Rightarrow> rule_binding list \<Rightarrow> candidate \<Rightarrow> candidate option" where
  "bind_candidate env rbs c = map_option (\<lambda>b. (b, snd c)) (apply_bindings env rbs (fst c))"

definition collect_bindings :: "'x datalog_env_scheme \<Rightarrow> datalog_rule \<Rightarrow> fact_set \<Rightarrow> candidate list" where
  "collect_bindings env rule F =
     List.map_filter (check_negated env F (dr_negated rule))
       (filter (\<lambda>c. check_filters env (dr_filters rule) (fst c))
         (List.map_filter (bind_candidate env (dr_bindings rule)) (join_body env F (dr_body rule))))"

text \<open>Computing the expression arguments of a head; an index past the end ends the loop with nothing.\<close>

fun apply_head_exprs :: "'x datalog_env_scheme \<Rightarrow> head_expr list \<Rightarrow> binding \<Rightarrow> dl_term list \<Rightarrow> dl_term list option" where
  "apply_head_exprs env [] b args = Some args"
| "apply_head_exprs env (he # rest) b args =
     (case term_of_eval (eval_expr env (he_expr he) b) of
        None \<Rightarrow> None
      | Some v \<Rightarrow> if he_index he < length args then apply_head_exprs env rest b (args[he_index he := v]) else None)"

definition instantiate_head :: "'x datalog_env_scheme \<Rightarrow> datalog_rule \<Rightarrow> binding \<Rightarrow> dl_term list option" where
  "instantiate_head env rule b = apply_head_exprs env (dr_head_exprs rule) b (instantiate (at_args (dr_head rule)) b)"

section \<open>The declarative reading of a body\<close>

fun named :: "dl_term \<Rightarrow> string set" where
  "named (Var name) = (if is_anon name then {} else {name})"
| "named _ = {}"

definition atom_vars :: "atom \<Rightarrow> string set" where
  "atom_vars a = \<Union> (named ` set (at_args a))"

definition body_vars :: "atom list \<Rightarrow> string set" where
  "body_vars body = \<Union> (atom_vars ` set body)"

fun term_fits :: "binding \<Rightarrow> dl_term \<Rightarrow> dl_term \<Rightarrow> bool" where
  "term_fits b (Var name) t = (is_anon name \<or> b name = Some t)"
| "term_fits b c t = (c = t)"

definition atom_holds :: "(string \<times> dl_term list) set \<Rightarrow> binding \<Rightarrow> atom \<Rightarrow> bool" where
  "atom_holds I b a \<longleftrightarrow> (\<exists>row. (at_predicate a, row) \<in> I \<and> list_all2 (term_fits b) (at_args a) row)"

definition solves :: "(string \<times> dl_term list) set \<Rightarrow> atom list \<Rightarrow> binding \<Rightarrow> bool" where
  "solves I body b \<longleftrightarrow> dom b = body_vars body \<and> (\<forall>a \<in> set body. atom_holds I b a)"

lemma term_fits_agree:
  "(\<And>x. x \<in> named p \<Longrightarrow> b x = c x) \<Longrightarrow> term_fits b p t = term_fits c p t"
proof (cases p)
  case (Var name)
  assume "\<And>x. x \<in> named p \<Longrightarrow> b x = c x"
  from this [of name] show ?thesis using Var by (cases "is_anon name") simp_all
qed simp_all

lemma atom_holds_agree:
  assumes "\<And>x. x \<in> atom_vars a \<Longrightarrow> b x = c x"
  shows "atom_holds I b a = atom_holds I c a"
proof -
  have "list_all2 (term_fits b) (at_args a) row = list_all2 (term_fits c) (at_args a) row" for row
    using assms by (intro list.rel_cong) (auto simp: atom_vars_def intro!: term_fits_agree)
  then show ?thesis by (simp add: atom_holds_def)
qed

lemma atom_holds_mono: "atom_holds I b a \<Longrightarrow> I \<subseteq> J \<Longrightarrow> atom_holds J b a"
  by (auto simp: atom_holds_def)

lemma solves_mono: "solves I body b \<Longrightarrow> I \<subseteq> J \<Longrightarrow> solves J body b"
  by (auto simp: solves_def intro: atom_holds_mono)

lemma try_unify_iff:
  "length row = length as \<Longrightarrow>
    try_unify as row b = Some c \<longleftrightarrow>
      b \<subseteq>\<^sub>m c \<and> dom c = dom b \<union> \<Union> (named ` set as) \<and> list_all2 (term_fits c) as row"
proof (induction as row b rule: try_unify.induct)
  case (1 name as t ts b)
  show ?case
  proof (cases "is_anon name")
    case True
    then show ?thesis using 1 by simp
  next
    case named: False
    show ?thesis
    proof (cases "b name")
      case None
      then have "b(name \<mapsto> t) \<subseteq>\<^sub>m c \<longleftrightarrow> b \<subseteq>\<^sub>m c \<and> c name = Some t"
        by (auto simp: map_le_def)
      moreover have "try_unify as ts (b(name \<mapsto> t)) = Some c \<longleftrightarrow> b(name \<mapsto> t) \<subseteq>\<^sub>m c \<and>
          dom c = dom (b(name \<mapsto> t)) \<union> \<Union> (named ` set as) \<and> list_all2 (term_fits c) as ts"
        using "1.prems" by (intro "1.IH"(2) [OF named None]) simp
      ultimately show ?thesis using named None by (simp del: fun_upd_apply) (auto simp del: fun_upd_apply)
    next
      case (Some bound)
      then have "b \<subseteq>\<^sub>m c \<Longrightarrow> c name = Some bound" "name \<in> dom b"
        by (auto simp: map_le_def dom_def)
      moreover from this(2) have "dom b \<union> insert name (\<Union> (named ` set as)) = dom b \<union> \<Union> (named ` set as)" by blast
      moreover have "try_unify as ts b = Some c \<longleftrightarrow> b \<subseteq>\<^sub>m c \<and> dom c = dom b \<union> \<Union> (named ` set as) \<and>
          list_all2 (term_fits c) as ts" if "bound = t"
        using "1.IH"(3) [OF named Some] "1.prems" that by simp
      ultimately show ?thesis using named Some by (cases "bound = t") (simp_all, auto)
    qed
  qed
qed (auto simp: map_le_antisym map_le_def intro!: map_le_antisym)

lemma set_map_filter: "set (List.map_filter f xs) = {y. \<exists>x \<in> set xs. f x = Some y}"
  by (force simp: List.map_filter_def)

lemma extend_by_atom_set:
  "set (extend_by_atom env F a cs) =
     {(c, q). \<exists>(b, p) \<in> set cs. \<exists>row. (at_predicate a, row) \<in> facts_of F \<and> length row = length (at_args a) \<and>
        try_unify (at_args a) row b = Some c \<and> q = p @ [make_provenance_step env (at_predicate a) row]}"
proof (cases "fs_get F (at_predicate a)")
  case None
  then show ?thesis by (auto simp: extend_by_atom_def facts_of_def fs_contains_def)
next
  case (Some rows)
  have row: "extend_by_row env a (b, p) row = Some (c, q) \<longleftrightarrow> length row = length (at_args a) \<and>
      try_unify (at_args a) row b = Some c \<and> q = p @ [make_provenance_step env (at_predicate a) row]" for b p row c q
    by (auto simp: extend_by_row_def split: option.splits)
  have "(c, q) \<in> set (extend_by_atom env F a cs) \<longleftrightarrow>
      (\<exists>(b, p) \<in> set cs. \<exists>row \<in> set rows. extend_by_row env a (b, p) row = Some (c, q))" for c q
    using Some by (auto simp: extend_by_atom_def set_map_filter)
  then show ?thesis unfolding row fs_rows [OF Some] by (intro set_eqI) (simp only: split_paired_all mem_Collect_eq split Bex_def)
qed

lemma extend_by_atom_iff:
  "c \<in> fst ` set (extend_by_atom env F a cs) \<longleftrightarrow>
     (\<exists>b \<in> fst ` set cs. b \<subseteq>\<^sub>m c \<and> dom c = dom b \<union> atom_vars a \<and> atom_holds (facts_of F) c a)"
  (is "?lhs \<longleftrightarrow> ?rhs")
proof -
  have "?lhs \<longleftrightarrow> (\<exists>b \<in> fst ` set cs. \<exists>row. (at_predicate a, row) \<in> facts_of F \<and> length row = length (at_args a) \<and>
      try_unify (at_args a) row b = Some c)"
    unfolding extend_by_atom_set image_iff by (simp add: Bex_def split_beta) blast
  also have "\<dots> \<longleftrightarrow> ?rhs"
    unfolding atom_holds_def atom_vars_def
    by (intro bex_cong HOL.refl) (metis (no_types, lifting) list_all2_lengthD try_unify_iff)
  finally show ?thesis .
qed

lemma join_body_snoc: "join_body env F (body @ [a]) = extend_by_atom env F a (join_body env F body)"
  by (simp add: join_body_def)

lemma body_vars_snoc: "body_vars (body @ [a]) = body_vars body \<union> atom_vars a"
  by (auto simp: body_vars_def)

lemma join_body_iff: "b \<in> fst ` set (join_body env F body) \<longleftrightarrow> solves (facts_of F) body b"
proof (induction body arbitrary: b rule: rev_induct)
  case Nil
  show ?case by (auto simp: join_body_def solves_def body_vars_def)
next
  case (snoc a body)
  have "solves (facts_of F) (body @ [a]) b" if "solves (facts_of F) body c" "c \<subseteq>\<^sub>m b"
    "dom b = dom c \<union> atom_vars a" "atom_holds (facts_of F) b a" for c
  proof -
    have "atom_holds (facts_of F) b x" if "x \<in> set body" for x
    proof -
      have "atom_vars x \<subseteq> dom c" using \<open>solves _ _ c\<close> that by (auto simp: solves_def body_vars_def)
      then have "atom_holds (facts_of F) b x = atom_holds (facts_of F) c x"
        using \<open>c \<subseteq>\<^sub>m b\<close> by (intro atom_holds_agree) (metis map_le_def subsetD)
      then show ?thesis using \<open>solves _ _ c\<close> that by (simp add: solves_def)
    qed
    then show ?thesis using that by (auto simp: solves_def body_vars_snoc)
  qed
  moreover have "\<exists>c. solves (facts_of F) body c \<and> c \<subseteq>\<^sub>m b \<and> dom b = dom c \<union> atom_vars a \<and> atom_holds (facts_of F) b a"
    if "solves (facts_of F) (body @ [a]) b"
  proof (intro exI conjI)
    let ?c = "b |` body_vars body"
    have "atom_holds (facts_of F) ?c x" if "x \<in> set body" for x
    proof -
      have "atom_holds (facts_of F) ?c x = atom_holds (facts_of F) b x"
        using that by (intro atom_holds_agree) (auto simp: body_vars_def restrict_map_def)
      then show ?thesis using that \<open>solves _ (body @ [a]) b\<close> by (simp add: solves_def)
    qed
    then show "solves (facts_of F) body ?c" "dom b = dom ?c \<union> atom_vars a" "atom_holds (facts_of F) b a"
      using that by (auto simp: solves_def body_vars_snoc)
    show "?c \<subseteq>\<^sub>m b" by (auto simp: map_le_def restrict_map_def)
  qed
  ultimately show ?case
    unfolding join_body_snoc extend_by_atom_iff snoc.IH Bex_def by blast
qed

definition negated_holds :: "(string \<times> dl_term list) set \<Rightarrow> binding \<Rightarrow> atom \<Rightarrow> bool" where
  "negated_holds I b a \<longleftrightarrow> (\<exists>row. (at_predicate a, row) \<in> I \<and> list_all2 (negated_term_fits b) (at_args a) row)"

definition fires :: "'x datalog_env_scheme \<Rightarrow> (string \<times> dl_term list) set \<Rightarrow> datalog_rule \<Rightarrow> binding \<Rightarrow> bool" where
  "fires env I rule b \<longleftrightarrow>
     (\<exists>c. solves I (dr_body rule) c \<and> apply_bindings env (dr_bindings rule) c = Some b) \<and>
     check_filters env (dr_filters rule) b \<and> (\<forall>a \<in> set (dr_negated rule). \<not> negated_holds I b a)"

lemma negated_row_fits_iff: "negated_row_fits b a row \<longleftrightarrow> list_all2 (negated_term_fits b) (at_args a) row"
  by (auto simp: negated_row_fits_def list_all2_iff list_all_iff)

lemma negated_atom_matches_iff: "negated_atom_matches a b F \<longleftrightarrow> negated_holds (facts_of F) b a"
  by (auto simp: negated_atom_matches_def negated_holds_def negated_row_fits_iff list_ex_iff facts_of_def fs_contains_def
      split: option.splits)

lemma check_negated_iff:
  "check_negated env F negs c = Some d \<longleftrightarrow>
     (\<forall>a \<in> set negs. \<not> negated_holds (facts_of F) (fst c) a) \<and>
     d = (fst c, snd c @ map (\<lambda>a. make_absence_step env a (fst c)) negs)"
  by (induction env F negs c rule: check_negated.induct) (auto simp: negated_atom_matches_iff)

lemma collect_bindings_set:
  "set (collect_bindings env rule F) =
     {(b, p). \<exists>(c, q) \<in> set (join_body env F (dr_body rule)). apply_bindings env (dr_bindings rule) c = Some b \<and>
        check_filters env (dr_filters rule) b \<and> (\<forall>a \<in> set (dr_negated rule). \<not> negated_holds (facts_of F) b a) \<and>
        p = q @ map (\<lambda>a. make_absence_step env a b) (dr_negated rule)}"
  by (auto simp: collect_bindings_def set_map_filter bind_candidate_def check_negated_iff) force

lemma collect_bindings_iff:
  "b \<in> fst ` set (collect_bindings env rule F) \<longleftrightarrow> fires env (facts_of F) rule b"
proof -
  have "b \<in> fst ` set (collect_bindings env rule F) \<longleftrightarrow>
      (\<exists>c \<in> fst ` set (join_body env F (dr_body rule)). apply_bindings env (dr_bindings rule) c = Some b \<and>
        check_filters env (dr_filters rule) b \<and> (\<forall>a \<in> set (dr_negated rule). \<not> negated_holds (facts_of F) b a))"
    unfolding collect_bindings_set image_iff by (simp add: Bex_def split_beta) blast
  then show ?thesis unfolding fires_def Bex_def join_body_iff by blast
qed

section \<open>Provenance of a match\<close>

lemma provenance_kinds [simp]:
  "ps_parent_kind (make_provenance_step env p row) = ''base''"
  "ps_parent_kind (make_absence_step env a b) = PROVENANCE_KIND_ABSENCE"
  by (simp_all add: make_provenance_step_def make_absence_step_def split_beta)

lemma join_body_provenance:
  "(b, p) \<in> set (join_body env F body) \<Longrightarrow> map ps_parent_kind p = replicate (length body) ''base''"
proof (induction body arbitrary: b p rule: rev_induct)
  case (snoc a body)
  then show ?case by (auto simp: join_body_snoc extend_by_atom_set simp flip: replicate_append_same)
qed (simp add: join_body_def)

lemma collect_bindings_provenance:
  assumes "(b, p) \<in> set (collect_bindings env rule F)"
  shows "map ps_parent_kind p =
    replicate (length (dr_body rule)) ''base'' @ replicate (length (dr_negated rule)) PROVENANCE_KIND_ABSENCE"
  using assms by (auto simp: collect_bindings_set comp_def map_replicate_const dest: join_body_provenance)

section \<open>Property\<close>

text \<open>C36. The nested-loop join with its bindings, filters and negation produces exactly the bindings the rule's declarative
  reading asks for: the valuations of the body's named variables under which every positive atom is a stored fact,
  extended by the computed bindings, that pass the filters and under which no negated atom matches a stored fact.\<close>

theorem rule_matching_is_exact:
  "set (map fst (collect_bindings env rule F)) = {b. fires env (facts_of F) rule b}"
  by (intro set_eqI) (simp only: set_map collect_bindings_iff mem_Collect_eq)

end
