(* ===== verification/Datalog_Aggregate.thy ===== *)
theory Datalog_Aggregate
  imports Datalog_Match
begin

text \<open>
  Aggregates (\<open>datalog.rs\<close>: \<open>Fold\<close>, \<open>visit_conjunction\<close>, \<open>fold_inner_matches\<close>, \<open>finish_retained\<close>,
  \<open>apply_aggregate\<close>, \<open>seed_bindings_from_inner\<close>, \<open>evaluate_rule_with_aggregates\<close>). Sorting numbers that hold a NaN and
  indexing past the end of a group panic, so what runs a fold returns an option whose \<open>None\<close> is the panic.
\<close>

type_synonym 'a outcome = "'a option"

section \<open>Folds\<close>

definition DISTINCT_VALUE_CAP :: nat where "DISTINCT_VALUE_CAP = 10000"
definition RETAINED_VALUE_CAP :: nat where "RETAINED_VALUE_CAP = 10000"

fun compare_terms :: "dl_term \<Rightarrow> dl_term \<Rightarrow> ordering option" where
  "compare_terms (ConstFloat x) (ConstFloat y) = Some (total_cmp x y)"
| "compare_terms (ConstStr x) (ConstStr y) = Some (cmp_of x y)"
| "compare_terms (Const x) (Const y) = Some (cmp_of x y)"
| "compare_terms (ConstTime x) (ConstTime y) = Some (cmp_of x y)"
| "compare_terms _ _ = None"

datatype fold_state =
    FoldCount nat
  | FoldSum f64
  | Extreme ordering "dl_term option"
  | FoldAvg f64 nat
  | Distinct "dl_term list"
  | Spread nat f64 f64
  | Retained "dl_term list"
  | TypeError

fun fold_start :: "aggregate_kind \<Rightarrow> fold_state" where
  "fold_start Count = FoldCount 0"
| "fold_start Sum = FoldSum (Fin 0)"
| "fold_start Min = Extreme Less None"
| "fold_start Max = Extreme Greater None"
| "fold_start Avg = FoldAvg (Fin 0) 0"
| "fold_start CountDistinct = Distinct []"
| "fold_start StdDev = Spread 0 (Fin 0) (Fin 0)"
| "fold_start _ = Retained []"

fun extreme_step :: "ordering \<Rightarrow> dl_term option \<Rightarrow> dl_term \<Rightarrow> fold_state \<times> bool" where
  "extreme_step want None value = (Extreme want (Some value), True)"
| "extreme_step want (Some current) value =
     (case compare_terms value current of
        Some ord \<Rightarrow> (Extreme want (Some (if ord = want then value else current)), True)
      | None \<Rightarrow> (TypeError, False))"

fun spread_step :: "nat \<Rightarrow> f64 \<Rightarrow> f64 \<Rightarrow> f64 \<Rightarrow> fold_state" where
  "spread_step n mean m2 v =
     (let n' = n + 1; delta = f64_sub v mean;
          mean' = f64_add mean (f64_div delta (of_integer (int n')))
      in Spread n' mean' (f64_add m2 (f64_mul delta (f64_sub v mean'))))"

text \<open>\<open>step\<close> on a value that is there.\<close>

fun step_value :: "fold_state \<Rightarrow> dl_term \<Rightarrow> fold_state \<times> bool" where
  "step_value (Distinct seen) value =
     (let seen' = (if value \<in> set seen then seen else seen @ [value]) in
      if DISTINCT_VALUE_CAP < length seen' then (TypeError, False) else (Distinct seen', True))"
| "step_value (Retained values) value =
     (let values' = values @ [value] in
      if RETAINED_VALUE_CAP < length values' then (TypeError, False) else (Retained values', True))"
| "step_value (Spread n mean m2) (ConstFloat v) = (spread_step n mean m2 v, True)"
| "step_value (Spread _ _ _) _ = (TypeError, False)"
| "step_value (Extreme want best) value = extreme_step want best value"
| "step_value (FoldSum acc) (ConstFloat v) = (FoldSum (f64_add acc v), True)"
| "step_value (FoldSum _) _ = (TypeError, False)"
| "step_value (FoldAvg acc n) (ConstFloat v) = (FoldAvg (f64_add acc v) (n + 1), True)"
| "step_value (FoldAvg _ _) _ = (TypeError, False)"
| "step_value (FoldCount n) _ = (FoldCount (n + 1), True)"
| "step_value TypeError _ = (TypeError, False)"

fun fold_step :: "fold_state \<Rightarrow> dl_term option \<Rightarrow> fold_state \<times> bool" where
  "fold_step (FoldCount n) _ = (FoldCount (n + 1), True)"
| "fold_step TypeError _ = (TypeError, False)"
| "fold_step _ None = (TypeError, False)"
| "fold_step s (Some value) = step_value s value"

section \<open>Finishing a fold\<close>

fun as_numbers :: "dl_term list \<Rightarrow> f64 list option" where
  "as_numbers [] = Some []"
| "as_numbers (ConstFloat f # rest) = map_option ((#) f) (as_numbers rest)"
| "as_numbers _ = None"

text \<open>Sorting compares every element of a list of two or more, and \<open>expect\<close> panics on a NaN.\<close>

definition sort_numbers :: "f64 list \<Rightarrow> f64 list outcome" where
  "sort_numbers nums = (if 2 \<le> length nums \<and> NaN \<in> set nums then None else Some (sort nums))"

definition rank_value :: "f64 list \<Rightarrow> f64 \<Rightarrow> dl_term outcome" where
  "rank_value nums fraction =
     (let idx = f64_mul fraction (of_integer (int (length nums - 1)));
          lo = as_usize (f64_floor idx);
          hi = as_usize (f64_ceil idx);
          frac = f64_sub idx (of_integer (int lo))
      in if lo < length nums \<and> hi < length nums
         then Some (ConstFloat (f64_add (nums ! lo) (f64_mul frac (f64_sub (nums ! hi) (nums ! lo)))))
         else None)"

definition group_concat :: "'x datalog_env_scheme \<Rightarrow> dl_term option \<Rightarrow> dl_term list \<Rightarrow> dl_term option" where
  "group_concat env param values =
     (case param of
        Some (ConstStr sep) \<Rightarrow> Some (ConstStr (join_strings sep (sort (map (term_to_string env) values))))
      | _ \<Rightarrow> None)"

definition fraction_of :: "aggregate_kind \<Rightarrow> dl_term option \<Rightarrow> f64 option" where
  "fraction_of kind param =
     (if kind = Median then Some (Fin (1 / 2))
      else case param of Some (ConstFloat p) \<Rightarrow> Some p | _ \<Rightarrow> None)"

definition finish_retained ::
  "'x datalog_env_scheme \<Rightarrow> aggregate_kind \<Rightarrow> dl_term option \<Rightarrow> dl_term list \<Rightarrow> dl_term option outcome" where
  "finish_retained env kind param values =
     (if values = [] then Some (identity_over_empty kind)
      else if kind = GroupConcat then Some (group_concat env param values)
      else case as_numbers values of
        None \<Rightarrow> Some None
      | Some nums \<Rightarrow> (case sort_numbers nums of
          None \<Rightarrow> None
        | Some sorted_nums \<Rightarrow> (case fraction_of kind param of
            None \<Rightarrow> Some None
          | Some fraction \<Rightarrow> map_option Some (rank_value sorted_nums fraction))))"

fun fold_finish ::
  "'x datalog_env_scheme \<Rightarrow> fold_state \<Rightarrow> aggregate_kind \<Rightarrow> dl_term option \<Rightarrow> dl_term option outcome" where
  "fold_finish env TypeError kind param = Some None"
| "fold_finish env (FoldCount n) kind param = Some (Some (ConstFloat (of_integer (int n))))"
| "fold_finish env (Distinct seen) kind param = Some (Some (ConstFloat (of_integer (int (length seen)))))"
| "fold_finish env (Spread n _ m2) kind param =
     Some (if n = 0 then identity_over_empty kind
           else Some (ConstFloat (f64_sqrt (f64_div m2 (of_integer (int n))))))"
| "fold_finish env (Retained values) kind param = finish_retained env kind param values"
| "fold_finish env (FoldSum acc) kind param = Some (Some (ConstFloat acc))"
| "fold_finish env (Extreme _ best) kind param =
     Some (case best of Some t \<Rightarrow> Some t | None \<Rightarrow> identity_over_empty kind)"
| "fold_finish env (FoldAvg acc n) kind param =
     Some (if n = 0 then identity_over_empty kind else Some (ConstFloat (f64_div acc (of_integer (int n)))))"

section \<open>Visiting the inner matches\<close>

text \<open>A loop whose body may ask to stop; the flag says whether it ran to the end.\<close>

fun visit_each :: "('s \<Rightarrow> 'r \<Rightarrow> 's \<times> bool) \<Rightarrow> 'r list \<Rightarrow> 's \<Rightarrow> 's \<times> bool" where
  "visit_each f [] s = (s, True)"
| "visit_each f (r # rs) s = (case f s r of (s', go) \<Rightarrow> if go then visit_each f rs s' else (s', False))"

fun visit_conjunction ::
  "fact_set \<Rightarrow> ('s \<Rightarrow> binding \<Rightarrow> 's \<times> bool) \<Rightarrow> atom list \<Rightarrow> binding \<Rightarrow> 's \<Rightarrow> 's \<times> bool" where
  "visit_conjunction F visit [] b s = visit s b"
| "visit_conjunction F visit (a # as) b s =
     (case fs_get F (at_predicate a) of
        None \<Rightarrow> (s, True)
      | Some rows \<Rightarrow> visit_each (\<lambda>s row. case try_unify (at_args a) row b of
            None \<Rightarrow> (s, True)
          | Some extended \<Rightarrow> visit_conjunction F visit as extended s) rows s)"

definition inner_atoms :: "aggregate \<Rightarrow> atom list" where
  "inner_atoms agg = (if ag_inner_conjunction agg = [] then [ag_inner agg] else ag_inner_conjunction agg)"

definition visit_inner_matches ::
  "aggregate \<Rightarrow> binding \<Rightarrow> fact_set \<Rightarrow> ('s \<Rightarrow> binding \<Rightarrow> 's \<times> bool) \<Rightarrow> 's \<Rightarrow> 's" where
  "visit_inner_matches agg b F visit s = fst (visit_conjunction F visit (inner_atoms agg) b s)"

definition value_of :: "aggregate \<Rightarrow> binding \<Rightarrow> dl_term option" where
  "value_of agg solved = Option.bind (ag_value_var agg) solved"

definition absorb :: "aggregate \<Rightarrow> fold_state \<Rightarrow> binding \<Rightarrow> fold_state \<times> bool" where
  "absorb agg s solved =
     (if value_of agg solved = Some ConstNull then (s, True) else fold_step s (value_of agg solved))"

definition fold_inner_matches ::
  "'x datalog_env_scheme \<Rightarrow> aggregate \<Rightarrow> binding \<Rightarrow> fact_set \<Rightarrow> dl_term option outcome" where
  "fold_inner_matches env agg b F =
     fold_finish env (visit_inner_matches agg b F (absorb agg) (fold_start (ag_kind agg))) (ag_kind agg) (ag_param agg)"

fun collect_conjunction_bindings :: "fact_set \<Rightarrow> atom list \<Rightarrow> binding \<Rightarrow> binding list" where
  "collect_conjunction_bindings F [] b = [b]"
| "collect_conjunction_bindings F (a # as) b =
     (case fs_get F (at_predicate a) of
        None \<Rightarrow> []
      | Some rows \<Rightarrow> concat (map (\<lambda>row. case try_unify (at_args a) row b of
            None \<Rightarrow> []
          | Some extended \<Rightarrow> collect_conjunction_bindings F as extended) rows))"

section \<open>Grouping\<close>

definition group_key :: "aggregate \<Rightarrow> binding \<Rightarrow> dl_term list" where
  "group_key agg b = map (\<lambda>v. case b v of Some t \<Rightarrow> t | None \<Rightarrow> Var v) (ag_group_vars agg)"

definition seed_bindings_from_inner :: "aggregate \<Rightarrow> fact_set \<Rightarrow> candidate list" where
  "seed_bindings_from_inner agg F =
     map (\<lambda>key. (map_of (rev (zip (ag_group_vars agg) key)), []))
       (rev (remdups (rev (map (group_key agg) (collect_conjunction_bindings F (inner_atoms agg) Map.empty)))))"

text \<open>\<open>groups.entry(key).or_default().push(member)\<close>.\<close>

fun group_push :: "'k \<Rightarrow> 'm \<Rightarrow> ('k \<times> 'm list) list \<Rightarrow> ('k \<times> 'm list) list" where
  "group_push k m [] = [(k, [m])]"
| "group_push k m ((j, ms) # rest) = (if k = j then (j, ms @ [m]) # rest else (j, ms) # group_push k m rest)"

definition group_candidates :: "aggregate \<Rightarrow> candidate list \<Rightarrow> (dl_term list \<times> candidate list) list" where
  "group_candidates agg cs = fold (\<lambda>c. group_push (group_key agg (fst c)) c) cs []"

definition bind_output :: "'x datalog_env_scheme \<Rightarrow> aggregate \<Rightarrow> dl_term \<Rightarrow> candidate \<Rightarrow> candidate" where
  "bind_output env agg value c =
     ((fst c)(ag_output_var agg \<mapsto> value),
      snd c @ [make_provenance_step env
        (aggregate_keyword (ag_kind agg) @ ''('' @ at_predicate (ag_inner agg) @ '')'') [value]])"

text \<open>The members of one group: none when the fold has no value.\<close>

definition settle_group ::
  "'x datalog_env_scheme \<Rightarrow> aggregate \<Rightarrow> fact_set \<Rightarrow> candidate list \<Rightarrow> candidate list outcome" where
  "settle_group env agg F members =
     (case members of
        [] \<Rightarrow> Some []
      | representative # _ \<Rightarrow> map_option (\<lambda>value. case value of
            None \<Rightarrow> []
          | Some v \<Rightarrow> map (bind_output env agg v) members) (fold_inner_matches env agg (fst representative) F))"

fun settle_groups ::
  "'x datalog_env_scheme \<Rightarrow> aggregate \<Rightarrow> fact_set \<Rightarrow> (dl_term list \<times> candidate list) list \<Rightarrow> candidate list outcome" where
  "settle_groups env agg F [] = Some []"
| "settle_groups env agg F (g # gs) =
     (case settle_group env agg F (snd g) of
        None \<Rightarrow> None
      | Some out \<Rightarrow> map_option (\<lambda>rest. out @ rest) (settle_groups env agg F gs))"

definition apply_aggregate ::
  "'x datalog_env_scheme \<Rightarrow> aggregate \<Rightarrow> candidate list \<Rightarrow> fact_set \<Rightarrow> candidate list outcome" where
  "apply_aggregate env agg cs F = settle_groups env agg F (group_candidates agg cs)"

fun apply_aggregates ::
  "'x datalog_env_scheme \<Rightarrow> aggregate list \<Rightarrow> candidate list \<Rightarrow> fact_set \<Rightarrow> candidate list outcome" where
  "apply_aggregates env [] cs F = Some cs"
| "apply_aggregates env (agg # rest) cs F =
     (case apply_aggregate env agg cs F of None \<Rightarrow> None | Some cs' \<Rightarrow> apply_aggregates env rest cs' F)"

section \<open>Rules with aggregates\<close>

definition output_vars :: "datalog_rule \<Rightarrow> string set" where
  "output_vars rule = set (map ag_output_var (dr_aggregates rule))"

definition phase1_filters :: "datalog_rule \<Rightarrow> builtin_filter list" where
  "phase1_filters rule = filter (\<lambda>f. \<not> filter_references_any f (output_vars rule)) (dr_filters rule)"

definition post_agg_filters :: "datalog_rule \<Rightarrow> builtin_filter list" where
  "post_agg_filters rule = filter (\<lambda>f. filter_references_any f (output_vars rule)) (dr_filters rule)"

definition phase1_rule :: "datalog_rule \<Rightarrow> datalog_rule" where
  "phase1_rule rule =
     \<lparr>dr_head = dr_head rule, dr_body = dr_body rule, dr_filters = phase1_filters rule, dr_aggregates = [],
      dr_negated = dr_negated rule, dr_head_exprs = [], dr_bindings = dr_bindings rule\<rparr>"

definition seed_candidates :: "'x datalog_env_scheme \<Rightarrow> datalog_rule \<Rightarrow> fact_set \<Rightarrow> candidate list" where
  "seed_candidates env rule F =
     (if dr_body rule = [] then
        (case dr_aggregates rule of
           first_agg # _ \<Rightarrow>
             if ag_group_vars first_agg \<noteq> [] then seed_bindings_from_inner first_agg F else [(Map.empty, [])]
         | [] \<Rightarrow> [(Map.empty, [])])
      else collect_bindings env (phase1_rule rule) F)"

definition evaluate_rule_with_aggregates ::
  "'x datalog_env_scheme \<Rightarrow> datalog_rule \<Rightarrow> fact_set \<Rightarrow> (dl_term list \<times> provenance_step list) list outcome" where
  "evaluate_rule_with_aggregates env rule F =
     (let bindings = filter (\<lambda>c. list_all (\<lambda>f. check_one_filter env f (fst c)) (phase1_filters rule))
            (seed_candidates env rule F)
      in map_option (\<lambda>cs. map (\<lambda>c. (instantiate (at_args (dr_head rule)) (fst c), snd c))
             (filter (\<lambda>c. list_all (\<lambda>f. check_one_filter env f (fst c)) (post_agg_filters rule)) cs))
           (apply_aggregates env (dr_aggregates rule) bindings F))"

definition evaluate_rule ::
  "'x datalog_env_scheme \<Rightarrow> datalog_rule \<Rightarrow> fact_set \<Rightarrow> (dl_term list \<times> provenance_step list) list outcome" where
  "evaluate_rule env rule F =
     (if dr_aggregates rule \<noteq> [] then evaluate_rule_with_aggregates env rule F
      else Some (List.map_filter
        (\<lambda>c. map_option (\<lambda>args. (args, snd c)) (instantiate_head env rule (fst c))) (collect_bindings env rule F)))"

section \<open>Visiting is folding over the enumeration\<close>

lemma visit_each_append:
  "visit_each f (xs @ ys) s = (case visit_each f xs s of (s', go) \<Rightarrow> if go then visit_each f ys s' else (s', False))"
  by (induction xs arbitrary: s) (auto split: prod.splits)

lemma visit_each_stopped: "visit_each f xs s = (s', False) \<Longrightarrow> visit_each f (xs @ ys) s = (s', False)"
  by (simp add: visit_each_append)

lemma visit_each_concat:
  "visit_each (\<lambda>s r. visit_each f (g r) s) rs s = visit_each f (concat (map g rs)) s"
  by (induction rs arbitrary: s) (simp_all add: visit_each_append split: prod.splits)

lemma visit_conjunction_enumerates:
  "visit_conjunction F visit as b s = visit_each visit (collect_conjunction_bindings F as b) s"
proof (induction as arbitrary: b s)
  case Nil
  show ?case by (simp split: prod.splits)
next
  case (Cons a as)
  have "(\<lambda>s row. case try_unify (at_args a) row b of None \<Rightarrow> (s, True)
      | Some extended \<Rightarrow> visit_conjunction F visit as extended s) =
    (\<lambda>s row. visit_each visit (case try_unify (at_args a) row b of None \<Rightarrow> []
      | Some extended \<Rightarrow> collect_conjunction_bindings F as extended) s)"
    using Cons.IH by (intro ext) (simp split: option.splits)
  then show ?case by (simp add: visit_each_concat split: option.splits)
qed

lemma fold_inner_matches_enumerates:
  "fold_inner_matches env agg b F =
     fold_finish env (fst (visit_each (absorb agg) (collect_conjunction_bindings F (inner_atoms agg) b)
       (fold_start (ag_kind agg)))) (ag_kind agg) (ag_param agg)"
  by (simp add: fold_inner_matches_def visit_inner_matches_def visit_conjunction_enumerates)

section \<open>What the folds compute\<close>

definition solutions :: "aggregate \<Rightarrow> binding \<Rightarrow> fact_set \<Rightarrow> binding list" where
  "solutions agg b F = collect_conjunction_bindings F (inner_atoms agg) b"

text \<open>The values a fold consumes: one per solution, nulls left out.\<close>

definition folded_values :: "aggregate \<Rightarrow> binding \<Rightarrow> fact_set \<Rightarrow> dl_term list" where
  "folded_values agg b F =
     filter (\<lambda>t. t \<noteq> ConstNull) (List.map_filter (value_of agg) (solutions agg b F))"

lemma absorb_values:
  assumes "\<forall>c \<in> set cs. value_of agg c \<noteq> None"
  shows "visit_each (absorb agg) cs s =
    visit_each (\<lambda>s v. fold_step s (Some v)) (filter (\<lambda>t. t \<noteq> ConstNull) (List.map_filter (value_of agg) cs)) s"
  using assms by (induction cs arbitrary: s) (auto simp: absorb_def List.map_filter_simps split: prod.splits)

lemma count_run: "ag_value_var agg = None \<Longrightarrow> visit_each (absorb agg) cs (FoldCount n) = (FoldCount (n + length cs), True)"
  by (induction cs arbitrary: n) (simp_all add: absorb_def value_of_def)

lemma distinct_run:
  "distinct seen \<Longrightarrow> length seen \<le> DISTINCT_VALUE_CAP \<Longrightarrow>
    (\<exists>seen'. visit_each (\<lambda>s v. fold_step s (Some v)) vs (Distinct seen) = (Distinct seen', True) \<and> distinct seen' \<and>
       set seen' = set seen \<union> set vs \<and> length seen' \<le> DISTINCT_VALUE_CAP) \<or>
    (visit_each (\<lambda>s v. fold_step s (Some v)) vs (Distinct seen) = (TypeError, False) \<and>
       DISTINCT_VALUE_CAP < card (set seen \<union> set vs))"
proof (induction vs arbitrary: seen)
  case (Cons v vs)
  define seen' where "seen' = (if v \<in> set seen then seen else seen @ [v])"
  have seen': "distinct seen'" "set seen' = insert v (set seen)" using Cons.prems by (auto simp: seen'_def)
  show ?case
  proof (cases "DISTINCT_VALUE_CAP < length seen'")
    case True
    then have "DISTINCT_VALUE_CAP < card (insert v (set seen))" using seen' by (metis distinct_card)
    moreover have "card (insert v (set seen)) \<le> card (set seen \<union> set (v # vs))" by (rule card_mono) auto
    ultimately show ?thesis using True by (simp add: seen'_def Let_def)
  next
    case False
    then show ?thesis using Cons.IH [of seen'] seen' by (auto simp: seen'_def Let_def)
  qed
qed simp

text \<open>No value is on the wanted side of \<open>m\<close>, and all are comparable with it.\<close>

definition extreme_of :: "ordering \<Rightarrow> dl_term \<Rightarrow> dl_term set \<Rightarrow> bool" where
  "extreme_of want m vs \<longleftrightarrow> m \<in> vs \<and> (\<forall>v \<in> vs. v = m \<or> compare_terms v m \<notin> {None, Some want})"

definition mixed_kinds :: "dl_term set \<Rightarrow> bool" where
  "mixed_kinds vs \<longleftrightarrow> (\<exists>u \<in> vs. \<exists>v \<in> vs. compare_terms u v = None)"

lemma compare_terms_trans:
  assumes "want \<in> {Less, Greater}" "compare_terms v m = Some want" "x = m \<or> compare_terms x m \<notin> {None, Some want}"
  shows "compare_terms x v \<notin> {None, Some want}"
  using assms
  by (cases v; cases m; cases x) (auto simp: total_cmp_is_cmp_of cmp_of_def split: if_splits)

lemma extreme_run:
  assumes "want \<in> {Less, Greater}"
  shows "extreme_of want m seen \<Longrightarrow>
    (\<exists>m'. visit_each (\<lambda>s v. fold_step s (Some v)) vs (Extreme want (Some m)) = (Extreme want (Some m'), True) \<and>
       extreme_of want m' (seen \<union> set vs)) \<or>
    (visit_each (\<lambda>s v. fold_step s (Some v)) vs (Extreme want (Some m)) = (TypeError, False) \<and> mixed_kinds (seen \<union> set vs))"
proof (induction vs arbitrary: m seen)
  case (Cons v vs)
  show ?case
  proof (cases "compare_terms v m")
    case None
    then show ?thesis using Cons.prems by (auto simp: mixed_kinds_def extreme_of_def)
  next
    case (Some ord)
    let ?m = "if ord = want then v else m"
    have "extreme_of want ?m (insert v seen)"
      using Cons.prems Some compare_terms_trans [OF assms, of v m] by (auto simp: extreme_of_def)
    from Cons.IH [OF this] show ?thesis using Some by simp
  qed
qed simp

lemma fold_extreme:
  assumes "ag_kind agg = (if want = Less then Min else Max)" "want \<in> {Less, Greater}"
    and "\<forall>c \<in> set (solutions agg b F). value_of agg c \<noteq> None"
  shows "case fold_inner_matches env agg b F of
      None \<Rightarrow> False
    | Some None \<Rightarrow> folded_values agg b F = [] \<or> mixed_kinds (set (folded_values agg b F))
    | Some (Some m) \<Rightarrow> extreme_of want m (set (folded_values agg b F))"
proof -
  let ?run = "\<lambda>vs s. visit_each (\<lambda>s v. fold_step s (Some v)) vs s"
  have run: "fold_inner_matches env agg b F =
      fold_finish env (fst (?run (folded_values agg b F) (Extreme want None))) (ag_kind agg) (ag_param agg)"
    using assms absorb_values [of "solutions agg b F" agg]
    by (auto simp: fold_inner_matches_enumerates folded_values_def solutions_def)
  show ?thesis
  proof (cases "folded_values agg b F")
    case Nil
    then show ?thesis using assms(1) by (simp add: run)
  next
    case (Cons v vs)
    have "extreme_of want v {v}" by (simp add: extreme_of_def)
    from extreme_run [OF assms(2) this, of vs] show ?thesis by (auto simp: run Cons)
  qed
qed

section \<open>A fold looks at the aggregate's own variables only\<close>

definition agree :: "string set \<Rightarrow> binding \<Rightarrow> binding \<Rightarrow> bool" where
  "agree X b c \<longleftrightarrow> (\<forall>x \<in> X. b x = c x)"

definition agg_vars :: "aggregate \<Rightarrow> string set" where
  "agg_vars agg = body_vars (inner_atoms agg) \<union> set_option (ag_value_var agg)"

lemma try_unify_agree:
  "agree X b c \<Longrightarrow> \<Union> (named ` set as) \<subseteq> X \<Longrightarrow> rel_option (agree X) (try_unify as row b) (try_unify as row c)"
proof (induction as row b arbitrary: c rule: try_unify.induct)
  case (1 name as t ts b)
  show ?case
  proof (cases "is_anon name")
    case False
    then have eq: "b name = c name" and upd: "agree X (b(name \<mapsto> t)) (c(name \<mapsto> t))"
      using "1.prems" by (auto simp: agree_def)
    show ?thesis
    proof (cases "b name")
      case None
      have "rel_option (agree X) (try_unify as ts (b(name \<mapsto> t))) (try_unify as ts (c(name \<mapsto> t)))"
        using "1.prems" by (intro "1.IH"(2) [OF False None upd]) simp
      then show ?thesis using False None eq [symmetric] by simp
    next
      case (Some bound)
      then show ?thesis using "1.IH"(3) [OF False Some _ "1.prems"(1)] "1.prems"(2) False eq [symmetric] by simp
    qed
  qed (use 1 in auto)
qed auto

lemma collect_conjunction_agree:
  "agree X b c \<Longrightarrow> body_vars as \<subseteq> X \<Longrightarrow>
    list_all2 (agree X) (collect_conjunction_bindings F as b) (collect_conjunction_bindings F as c)"
proof (induction as arbitrary: b c)
  case (Cons a as)
  have "list_all2 (agree X)
      (case try_unify (at_args a) row b of None \<Rightarrow> [] | Some e \<Rightarrow> collect_conjunction_bindings F as e)
      (case try_unify (at_args a) row c of None \<Rightarrow> [] | Some e \<Rightarrow> collect_conjunction_bindings F as e)" for row
  proof -
    have "rel_option (agree X) (try_unify (at_args a) row b) (try_unify (at_args a) row c)"
      using Cons.prems by (intro try_unify_agree) (auto simp: body_vars_def atom_vars_def)
    then show ?thesis
      by (cases rule: option.rel_cases) (use Cons in \<open>auto simp: body_vars_def\<close>)
  qed
  then show ?case
    by (auto split: option.splits intro!: concat_transfer [THEN rel_funD] simp: list.rel_map list.rel_refl_strong)
qed simp

lemma absorb_agree:
  assumes "set_option (ag_value_var agg) \<subseteq> X"
  shows "list_all2 (agree X) cs ds \<Longrightarrow> visit_each (absorb agg) cs s = visit_each (absorb agg) ds s"
proof (induction cs ds arbitrary: s rule: list_all2_induct)
  case (Cons c cs d ds)
  have "value_of agg c = value_of agg d"
    using Cons.hyps(1) assms by (cases "ag_value_var agg") (auto simp: value_of_def agree_def)
  then have "absorb agg s c = absorb agg s d" for s by (simp add: absorb_def)
  then show ?case using Cons.IH by (simp split: prod.splits)
qed simp

lemma fold_inner_matches_agree:
  assumes "agree (agg_vars agg) b c"
  shows "fold_inner_matches env agg b F = fold_inner_matches env agg c F"
  using absorb_agree [OF _ collect_conjunction_agree [OF assms], of agg "inner_atoms agg" F]
  by (auto simp: fold_inner_matches_enumerates agg_vars_def)

section \<open>Groups\<close>

definition groups_ok :: "('m \<Rightarrow> 'k) \<Rightarrow> ('k \<times> 'm list) list \<Rightarrow> bool" where
  "groups_ok key gs \<longleftrightarrow> (\<forall>(k, ms) \<in> set gs. ms \<noteq> [] \<and> (\<forall>m \<in> set ms. key m = k))"

definition members :: "('k \<times> 'm list) list \<Rightarrow> 'm set" where
  "members gs = (\<Union>(k, ms) \<in> set gs. set ms)"

lemma group_push_ok: "groups_ok key gs \<Longrightarrow> groups_ok key (group_push (key m) m gs)"
  by (induction "key m" m gs rule: group_push.induct) (auto simp: groups_ok_def)

lemma group_push_members: "members (group_push k m gs) = insert m (members gs)"
  by (induction k m gs rule: group_push.induct) (auto simp: members_def)

lemma group_candidates_facts:
  "groups_ok (\<lambda>c. group_key agg (fst c)) (group_candidates agg cs) \<and> members (group_candidates agg cs) = set cs"
proof -
  have "groups_ok (\<lambda>c. group_key agg (fst c)) gs \<Longrightarrow>
      groups_ok (\<lambda>c. group_key agg (fst c)) (fold (\<lambda>c. group_push (group_key agg (fst c)) c) cs gs) \<and>
      members (fold (\<lambda>c. group_push (group_key agg (fst c)) c) cs gs) = members gs \<union> set cs" for gs
  proof (induction cs arbitrary: gs)
    case (Cons c cs)
    from Cons.IH [OF group_push_ok [OF Cons.prems, of c]] show ?case by (simp add: group_push_members)
  qed simp
  from this [of "[]"] show ?thesis by (simp add: group_candidates_def groups_ok_def members_def)
qed

text \<open>Candidates that the grouping may put together see the same inner rows.\<close>

definition grouping_sound :: "aggregate \<Rightarrow> candidate list \<Rightarrow> bool" where
  "grouping_sound agg cs \<longleftrightarrow> (\<forall>c \<in> set cs. \<forall>d \<in> set cs.
     group_key agg (fst c) = group_key agg (fst d) \<longrightarrow> agree (agg_vars agg) (fst c) (fst d))"

definition folded :: "'x datalog_env_scheme \<Rightarrow> aggregate \<Rightarrow> fact_set \<Rightarrow> candidate set \<Rightarrow> candidate set" where
  "folded env agg F S = {bind_output env agg v c | c v. c \<in> S \<and> fold_inner_matches env agg (fst c) F = Some (Some v)}"

lemma folded_Un: "folded env agg F (S \<union> T) = folded env agg F S \<union> folded env agg F T"
  unfolding folded_def by blast

definition uniform :: "'x datalog_env_scheme \<Rightarrow> aggregate \<Rightarrow> fact_set \<Rightarrow> candidate list \<Rightarrow> bool" where
  "uniform env agg F ms \<longleftrightarrow>
     (\<forall>c \<in> set ms. \<forall>d \<in> set ms. fold_inner_matches env agg (fst c) F = fold_inner_matches env agg (fst d) F)"

lemma settle_group_unfold:
  assumes "settle_group env agg F (r # rest) = Some out"
  obtains folding where "fold_inner_matches env agg (fst r) F = Some folding"
    and "out = (case folding of None \<Rightarrow> [] | Some v \<Rightarrow> map (bind_output env agg v) (r # rest))"
  using assms unfolding settle_group_def list.case by (metis (no_types, lifting) map_option_eq_Some)

lemma settle_group_ok:
  assumes "uniform env agg F ms"
    and "settle_group env agg F ms = Some out"
  shows "set out = folded env agg F (set ms)"
proof (cases ms)
  case (Cons r rest)
  then have same: "fold_inner_matches env agg (fst c) F = fold_inner_matches env agg (fst r) F" if "c \<in> set ms" for c
    using assms(1) that unfolding uniform_def by (metis list.set_intros(1))
  obtain folding where fold: "fold_inner_matches env agg (fst r) F = Some folding"
    and out: "out = (case folding of None \<Rightarrow> [] | Some v \<Rightarrow> map (bind_output env agg v) ms)"
    using assms(2) unfolding Cons by (rule settle_group_unfold)
  from fold have "c \<in> set ms \<and> fold_inner_matches env agg (fst c) F = Some (Some v) \<longleftrightarrow>
      c \<in> set ms \<and> folding = Some v" for c v
    by (metis option.inject same)
  then have "folded env agg F (set ms) = {bind_output env agg v c | c v. c \<in> set ms \<and> folding = Some v}"
    unfolding folded_def by simp
  moreover have "set out = {bind_output env agg v c | c v. c \<in> set ms \<and> folding = Some v}"
    using out by (cases folding) auto
  ultimately show ?thesis by simp
qed (use assms(2) in \<open>simp add: settle_group_def folded_def\<close>)

lemma settle_groups_ok:
  assumes "\<forall>g \<in> set gs. uniform env agg F (snd g)"
    and "settle_groups env agg F gs = Some out"
  shows "set out = folded env agg F (members gs)"
  using assms
proof (induction gs arbitrary: out)
  case (Cons g gs)
  obtain o1 o2 where parts: "settle_group env agg F (snd g) = Some o1" "settle_groups env agg F gs = Some o2" "out = o1 @ o2"
    using Cons.prems(2) by (auto split: option.splits)
  have "set o1 = folded env agg F (set (snd g))"
    using Cons.prems(1) by (intro settle_group_ok [OF _ parts(1)]) simp
  moreover have "set o2 = folded env agg F (members gs)"
    using Cons.prems(1) by (intro Cons.IH [OF _ parts(2)]) simp
  moreover have "members (g # gs) = set (snd g) \<union> members gs" by (auto simp: members_def split_beta)
  ultimately show ?case by (simp add: parts(3) folded_Un)
qed (simp add: members_def folded_def)

lemma apply_aggregate_ok:
  assumes "grouping_sound agg cs" "apply_aggregate env agg cs F = Some out"
  shows "set out = folded env agg F (set cs)"
proof -
  let ?gs = "group_candidates agg cs"
  have gs: "groups_ok (\<lambda>c. group_key agg (fst c)) ?gs" "members ?gs = set cs" using group_candidates_facts by auto
  have "fold_inner_matches env agg (fst c) F = fold_inner_matches env agg (fst d) F"
    if "(k, ms) \<in> set ?gs" "c \<in> set ms" "d \<in> set ms" for k ms c d
  proof -
    have "group_key agg (fst c) = group_key agg (fst d)" using gs(1) that by (auto simp: groups_ok_def)
    moreover have "c \<in> set cs" "d \<in> set cs" using gs(2) that by (auto simp: members_def)
    ultimately show ?thesis using assms(1) by (intro fold_inner_matches_agree) (auto simp: grouping_sound_def)
  qed
  then have "\<forall>g \<in> set ?gs. uniform env agg F (snd g)" unfolding uniform_def by (metis prod.collapse)
  from settle_groups_ok [OF this] show ?thesis using assms(2) gs(2) by (simp add: apply_aggregate_def)
qed

section \<open>Folds that cannot panic\<close>

fun keeps_no_group :: "fold_state \<Rightarrow> bool" where
  "keeps_no_group (Retained _) = False"
| "keeps_no_group _ = True"

lemma extreme_step_keeps: "keeps_no_group (fst (extreme_step want best v))"
  by (cases best) (auto split: option.splits)

lemma step_value_keeps: "keeps_no_group s \<Longrightarrow> keeps_no_group (fst (step_value s v))"
  by (induction s v rule: step_value.induct) (auto simp: Let_def extreme_step_keeps)

lemma absorb_keeps: "keeps_no_group s \<Longrightarrow> keeps_no_group (fst (absorb agg s c))"
  by (cases s; cases "value_of agg c") (auto simp: absorb_def extreme_step_keeps intro: step_value_keeps)

lemma visit_each_keeps: "keeps_no_group s \<Longrightarrow> keeps_no_group (fst (visit_each (absorb agg) cs s))"
proof (induction cs arbitrary: s)
  case (Cons c cs)
  then show ?case using absorb_keeps [of s agg c] by (cases "absorb agg s c") simp
qed simp

lemma fold_inner_matches_returns:
  assumes "\<not> retains_group (ag_kind agg)"
  shows "fold_inner_matches env agg b F \<noteq> None"
proof -
  let ?s = "fst (visit_each (absorb agg) (collect_conjunction_bindings F (inner_atoms agg) b) (fold_start (ag_kind agg)))"
  have "keeps_no_group (fold_start (ag_kind agg))" using assms by (cases "ag_kind agg") (simp_all add: retains_group_def)
  then have "keeps_no_group ?s" by (rule visit_each_keeps)
  then show ?thesis by (cases ?s) (simp_all add: fold_inner_matches_enumerates)
qed

lemma settle_groups_returns:
  "\<not> retains_group (ag_kind agg) \<Longrightarrow> \<exists>out. settle_groups env agg F gs = Some out"
proof (induction gs)
  case (Cons g gs)
  have "\<exists>out. settle_group env agg F (snd g) = Some out"
    using fold_inner_matches_returns [OF Cons.prems] by (cases "snd g") (simp_all add: settle_group_def)
  then show ?case using Cons by auto
qed simp

lemma fold_distinct:
  assumes "ag_kind agg = CountDistinct" "\<forall>c \<in> set (solutions agg b F). value_of agg c \<noteq> None"
  shows "fold_inner_matches env agg b F =
    Some (let n = card (set (folded_values agg b F)) in
      if n \<le> DISTINCT_VALUE_CAP then Some (ConstFloat (of_integer (int n))) else None)"
proof -
  have run: "fold_inner_matches env agg b F =
      fold_finish env (fst (visit_each (\<lambda>s v. fold_step s (Some v)) (folded_values agg b F) (Distinct []))) CountDistinct (ag_param agg)"
    using assms absorb_values [of "solutions agg b F" agg]
    by (auto simp: fold_inner_matches_enumerates folded_values_def solutions_def)
  have "(\<exists>seen. visit_each (\<lambda>s v. fold_step s (Some v)) (folded_values agg b F) (Distinct []) = (Distinct seen, True) \<and>
       distinct seen \<and> set seen = set (folded_values agg b F) \<and> length seen \<le> DISTINCT_VALUE_CAP) \<or>
    (visit_each (\<lambda>s v. fold_step s (Some v)) (folded_values agg b F) (Distinct []) = (TypeError, False) \<and>
       DISTINCT_VALUE_CAP < card (set (folded_values agg b F)))"
    using distinct_run [of "[]" "folded_values agg b F"] by simp
  then show ?thesis by (auto simp: run Let_def distinct_card dest!: distinct_card)
qed

section \<open>Properties\<close>

text \<open>A small fact set: two people, three sales.\<close>

definition sales :: fact_set where
  "sales = \<lparr>fs_facts =
     [(''person'', [[ConstStr ''ann''], [ConstStr ''bob'']]),
      (''sale'', [[ConstStr ''ann'', ConstFloat (Fin 5)], [ConstStr ''ann'', ConstFloat (Fin 3)],
         [ConstStr ''bob'', ConstFloat (Fin 7)]])]\<rparr>"

definition sale_atom :: atom where
  "sale_atom = \<lparr>at_predicate = ''sale'', at_args = [Var ''X'', Var ''V'']\<rparr>"

definition sale_aggregate :: "aggregate_kind \<Rightarrow> aggregate" where
  "sale_aggregate k = \<lparr>ag_kind = k, ag_param = None, ag_inner = sale_atom, ag_inner_conjunction = [],
     ag_group_vars = [''X''], ag_output_var = ''N'', ag_value_var = Some ''V''\<rparr>"

lemma sale_solutions:
  "solutions (sale_aggregate k) [''X'' \<mapsto> ConstStr ''ann''] sales =
     [[''X'' \<mapsto> ConstStr ''ann'', ''V'' \<mapsto> ConstFloat (Fin 5)], [''X'' \<mapsto> ConstStr ''ann'', ''V'' \<mapsto> ConstFloat (Fin 3)]]"
  by (simp add: solutions_def inner_atoms_def sale_aggregate_def sale_atom_def sales_def fs_get_def is_anon_def)

lemma sale_value_of: "value_of (sale_aggregate k) c = c ''V''"
  by (simp add: value_of_def sale_aggregate_def)

lemma sale_values:
  "folded_values (sale_aggregate k) [''X'' \<mapsto> ConstStr ''ann''] sales = [ConstFloat (Fin 5), ConstFloat (Fin 3)]"
  by (simp add: folded_values_def sale_solutions sale_value_of List.map_filter_simps)

lemma sale_minimum:
  "fold_inner_matches plain_env (sale_aggregate Min) [''X'' \<mapsto> ConstStr ''ann''] sales = Some (Some (ConstFloat (Fin 3)))"
proof -
  have "ag_kind (sale_aggregate Min) = Min" by (simp add: sale_aggregate_def)
  then show ?thesis
    by (simp add: fold_inner_matches_enumerates absorb_def sale_value_of total_cmp_is_cmp_of cmp_of_def less_f64_def
        total_cmp_def flip: solutions_def) (simp add: sale_solutions absorb_def sale_value_of total_cmp_def cmp_of_def)
qed

text \<open>C38. \<open>min\<close> and \<open>max\<close> over a group whose every row binds the folded variable: an answer is one of the group's non-null values
  and no value lies beyond it; there is no answer only when the group has no non-null value or mixes kinds of term
  that cannot be ordered; and the fold never panics.\<close>

theorem extremes_are_exact:
  assumes "ag_kind agg = (if want = Less then Min else Max)" "want \<in> {Less, Greater}"
    and "\<forall>c \<in> set (solutions agg b F). value_of agg c \<noteq> None"
  shows "case fold_inner_matches env agg b F of
      None \<Rightarrow> False
    | Some None \<Rightarrow> folded_values agg b F = [] \<or> mixed_kinds (set (folded_values agg b F))
    | Some (Some m) \<Rightarrow> extreme_of want m (set (folded_values agg b F))"
  using fold_extreme [OF assms] .

theorem extremes_are_exact_witness:
  "extreme_of Less (ConstFloat (Fin 3)) {ConstFloat (Fin 5), ConstFloat (Fin 3)}"
proof -
  have "ag_kind (sale_aggregate Min) = (if Less = Less then Min else Max)" by (simp add: sale_aggregate_def)
  from extremes_are_exact [OF this, of "[''X'' \<mapsto> ConstStr ''ann'']" sales plain_env] show ?thesis
    by (simp add: sale_minimum sale_values sale_solutions sale_value_of)
qed

text \<open>\<open>count_distinct\<close> counts the different non-null values of the group exactly up to its cap, and derives nothing
  above it rather than a truncated count.\<close>

theorem count_distinct_is_exact_or_nothing:
  assumes "ag_kind agg = CountDistinct" "\<forall>c \<in> set (solutions agg b F). value_of agg c \<noteq> None"
  shows "fold_inner_matches env agg b F =
    Some (let n = card (set (folded_values agg b F)) in
      if n \<le> DISTINCT_VALUE_CAP then Some (ConstFloat (of_integer (int n))) else None)"
  using fold_distinct [OF assms] .

theorem count_distinct_is_exact_or_nothing_witness:
  "fold_inner_matches plain_env (sale_aggregate CountDistinct) [''X'' \<mapsto> ConstStr ''ann''] sales =
     Some (Some (ConstFloat (of_integer 2)))"
proof -
  have "ag_kind (sale_aggregate CountDistinct) = CountDistinct" by (simp add: sale_aggregate_def)
  from count_distinct_is_exact_or_nothing [OF this, of "[''X'' \<mapsto> ConstStr ''ann'']" sales plain_env] show ?thesis
    by (simp add: sale_values sale_solutions sale_value_of DISTINCT_VALUE_CAP_def)
qed

end
