(* ===== verification/Datalog_Fixpoint.thy ===== *)
theory Datalog_Fixpoint
  imports Datalog_Aggregate
begin

text \<open>
  The fixpoint of one stratum (\<open>datalog.rs\<close>: \<open>evaluate_stratum\<close>, \<open>compute_confidence\<close>, \<open>format_rule_id\<close>) with its two
  budgets, and the declarative meaning it computes: the least set of facts that contains the given ones and is closed
  under the rules, negation read off the given facts.
\<close>

section \<open>One derived fact\<close>

definition ABSENCE_CONFIDENCE_WEIGHT :: f64 where
  "ABSENCE_CONFIDENCE_WEIGHT = round64 (8 / 10)"

definition f64_clamp :: "f64 \<Rightarrow> f64 \<Rightarrow> f64 \<Rightarrow> f64" where
  "f64_clamp x lo hi =
     (if partial_cmp x lo = Some Less then lo else if partial_cmp x hi = Some Greater then hi else x)"

definition compute_confidence :: "provenance_step list \<Rightarrow> f64" where
  "compute_confidence provenance =
     (if provenance = [] then Fin 0
      else let absence_factor =
             (if list_ex (\<lambda>s. ps_parent_kind s = PROVENANCE_KIND_ABSENCE) provenance
              then ABSENCE_CONFIDENCE_WEIGHT else Fin 1)
           in f64_clamp (f64_mul (f64_mul (Fin 1) (round64 (9 / 10))) absence_factor) (Fin 0) (Fin 1))"

definition format_rule_id :: "datalog_rule \<Rightarrow> string" where
  "format_rule_id rule =
     at_predicate (dr_head rule) @ '':-'' @
     join_strings '','' (map at_predicate (dr_body rule) @ map (\<lambda>a. ''not '' @ at_predicate a) (dr_negated rule))"

definition clock_step :: provenance_step where
  "clock_step = \<lparr>ps_parent_src = [], ps_parent_pred = ''now'', ps_parent_dst = [],
     ps_parent_kind = PROVENANCE_KIND_CLOCK\<rparr>"

definition with_clock_step :: "datalog_rule \<Rightarrow> provenance_step list \<Rightarrow> provenance_step list" where
  "with_clock_step rule steps = (if rule_reads_the_clock rule then steps @ [clock_step] else steps)"

definition derived_of ::
  "'x datalog_env_scheme \<Rightarrow> datalog_rule \<Rightarrow> dl_term list \<Rightarrow> provenance_step list \<Rightarrow> derived_fact" where
  "derived_of env rule args steps =
     (let provenance = with_clock_step rule steps; (src, dst) = extract_src_dst env args in
      \<lparr>df_src_id = src, df_pred = at_predicate (dr_head rule), df_dst_id = dst,
       df_confidence = compute_confidence provenance, df_rule_id = format_rule_id rule,
       df_support_count = length provenance, df_provenance = provenance\<rparr>)"

section \<open>One round\<close>

type_synonym round_state = "fact_set \<times> derived_fact list"

fun absorb_results ::
  "'x datalog_env_scheme \<Rightarrow> fact_set \<Rightarrow> datalog_rule \<Rightarrow> (dl_term list \<times> provenance_step list) list \<Rightarrow> round_state \<Rightarrow> round_state"
where
  "absorb_results env F rule [] st = st"
| "absorb_results env F rule ((args, steps) # rest) (D, ds) =
     (let p = at_predicate (dr_head rule) in
      if \<not> fs_contains F p args \<and> \<not> fs_contains D p args
      then absorb_results env F rule rest (snd (fs_insert D p args), ds @ [derived_of env rule args steps])
      else absorb_results env F rule rest (D, ds))"

fun run_rules ::
  "'x datalog_env_scheme \<Rightarrow> fact_set \<Rightarrow> datalog_rule list \<Rightarrow> round_state \<Rightarrow> round_state outcome" where
  "run_rules env F [] st = Some st"
| "run_rules env F (rule # rest) st =
     (case evaluate_rule env rule F of
        None \<Rightarrow> None
      | Some results \<Rightarrow> run_rules env F rest (absorb_results env F rule results st))"

definition merge_delta :: "fact_set \<Rightarrow> fact_set \<Rightarrow> fact_set" where
  "merge_delta F D =
     fold (\<lambda>(p, rows) G. fold (\<lambda>args H. snd (fs_insert H p args)) rows G) (fs_facts D) F"

section \<open>The loop\<close>

record stratum_result =
  sr_facts :: fact_set
  sr_derived :: "derived_fact list"
  sr_budget_iter :: nat
  sr_budget_facts :: nat

fun stratum_loop ::
  "'x datalog_env_scheme \<Rightarrow> datalog_rule list \<Rightarrow> nat \<Rightarrow> nat \<Rightarrow> fact_set \<Rightarrow> derived_fact list \<Rightarrow> stratum_result outcome" where
  "stratum_loop env rules 0 bf F ds =
     Some \<lparr>sr_facts = F, sr_derived = ds, sr_budget_iter = 0, sr_budget_facts = bf\<rparr>"
| "stratum_loop env rules (Suc bi) bf F ds =
     (case run_rules env F rules (fs_new, ds) of
        None \<Rightarrow> None
      | Some (D, ds') \<Rightarrow>
          if fs_is_empty D
          then Some \<lparr>sr_facts = F, sr_derived = ds', sr_budget_iter = bi, sr_budget_facts = bf\<rparr>
          else if bf < fs_len F + fs_len D
          then Some \<lparr>sr_facts = F, sr_derived = ds', sr_budget_iter = bi, sr_budget_facts = 0\<rparr>
          else stratum_loop env rules bi (bf - fs_len D) (merge_delta F D) ds')"

definition evaluate_stratum ::
  "'x datalog_env_scheme \<Rightarrow> datalog_rule list \<Rightarrow> fact_set \<Rightarrow> nat \<Rightarrow> nat \<Rightarrow> stratum_result outcome" where
  "evaluate_stratum env rules F bi bf = stratum_loop env rules bi bf F []"

section \<open>What a round adds\<close>

definition head_facts :: "datalog_rule \<Rightarrow> (dl_term list \<times> provenance_step list) list \<Rightarrow> (string \<times> dl_term list) set" where
  "head_facts rule results = (\<lambda>r. (at_predicate (dr_head rule), fst r)) ` set results"

text \<open>Everything the rules derive from a fact set in one step.\<close>

definition one_step :: "'x datalog_env_scheme \<Rightarrow> datalog_rule list \<Rightarrow> fact_set \<Rightarrow> (string \<times> dl_term list) set" where
  "one_step env rules F =
     (\<Union>rule \<in> set rules. case evaluate_rule env rule F of None \<Rightarrow> {} | Some results \<Rightarrow> head_facts rule results)"

lemma absorb_results_facts:
  "facts_of (fst (absorb_results env F rule results st)) =
     facts_of (fst st) \<union> (head_facts rule results - facts_of F)"
proof (induction env F rule results st rule: absorb_results.induct)
  case (2 env F rule args steps rest D ds)
  then show ?case by (auto simp: Let_def fs_contains_facts_of head_facts_def facts_of_insert)
qed (simp add: head_facts_def)

lemma absorb_results_wf: "fs_wf (fst st) \<Longrightarrow> fs_wf (fst (absorb_results env F rule results st))"
  by (induction env F rule results st rule: absorb_results.induct) (auto simp: Let_def fs_wf_insert)

lemma run_rules_facts:
  "run_rules env F rules st = Some st' \<Longrightarrow>
    facts_of (fst st') = facts_of (fst st) \<union> (one_step env rules F - facts_of F)"
proof (induction rules arbitrary: st)
  case (Cons rule rules)
  then obtain results where "evaluate_rule env rule F = Some results"
    "run_rules env F rules (absorb_results env F rule results st) = Some st'" by (auto split: option.splits)
  with Cons.IH [OF this(2)] show ?case by (auto simp: absorb_results_facts one_step_def)
qed (simp add: one_step_def)

lemma run_rules_wf: "run_rules env F rules st = Some st' \<Longrightarrow> fs_wf (fst st) \<Longrightarrow> fs_wf (fst st')"
  by (induction rules arbitrary: st) (auto simp: absorb_results_wf split: option.splits)

lemma insert_rows:
  "facts_of (fold (\<lambda>args H. snd (fs_insert H p args)) rows G) = facts_of G \<union> Pair p ` set rows"
  "fs_wf G \<Longrightarrow> fs_wf (fold (\<lambda>args H. snd (fs_insert H p args)) rows G)"
  by (induction rows arbitrary: G) (auto simp: facts_of_insert fs_wf_insert)

lemma merge_rows:
  "facts_of (fold (\<lambda>(p, rows) G. fold (\<lambda>args H. snd (fs_insert H p args)) rows G) m F) =
     facts_of F \<union> (\<Union>(p, rows) \<in> set m. Pair p ` set rows)"
  "fs_wf F \<Longrightarrow> fs_wf (fold (\<lambda>(p, rows) G. fold (\<lambda>args H. snd (fs_insert H p args)) rows G) m F)"
  by (induction m arbitrary: F) (auto simp: insert_rows)

lemma facts_of_rows:
  assumes "fs_wf D"
  shows "facts_of D = (\<Union>(p, rows) \<in> set (fs_facts D). Pair p ` set rows)"
proof -
  have "(p, rows) \<in> set (fs_facts D) \<longleftrightarrow> fs_get D p = Some rows" for p rows
    using assms by (simp add: fs_get_def fs_wf_def)
  then show ?thesis by (fastforce simp: facts_of_def fs_contains_def split: option.splits)
qed

lemma merge_delta_facts: "fs_wf D \<Longrightarrow> facts_of (merge_delta F D) = facts_of F \<union> facts_of D"
  by (simp add: merge_delta_def merge_rows facts_of_rows)

lemma merge_delta_wf: "fs_wf F \<Longrightarrow> fs_wf (merge_delta F D)"
  by (simp add: merge_delta_def merge_rows)

lemma fs_is_empty_iff: "fs_wf D \<Longrightarrow> fs_is_empty D \<longleftrightarrow> facts_of D = {}"
  using facts_of_rows [of D] by (auto simp: fs_is_empty_def fs_len_def)

lemma finite_facts_of: "fs_wf D \<Longrightarrow> finite (facts_of D)"
  by (auto simp: facts_of_rows)

text \<open>The round of a stratum: its delta and the merged facts.\<close>

lemma round_facts:
  assumes "run_rules env F rules (fs_new, ds) = Some (D, ds')"
  shows "fs_wf D" "facts_of D = one_step env rules F - facts_of F"
    "facts_of (merge_delta F D) = facts_of F \<union> one_step env rules F"
proof -
  show wf: "fs_wf D" using run_rules_wf [OF assms] by simp
  show "facts_of D = one_step env rules F - facts_of F" using run_rules_facts [OF assms] by simp
  then show "facts_of (merge_delta F D) = facts_of F \<union> one_step env rules F"
    by (auto simp: merge_delta_facts [OF wf])
qed

section \<open>The loop grows the facts until no rule adds one\<close>

definition stratum_closed :: "'x datalog_env_scheme \<Rightarrow> datalog_rule list \<Rightarrow> fact_set \<Rightarrow> bool" where
  "stratum_closed env rules F \<longleftrightarrow> one_step env rules F \<subseteq> facts_of F"

lemma stratum_loop_general:
  "stratum_loop env rules bi bf F ds = Some R \<Longrightarrow> fs_wf F \<Longrightarrow>
    fs_wf (sr_facts R) \<and> facts_of F \<subseteq> facts_of (sr_facts R) \<and>
    (0 < sr_budget_iter R \<and> 0 < sr_budget_facts R \<longrightarrow> stratum_closed env rules (sr_facts R))"
proof (induction env rules bi bf F ds rule: stratum_loop.induct)
  case (2 env rules bi bf F ds)
  then obtain D ds' where run: "run_rules env F rules (fs_new, ds) = Some (D, ds')" by (auto split: option.splits)
  note round = round_facts [OF run]
  consider "fs_is_empty D" | "\<not> fs_is_empty D" "bf < fs_len F + fs_len D" | "\<not> fs_is_empty D" "\<not> bf < fs_len F + fs_len D"
    by blast
  then show ?case
  proof cases
    case 1
    then have "stratum_closed env rules F" using round by (auto simp: stratum_closed_def fs_is_empty_iff)
    then show ?thesis using 2 run 1 by auto
  next
    case 3
    then have "stratum_loop env rules bi (bf - fs_len D) (merge_delta F D) ds' = Some R" using "2.prems" run by simp
    from "2.IH" [OF run HOL.refl 3 this merge_delta_wf [OF "2.prems"(2)]] show ?thesis using round by auto
  qed (use 2 run in auto)
qed auto

section \<open>The least model of a stratum\<close>

text \<open>What a rule without aggregates derives when its positive atoms are read off \<open>I\<close> and its negated ones off \<open>N\<close>.\<close>

definition consequences ::
  "'x datalog_env_scheme \<Rightarrow> (string \<times> dl_term list) set \<Rightarrow> (string \<times> dl_term list) set \<Rightarrow> datalog_rule
    \<Rightarrow> (string \<times> dl_term list) set" where
  "consequences env N I rule =
     {(p, args). p = at_predicate (dr_head rule) \<and>
        (\<exists>c b. solves I (dr_body rule) c \<and> apply_bindings env (dr_bindings rule) c = Some b \<and>
           check_filters env (dr_filters rule) b \<and> (\<forall>a \<in> set (dr_negated rule). \<not> negated_holds N b a) \<and>
           instantiate_head env rule b = Some args)}"

definition least_model ::
  "'x datalog_env_scheme \<Rightarrow> datalog_rule list \<Rightarrow> (string \<times> dl_term list) set \<Rightarrow> (string \<times> dl_term list) set" where
  "least_model env rules N = lfp (\<lambda>I. N \<union> (\<Union>rule \<in> set rules. consequences env N I rule))"

definition heads :: "datalog_rule list \<Rightarrow> string set" where
  "heads rules = (\<lambda>r. at_predicate (dr_head r)) ` set rules"

text \<open>A stratum whose rules negate no predicate it derives, and fold nothing.\<close>

definition plain_stratum :: "datalog_rule list \<Rightarrow> bool" where
  "plain_stratum rules \<longleftrightarrow>
     list_all (\<lambda>r. dr_aggregates r = [] \<and> list_all (\<lambda>a. at_predicate a \<notin> heads rules) (dr_negated r)) rules"

lemma consequences_mono: "I \<subseteq> J \<Longrightarrow> consequences env N I rule \<subseteq> consequences env N J rule"
  unfolding consequences_def by (blast intro: solves_mono)

lemma mono_step: "mono (\<lambda>I. N \<union> (\<Union>rule \<in> set rules. consequences env N I rule))"
  by (intro monoI Un_mono UN_mono consequences_mono) auto

lemma least_model_unfold:
  "least_model env rules N = N \<union> (\<Union>rule \<in> set rules. consequences env N (least_model env rules N) rule)"
  unfolding least_model_def by (rule lfp_unfold [OF mono_step])

lemma least_model_least:
  "N \<subseteq> J \<Longrightarrow> (\<And>rule. rule \<in> set rules \<Longrightarrow> consequences env N J rule \<subseteq> J) \<Longrightarrow> least_model env rules N \<subseteq> J"
  unfolding least_model_def by (rule lfp_lowerbound) auto

lemma head_facts_consequences:
  assumes "dr_aggregates rule = []"
  shows "\<exists>results. evaluate_rule env rule F = Some results \<and>
    head_facts rule results = consequences env (facts_of F) (facts_of F) rule"
proof -
  let ?results = "List.map_filter (\<lambda>c. map_option (\<lambda>args. (args, snd c)) (instantiate_head env rule (fst c)))
      (collect_bindings env rule F)"
  have "head_facts rule ?results =
      {(p, args). p = at_predicate (dr_head rule) \<and>
        (\<exists>b \<in> fst ` set (collect_bindings env rule F). instantiate_head env rule b = Some args)}"
    by (force simp: head_facts_def set_map_filter)
  also have "\<dots> = consequences env (facts_of F) (facts_of F) rule"
    unfolding Bex_def collect_bindings_iff consequences_def fires_def by blast
  finally show ?thesis using assms by (simp add: evaluate_rule_def)
qed

lemma one_step_consequences:
  "\<forall>r \<in> set rules. dr_aggregates r = [] \<Longrightarrow>
    one_step env rules F = (\<Union>rule \<in> set rules. consequences env (facts_of F) (facts_of F) rule)"
  unfolding one_step_def
proof (rule SUP_cong [OF HOL.refl])
  fix rule assume "\<forall>r \<in> set rules. dr_aggregates r = []" "rule \<in> set rules"
  then obtain results where "evaluate_rule env rule F = Some results"
    "head_facts rule results = consequences env (facts_of F) (facts_of F) rule" using head_facts_consequences by blast
  then show "(case evaluate_rule env rule F of None \<Rightarrow> {} | Some results \<Rightarrow> head_facts rule results) =
    consequences env (facts_of F) (facts_of F) rule" by simp
qed

lemma run_rules_returns:
  "\<forall>r \<in> set rules. dr_aggregates r = [] \<Longrightarrow> \<exists>st'. run_rules env F rules st = Some st'"
proof (induction rules arbitrary: st)
  case (Cons rule rules)
  then show ?case using head_facts_consequences [of rule env F] by fastforce
qed simp

text \<open>Facts that only gained heads of the stratum leave its negated atoms as they were.\<close>

lemma consequences_settled:
  assumes "plain_stratum rules" "rule \<in> set rules" "N \<subseteq> M" "\<forall>(p, args) \<in> M - N. p \<in> heads rules"
  shows "consequences env M I rule = consequences env N I rule"
proof -
  have "negated_holds M b a = negated_holds N b a" if "a \<in> set (dr_negated rule)" for a b
  proof -
    have "at_predicate a \<notin> heads rules" using assms(1,2) that by (auto simp: plain_stratum_def list_all_iff)
    then have "(at_predicate a, row) \<in> M \<longleftrightarrow> (at_predicate a, row) \<in> N" for row using assms(3,4) by blast
    then show ?thesis by (simp add: negated_holds_def)
  qed
  then show ?thesis unfolding consequences_def by (metis (lifting))
qed

lemma consequences_heads: "rule \<in> set rules \<Longrightarrow> (p, args) \<in> consequences env N I rule \<Longrightarrow> p \<in> heads rules"
  by (auto simp: consequences_def heads_def)

lemma least_model_heads: "(p, args) \<in> least_model env rules N \<Longrightarrow> (p, args) \<in> N \<or> p \<in> heads rules"
  by (subst (asm) least_model_unfold) (auto dest: consequences_heads)

section \<open>The loop computes the least model\<close>

text \<open>The facts the loop holds lie between the given ones and the least model.\<close>

definition within_model ::
  "'x datalog_env_scheme \<Rightarrow> datalog_rule list \<Rightarrow> (string \<times> dl_term list) set \<Rightarrow> fact_set \<Rightarrow> bool" where
  "within_model env rules N F \<longleftrightarrow> fs_wf F \<and> N \<subseteq> facts_of F \<and> facts_of F \<subseteq> least_model env rules N"

lemma within_model_step:
  assumes "plain_stratum rules" "within_model env rules N F"
  shows "one_step env rules F = (\<Union>rule \<in> set rules. consequences env N (facts_of F) rule)"
    "one_step env rules F \<subseteq> least_model env rules N"
proof -
  have "\<forall>(p, args) \<in> facts_of F - N. p \<in> heads rules"
    using assms(2) least_model_heads by (fastforce simp: within_model_def)
  then have "consequences env (facts_of F) (facts_of F) rule = consequences env N (facts_of F) rule"
    if "rule \<in> set rules" for rule
    using assms(2) by (intro consequences_settled [OF assms(1) that]) (simp_all add: within_model_def)
  then show eq: "one_step env rules F = (\<Union>rule \<in> set rules. consequences env N (facts_of F) rule)"
    using assms(1) by (subst one_step_consequences) (auto simp: plain_stratum_def list_all_iff)
  have "consequences env N (facts_of F) rule \<subseteq> consequences env N (least_model env rules N) rule" for rule
    using assms(2) by (intro consequences_mono) (simp add: within_model_def)
  then show "one_step env rules F \<subseteq> least_model env rules N"
    unfolding eq by (subst least_model_unfold) blast
qed

lemma within_model_closed:
  assumes "plain_stratum rules" "within_model env rules N F" "stratum_closed env rules F"
  shows "facts_of F = least_model env rules N"
proof
  show "least_model env rules N \<subseteq> facts_of F"
    using assms within_model_step(1) [OF assms(1,2)]
    by (intro least_model_least) (auto simp: within_model_def stratum_closed_def)
qed (use assms(2) in \<open>simp add: within_model_def\<close>)

lemma within_model_merge:
  assumes "plain_stratum rules" "within_model env rules N F" "run_rules env F rules (fs_new, ds) = Some (D, ds')"
  shows "within_model env rules N (merge_delta F D)"
  using round_facts [OF assms(3)] within_model_step [OF assms(1,2)] assms(2)
  by (auto simp: within_model_def merge_delta_wf)

lemma stratum_loop_within:
  "stratum_loop env rules bi bf F ds = Some R \<Longrightarrow> plain_stratum rules \<Longrightarrow> within_model env rules N F \<Longrightarrow>
    within_model env rules N (sr_facts R)"
proof (induction env rules bi bf F ds rule: stratum_loop.induct)
  case (2 env rules bi bf F ds)
  then obtain D ds' where run: "run_rules env F rules (fs_new, ds) = Some (D, ds')" by (auto split: option.splits)
  show ?case
  proof (cases "fs_is_empty D \<or> bf < fs_len F + fs_len D")
    case False
    then show ?thesis using "2.IH" [OF run] "2.prems" run within_model_merge [OF "2.prems"(2,3) run] by simp
  qed (use 2 run in \<open>auto split: if_splits\<close>)
qed auto

lemma fs_len_facts: "fs_wf F \<Longrightarrow> fs_len F = card (facts_of F)"
  by (rule fs_len_card)

lemma stratum_loop_completes:
  assumes "plain_stratum rules" and fin: "finite (least_model env rules N)"
  shows "within_model env rules N F \<Longrightarrow> card (least_model env rules N) < bi + card (facts_of F) \<Longrightarrow>
    2 * card (least_model env rules N) \<le> bf + card (facts_of F) \<Longrightarrow>
    \<exists>R. stratum_loop env rules bi bf F ds = Some R \<and> facts_of (sr_facts R) = least_model env rules N \<and>
      fs_wf (sr_facts R) \<and> bi + card (facts_of F) \<le> sr_budget_iter R + card (least_model env rules N) + 1 \<and>
      bf + card (facts_of F) \<le> sr_budget_facts R + card (least_model env rules N)"
proof (induction bi arbitrary: bf F ds)
  case 0
  then have "card (facts_of F) \<le> card (least_model env rules N)"
    using fin by (intro card_mono) (auto simp: within_model_def)
  then show ?case using 0 by simp
next
  case (Suc bi)
  let ?M = "least_model env rules N"
  obtain D ds' where run: "run_rules env F rules (fs_new, ds) = Some (D, ds')"
    using run_rules_returns [of rules env F "(fs_new, ds)"] assms(1) by (auto simp: plain_stratum_def list_all_iff)
  note round = round_facts [OF run]
  show ?case
  proof (cases "fs_is_empty D")
    case True
    then have "stratum_closed env rules F" using round by (auto simp: stratum_closed_def fs_is_empty_iff)
    then have "facts_of F = ?M" using Suc.prems(1) assms(1) by (intro within_model_closed)
    then show ?thesis using run True Suc.prems(1) by (simp add: within_model_def)
  next
    case False
    have merged: "within_model env rules N (merge_delta F D)" using within_model_merge [OF assms(1) Suc.prems(1) run] .
    have wf: "fs_wf F" using Suc.prems(1) by (simp add: within_model_def)
    have "facts_of (merge_delta F D) = facts_of F \<union> facts_of D" using round by auto
    moreover have "card (facts_of F \<union> facts_of D) = card (facts_of F) + card (facts_of D)"
      using round(1) wf by (intro card_Un_disjoint finite_facts_of) (auto simp: round(2))
    ultimately have cards: "card (facts_of (merge_delta F D)) = fs_len F + fs_len D"
      using round(1) wf by (simp add: fs_len_facts)
    have "card (facts_of (merge_delta F D)) \<le> card ?M"
      using fin merged by (intro card_mono) (auto simp: within_model_def)
    moreover have D: "0 < fs_len D" using False by (simp add: fs_is_empty_def)
    moreover have len: "fs_len F = card (facts_of F)" using Suc.prems(1) by (simp add: fs_len_facts within_model_def)
    ultimately have "\<not> bf < fs_len F + fs_len D"
      and "card ?M < bi + card (facts_of (merge_delta F D))"
      and "2 * card ?M \<le> (bf - fs_len D) + card (facts_of (merge_delta F D))"
      using cards Suc.prems(2,3) by linarith+
    with Suc.IH [OF merged, of "bf - fs_len D" ds'] obtain R where
      R: "stratum_loop env rules bi (bf - fs_len D) (merge_delta F D) ds' = Some R" "facts_of (sr_facts R) = ?M" "fs_wf (sr_facts R)"
        "bi + card (facts_of (merge_delta F D)) \<le> sr_budget_iter R + card ?M + 1"
        "bf - fs_len D + card (facts_of (merge_delta F D)) \<le> sr_budget_facts R + card ?M" by blast
    have "Suc bi + card (facts_of F) \<le> sr_budget_iter R + card ?M + 1" "bf + card (facts_of F) \<le> sr_budget_facts R + card ?M"
      using R(4,5) cards \<open>0 < fs_len D\<close> \<open>fs_len F = card (facts_of F)\<close> by linarith+
    then show ?thesis using run False R(1-3) \<open>\<not> bf < fs_len F + fs_len D\<close> by simp
  qed
qed

section \<open>What a derived fact records\<close>

definition kinds_ok :: "datalog_rule \<Rightarrow> provenance_step list \<Rightarrow> bool" where
  "kinds_ok rule steps \<longleftrightarrow>
     (\<forall>s \<in> set steps. ps_parent_kind s \<in> {''base'', PROVENANCE_KIND_ABSENCE}) \<and>
     ((\<exists>s \<in> set steps. ps_parent_kind s = PROVENANCE_KIND_ABSENCE) \<longleftrightarrow> dr_negated rule \<noteq> [])"

text \<open>The parser rejects a negated atom without a positive one beside it.\<close>

definition negation_guarded :: "datalog_rule \<Rightarrow> bool" where
  "negation_guarded rule \<longleftrightarrow> dr_negated rule = [] \<or> dr_body rule \<noteq> []"

lemma kind_names: "PROVENANCE_KIND_ABSENCE \<noteq> ''base''" "PROVENANCE_KIND_CLOCK \<noteq> ''base''"
  "PROVENANCE_KIND_CLOCK \<noteq> PROVENANCE_KIND_ABSENCE"
  by (simp_all add: PROVENANCE_KIND_ABSENCE_def PROVENANCE_KIND_CLOCK_def)

lemma collect_bindings_kinds: "(b, p) \<in> set (collect_bindings env rule F) \<Longrightarrow> kinds_ok rule p"
proof -
  assume "(b, p) \<in> set (collect_bindings env rule F)"
  from arg_cong [OF collect_bindings_provenance [OF this], of set]
  have "ps_parent_kind ` set p = (if dr_body rule = [] then {} else {''base''}) \<union>
      (if dr_negated rule = [] then {} else {PROVENANCE_KIND_ABSENCE})" by (simp add: set_replicate_conv_if)
  moreover have "kinds_ok rule p \<longleftrightarrow> ps_parent_kind ` set p \<subseteq> {''base'', PROVENANCE_KIND_ABSENCE} \<and>
      (PROVENANCE_KIND_ABSENCE \<in> ps_parent_kind ` set p \<longleftrightarrow> dr_negated rule \<noteq> [])"
    unfolding kinds_ok_def by (simp only: image_subset_iff image_iff) metis
  ultimately show ?thesis
    using kind_names(1) by (cases "dr_body rule = []"; cases "dr_negated rule = []") simp_all
qed

lemma bind_output_kinds: "kinds_ok rule (snd c) \<Longrightarrow> kinds_ok rule (snd (bind_output env agg v c))"
  using kind_names by (auto simp: kinds_ok_def bind_output_def)

lemma settle_groups_from:
  "settle_groups env agg F gs = Some out \<Longrightarrow> set out \<subseteq> (\<Union>v. bind_output env agg v ` members gs)"
proof (induction gs arbitrary: out)
  case (Cons g gs)
  obtain o1 o2 where parts: "settle_group env agg F (snd g) = Some o1" "settle_groups env agg F gs = Some o2" "out = o1 @ o2"
    using Cons.prems by (auto split: option.splits)
  have "set o1 \<subseteq> (\<Union>v. bind_output env agg v ` set (snd g))"
  proof (cases "snd g")
    case (Cons r rest)
    obtain folding where "o1 = (case folding of None \<Rightarrow> [] | Some v \<Rightarrow> map (bind_output env agg v) (r # rest))"
      using parts(1) unfolding Cons by (rule settle_group_unfold)
    then show ?thesis unfolding Cons by (cases folding) auto
  qed (use parts(1) in \<open>simp add: settle_group_def\<close>)
  moreover have "members (g # gs) = set (snd g) \<union> members gs" by (auto simp: members_def split_beta)
  then have "(\<Union>v. bind_output env agg v ` members (g # gs)) =
      (\<Union>v. bind_output env agg v ` set (snd g)) \<union> (\<Union>v. bind_output env agg v ` members gs)"
    by (simp only: image_Un UN_Un_distrib)
  ultimately show ?case using Cons.IH [OF parts(2)] parts(3) by (simp only: set_append) (rule Un_mono)
qed simp

lemma apply_aggregates_kinds:
  "apply_aggregates env aggs cs F = Some out \<Longrightarrow> \<forall>c \<in> set cs. kinds_ok rule (snd c) \<Longrightarrow> \<forall>c \<in> set out. kinds_ok rule (snd c)"
proof (induction aggs arbitrary: cs)
  case (Cons agg aggs)
  then obtain cs' where cs': "apply_aggregate env agg cs F = Some cs'" "apply_aggregates env aggs cs' F = Some out"
    by (auto split: option.splits)
  have "set cs' \<subseteq> (\<Union>v. bind_output env agg v ` set cs)"
    using settle_groups_from [OF cs'(1) [unfolded apply_aggregate_def]] group_candidates_facts [of agg cs] by simp
  then have "\<forall>d \<in> set cs'. \<exists>c \<in> set cs. \<exists>v. d = bind_output env agg v c" by blast
  then have "\<forall>c \<in> set cs'. kinds_ok rule (snd c)" using Cons.prems(2) bind_output_kinds by metis
  then show ?case using Cons.IH cs'(2) by blast
qed simp

lemma seed_kinds:
  assumes "negation_guarded rule"
  shows "\<forall>c \<in> set (seed_candidates env rule F). kinds_ok rule (snd c)"
proof (cases "dr_body rule = []")
  case True
  then have "snd c = []" if "c \<in> set (seed_candidates env rule F)" for c
    using that by (auto simp: seed_candidates_def seed_bindings_from_inner_def split: list.splits if_splits)
  then show ?thesis using assms True by (auto simp: kinds_ok_def negation_guarded_def)
next
  case False
  have "kinds_ok (phase1_rule rule) p = kinds_ok rule p" for p by (simp add: kinds_ok_def phase1_rule_def)
  then show ?thesis using False collect_bindings_kinds [of _ _ env "phase1_rule rule" F] by (auto simp: seed_candidates_def)
qed

lemma evaluate_rule_kinds:
  assumes "evaluate_rule env rule F = Some results" "negation_guarded rule" "(args, steps) \<in> set results"
  shows "kinds_ok rule steps"
proof (cases "dr_aggregates rule = []")
  case True
  then obtain b where "(b, steps) \<in> set (collect_bindings env rule F)"
    using assms by (auto simp: evaluate_rule_def set_map_filter)
  then show ?thesis by (rule collect_bindings_kinds)
next
  case False
  then obtain cs out where "apply_aggregates env (dr_aggregates rule) cs F = Some out"
    and "set cs \<subseteq> set (seed_candidates env rule F)" and "steps \<in> snd ` set out"
    using assms by (fastforce simp: evaluate_rule_def evaluate_rule_with_aggregates_def Let_def image_iff)
  then show ?thesis using apply_aggregates_kinds [of env "dr_aggregates rule" cs F out rule] seed_kinds [OF assms(2)] by blast
qed

definition recorded :: "datalog_rule list \<Rightarrow> derived_fact \<Rightarrow> bool" where
  "recorded rules d \<longleftrightarrow> (\<exists>rule \<in> set rules.
     df_pred d = at_predicate (dr_head rule) \<and> df_rule_id d = format_rule_id rule \<and>
     df_support_count d = length (df_provenance d) \<and> df_confidence d = compute_confidence (df_provenance d) \<and>
     rests_on_absence d = (dr_negated rule \<noteq> []) \<and> df_reads_the_clock d = rule_reads_the_clock rule)"

lemma derived_of_recorded:
  assumes "kinds_ok rule steps" "rule \<in> set rules"
  shows "recorded rules (derived_of env rule args steps)"
proof -
  let ?d = "derived_of env rule args steps"
  have prov: "df_provenance ?d = with_clock_step rule steps" by (simp add: derived_of_def Let_def split_beta)
  have "rests_on_absence ?d = (dr_negated rule \<noteq> [])" "df_reads_the_clock ?d = rule_reads_the_clock rule"
    using assms(1) kind_names
    by (auto simp: rests_on_absence_def df_reads_the_clock_def prov with_clock_step_def clock_step_def kinds_ok_def list_ex_iff)
  moreover have "df_pred ?d = at_predicate (dr_head rule)" "df_rule_id ?d = format_rule_id rule"
    "df_support_count ?d = length (df_provenance ?d)" "df_confidence ?d = compute_confidence (df_provenance ?d)"
    by (simp_all add: derived_of_def Let_def split_beta)
  ultimately show ?thesis using assms(2) by (auto simp: recorded_def)
qed

lemma absorb_results_recorded:
  "\<forall>(args, steps) \<in> set results. kinds_ok rule steps \<Longrightarrow> rule \<in> set rules \<Longrightarrow> \<forall>d \<in> set (snd st). recorded rules d \<Longrightarrow>
    \<forall>d \<in> set (snd (absorb_results env F rule results st)). recorded rules d"
  by (induction env F rule results st rule: absorb_results.induct) (auto simp: Let_def derived_of_recorded)

lemma run_rules_recorded:
  "run_rules env F rs st = Some st' \<Longrightarrow> set rs \<subseteq> set rules \<Longrightarrow> \<forall>r \<in> set rules. negation_guarded r \<Longrightarrow>
    \<forall>d \<in> set (snd st). recorded rules d \<Longrightarrow> \<forall>d \<in> set (snd st'). recorded rules d"
proof (induction rs arbitrary: st)
  case (Cons rule rs)
  then obtain results where ev: "evaluate_rule env rule F = Some results"
    and rest: "run_rules env F rs (absorb_results env F rule results st) = Some st'" by (auto split: option.splits)
  have "\<forall>(args, steps) \<in> set results. kinds_ok rule steps"
    using evaluate_rule_kinds [OF ev] Cons.prems(2,3) by auto
  then have "\<forall>d \<in> set (snd (absorb_results env F rule results st)). recorded rules d"
    using Cons.prems by (intro absorb_results_recorded) auto
  then show ?case using Cons.IH [OF rest] Cons.prems by auto
qed simp

lemma stratum_loop_recorded:
  "stratum_loop env rules bi bf F ds = Some R \<Longrightarrow> \<forall>r \<in> set rules. negation_guarded r \<Longrightarrow>
    \<forall>d \<in> set ds. recorded rules d \<Longrightarrow> \<forall>d \<in> set (sr_derived R). recorded rules d"
proof (induction env rules bi bf F ds rule: stratum_loop.induct)
  case (2 env rules bi bf F ds)
  then obtain D ds' where run: "run_rules env F rules (fs_new, ds) = Some (D, ds')" by (auto split: option.splits)
  have "\<forall>d \<in> set ds'. recorded rules d" using run_rules_recorded [OF run] "2.prems" by auto
  then show ?case using "2.IH" [OF run] "2.prems" run by (auto split: if_splits)
qed auto

section \<open>Rules that compute no values have finite models\<close>

definition computes_nothing :: "datalog_rule \<Rightarrow> bool" where
  "computes_nothing r \<longleftrightarrow> dr_head_exprs r = [] \<and> dr_bindings r = []"

text \<open>The terms a model can hold: those of the given facts and of the heads.\<close>

definition universe :: "datalog_rule list \<Rightarrow> (string \<times> dl_term list) set \<Rightarrow> dl_term set" where
  "universe rules N = (\<Union>(p, args) \<in> N. set args) \<union> (\<Union>r \<in> set rules. set (at_args (dr_head r)))"

definition candidates_over :: "datalog_rule list \<Rightarrow> (string \<times> dl_term list) set \<Rightarrow> (string \<times> dl_term list) set" where
  "candidates_over rules N =
     N \<union> (\<Union>r \<in> set rules. Pair (at_predicate (dr_head r)) `
        {args. set args \<subseteq> universe rules N \<and> length args = length (at_args (dr_head r))})"

lemma candidates_over_terms: "(p, args) \<in> candidates_over rules N \<Longrightarrow> set args \<subseteq> universe rules N"
  by (auto simp: candidates_over_def universe_def)

lemma named_var: "x \<in> named p \<Longrightarrow> p = Var x \<and> \<not> is_anon x"
  by (cases p) (auto split: if_splits)

lemma solves_terms:
  assumes "solves I body b" "\<And>p args. (p, args) \<in> I \<Longrightarrow> set args \<subseteq> U" "b x = Some t"
  shows "t \<in> U"
proof -
  have "x \<in> body_vars body" using assms(1,3) by (auto simp: solves_def)
  then obtain a where a: "a \<in> set body" "x \<in> atom_vars a" by (auto simp: body_vars_def)
  then obtain row where row: "(at_predicate a, row) \<in> I" "list_all2 (term_fits b) (at_args a) row"
    using assms(1) by (auto simp: solves_def atom_holds_def)
  obtain i where i: "i < length (at_args a)" "x \<in> named (at_args a ! i)"
    using a(2) by (auto simp: atom_vars_def in_set_conv_nth)
  then have "term_fits b (at_args a ! i) (row ! i)" using row(2) by (simp add: list_all2_conv_all_nth)
  then have "row ! i = t" using named_var [OF i(2)] assms(3) by simp
  then show ?thesis using assms(2) [OF row(1)] i(1) row(2) by (auto simp: list_all2_lengthD)
qed

lemma finite_least_model:
  assumes "finite N" "list_all computes_nothing rules"
  shows "finite (least_model env rules N)"
proof -
  let ?U = "universe rules N"
  have U: "finite ?U" using assms(1) by (auto simp: universe_def)
  have "consequences env N (candidates_over rules N) rule \<subseteq> candidates_over rules N" if "rule \<in> set rules" for rule
  proof
    fix f assume f: "f \<in> consequences env N (candidates_over rules N) rule"
    have plain: "dr_head_exprs rule = []" "dr_bindings rule = []"
      using assms(2) that by (auto simp: computes_nothing_def list_all_iff)
    then obtain b where b: "solves (candidates_over rules N) (dr_body rule) b"
      "f = (at_predicate (dr_head rule), instantiate (at_args (dr_head rule)) b)"
      using f by (auto simp: consequences_def instantiate_head_def)
    have bound: "t \<in> ?U" if "b x = Some t" for x t
      by (rule solves_terms [OF b(1) _ that]) (rule candidates_over_terms)
    have "subst_term b t \<in> ?U" if t: "t \<in> set (at_args (dr_head rule))" for t
    proof -
      have "t \<in> ?U" using t \<open>rule \<in> set rules\<close> by (auto simp: universe_def)
      then show ?thesis using bound by (cases t) (auto split: option.splits)
    qed
    then have "instantiate (at_args (dr_head rule)) b \<in>
        {args. set args \<subseteq> ?U \<and> length args = length (at_args (dr_head rule))}" by (auto simp: instantiate_def)
    then show "f \<in> candidates_over rules N" using b(2) that unfolding candidates_over_def by blast
  qed
  then have "least_model env rules N \<subseteq> candidates_over rules N"
    by (intro least_model_least) (auto simp: candidates_over_def)
  moreover have "finite (candidates_over rules N)"
    using assms(1) U by (auto simp: candidates_over_def intro: finite_lists_length_eq)
  ultimately show ?thesis by (rule finite_subset)
qed

section \<open>Properties\<close>

text \<open>A rule that copies one relation to another, and one row to copy.\<close>

definition copy_rule :: datalog_rule where
  "copy_rule = \<lparr>dr_head = \<lparr>at_predicate = ''q'', at_args = [Var ''X'']\<rparr>,
     dr_body = [\<lparr>at_predicate = ''p'', at_args = [Var ''X'']\<rparr>], dr_filters = [], dr_aggregates = [],
     dr_negated = [], dr_head_exprs = [], dr_bindings = []\<rparr>"

definition copy_facts :: fact_set where
  "copy_facts = \<lparr>fs_facts = [(''p'', [[ConstStr ''a'']])]\<rparr>"

lemma copy_stratum: "plain_stratum [copy_rule]" "list_all computes_nothing [copy_rule]" "fs_wf copy_facts"
  "negation_guarded copy_rule"
  by (simp_all add: plain_stratum_def computes_nothing_def copy_rule_def copy_facts_def fs_wf_def negation_guarded_def)

lemma copy_run:
  "evaluate_stratum plain_env [copy_rule] copy_facts 3 10 =
     Some \<lparr>sr_facts = \<lparr>fs_facts = [(''p'', [[ConstStr ''a'']]), (''q'', [[ConstStr ''a'']])]\<rparr>,
       sr_derived = [derived_of plain_env copy_rule [ConstStr ''a''] [make_provenance_step plain_env ''p'' [ConstStr ''a'']]],
       sr_budget_iter = 1, sr_budget_facts = 9\<rparr>"
  by (simp add: evaluate_stratum_def numeral_eq_Suc copy_rule_def copy_facts_def evaluate_rule_def collect_bindings_def
      join_body_def extend_by_atom_def extend_by_row_def fs_get_def fs_contains_def fs_insert_def fs_new_def fs_len_def
      fs_is_empty_def merge_delta_def List.map_filter_simps bind_candidate_def check_filters_def instantiate_head_def
      instantiate_def is_anon_def Let_def)

text \<open>C34. The fact set stays well formed and only grows while a stratum is evaluated, aggregates and negation included, and when
  the evaluation ends with both budgets left no rule of the stratum can add a fact.\<close>

theorem stratum_grows_to_closure:
  assumes "evaluate_stratum env rules F bi bf = Some R" "fs_wf F"
  shows "fs_wf (sr_facts R) \<and> facts_of F \<subseteq> facts_of (sr_facts R) \<and>
    (0 < sr_budget_iter R \<and> 0 < sr_budget_facts R \<longrightarrow> stratum_closed env rules (sr_facts R))"
  using stratum_loop_general [OF assms(1) [unfolded evaluate_stratum_def] assms(2)] .

theorem stratum_grows_to_closure_witness:
  "\<exists>R. evaluate_stratum plain_env [copy_rule] copy_facts 3 10 = Some R \<and> stratum_closed plain_env [copy_rule] (sr_facts R)"
  using stratum_grows_to_closure [OF copy_run copy_stratum(3)] copy_run by simp

text \<open>C33. The loop of a stratum without aggregates refines the declarative meaning of its rules: the facts it returns lie between
  the given facts and the least model, the least set that contains the given facts and is closed under the rules with
  negation read off the given facts, and they are that model when both budgets are left.\<close>

theorem stratum_refines_least_model:
  assumes "plain_stratum rules" "fs_wf F" "evaluate_stratum env rules F bi bf = Some R"
  shows "facts_of F \<subseteq> facts_of (sr_facts R) \<and> facts_of (sr_facts R) \<subseteq> least_model env rules (facts_of F) \<and>
    (0 < sr_budget_iter R \<and> 0 < sr_budget_facts R \<longrightarrow> facts_of (sr_facts R) = least_model env rules (facts_of F))"
proof -
  have run: "stratum_loop env rules bi bf F [] = Some R" using assms(3) by (simp add: evaluate_stratum_def)
  have "within_model env rules (facts_of F) F"
    using assms(2) least_model_unfold [of env rules "facts_of F"] by (auto simp: within_model_def)
  with run assms(1) have within: "within_model env rules (facts_of F) (sr_facts R)" by (intro stratum_loop_within)
  then have "facts_of F \<subseteq> facts_of (sr_facts R)" "facts_of (sr_facts R) \<subseteq> least_model env rules (facts_of F)"
    by (simp_all add: within_model_def)
  moreover have "0 < sr_budget_iter R \<and> 0 < sr_budget_facts R \<longrightarrow> stratum_closed env rules (sr_facts R)"
    using stratum_loop_general [OF run assms(2)] by blast
  ultimately show ?thesis using within_model_closed [OF assms(1) within] by blast
qed

theorem stratum_refines_least_model_witness:
  "least_model plain_env [copy_rule] (facts_of copy_facts) =
     facts_of \<lparr>fs_facts = [(''p'', [[ConstStr ''a'']]), (''q'', [[ConstStr ''a'']])]\<rparr>"
  using stratum_refines_least_model [OF copy_stratum(1,3) copy_run] by simp

text \<open>C35. What a derived fact records about its rule is exact: it rests on an absence exactly when its rule has a negated atom, it
  depends on the clock exactly when its rule reads it, its support is the length of its provenance and its
  confidence follows from it; so a fact that may be cached comes from a rule with neither.\<close>

theorem derived_facts_are_recorded:
  assumes "evaluate_stratum env rules F bi bf = Some R" "\<forall>r \<in> set rules. negation_guarded r"
  shows "\<forall>d \<in> set (sr_derived R). recorded rules d \<and>
    (is_cacheable is_uuid d \<longrightarrow> (\<exists>r \<in> set rules. df_rule_id d = format_rule_id r \<and> dr_negated r = [] \<and> \<not> rule_reads_the_clock r))"
proof -
  have "\<forall>d \<in> set (sr_derived R). recorded rules d"
    using stratum_loop_recorded [OF assms(1) [unfolded evaluate_stratum_def] assms(2)] by simp
  then show ?thesis unfolding recorded_def is_cacheable_def by blast
qed

theorem derived_facts_are_recorded_witness:
  "recorded [copy_rule]
     (derived_of plain_env copy_rule [ConstStr ''a''] [make_provenance_step plain_env ''p'' [ConstStr ''a'']])"
  using derived_facts_are_recorded [OF copy_run] copy_stratum(4) by simp

end
