(* ===== verification/Stratify.thy ===== *)
theory Stratify
  imports Datalog_Types
begin

text \<open>
  The stratification analyzer (\<open>datalog.rs\<close>: \<open>stratify\<close>): the predicate dependency graph, the iterative Tarjan search with its
  explicit work list, the rejection of recursion through aggregates, negation and computed heads, and the strata.
  \<open>None\<close> is the panic of an \<open>unwrap\<close>. The iteration order of the hash set of predicates is unspecified in the source;
  here it is the order of first insertion.
\<close>

section \<open>The dependency graph\<close>

datatype edge = EdgePlain | EdgeAggregate | EdgeNegated | EdgeHeadExpr

type_synonym dep_graph = "(string \<times> (string \<times> edge) list) list"

definition aggregate_atoms :: "aggregate \<Rightarrow> atom list" where
  "aggregate_atoms agg = (if ag_inner_conjunction agg = [] then [ag_inner agg] else ag_inner_conjunction agg)"

definition rule_edges :: "datalog_rule \<Rightarrow> (string \<times> edge) list" where
  "rule_edges rule =
     map (\<lambda>a. (at_predicate a, if dr_head_exprs rule = [] then EdgePlain else EdgeHeadExpr)) (dr_body rule) @
     map (\<lambda>a. (at_predicate a, EdgeNegated)) (dr_negated rule) @
     concat (map (\<lambda>agg. map (\<lambda>a. (at_predicate a, EdgeAggregate)) (aggregate_atoms agg)) (dr_aggregates rule))"

fun graph_extend :: "string \<Rightarrow> (string \<times> edge) list \<Rightarrow> dep_graph \<Rightarrow> dep_graph" where
  "graph_extend h es [] = [(h, es)]"
| "graph_extend h es ((k, fs) # g) = (if h = k then (k, fs @ es) # g else (k, fs) # graph_extend h es g)"

definition note_pred :: "string \<Rightarrow> string list \<Rightarrow> string list" where
  "note_pred p ps = (if p \<in> set ps then ps else ps @ [p])"

definition add_rule :: "datalog_rule \<Rightarrow> dep_graph \<times> string list \<Rightarrow> dep_graph \<times> string list" where
  "add_rule rule st =
     (graph_extend (at_predicate (dr_head rule)) (rule_edges rule) (fst st),
      fold note_pred (at_predicate (dr_head rule) # map fst (rule_edges rule)) (snd st))"

definition build_graph :: "datalog_rule list \<Rightarrow> dep_graph \<times> string list" where
  "build_graph rules = fold add_rule rules ([], [])"

definition succs :: "dep_graph \<Rightarrow> string \<Rightarrow> (string \<times> edge) list" where
  "succs g v = (case map_of g v of None \<Rightarrow> [] | Some es \<Rightarrow> es)"

section \<open>Iterative Tarjan\<close>

record tarjan =
  tj_index_counter :: nat
  tj_stack :: "string list"
  tj_on_stack :: "string set"
  tj_indices :: "string \<rightharpoonup> nat"
  tj_lowlinks :: "string \<rightharpoonup> nat"
  tj_sccs :: "string list list"

datatype tj_step = Enter string | Continue string nat | Propagate string string

text \<open>The stack holds its top first. \<open>pop_scc\<close> pops until the node itself has been popped.\<close>

fun pop_scc :: "string \<Rightarrow> string list \<Rightarrow> string list \<times> string list" where
  "pop_scc v [] = ([], [])"
| "pop_scc v (w # ws) = (if w = v then ([w], ws) else case pop_scc v ws of (scc, rest) \<Rightarrow> (w # scc, rest))"

definition enter_node :: "string \<Rightarrow> tarjan \<Rightarrow> tj_step list \<times> tarjan" where
  "enter_node v st =
     ([Continue v 0],
      st\<lparr>tj_indices := (tj_indices st)(v \<mapsto> tj_index_counter st),
         tj_lowlinks := (tj_lowlinks st)(v \<mapsto> tj_index_counter st),
         tj_index_counter := tj_index_counter st + 1,
         tj_stack := v # tj_stack st,
         tj_on_stack := insert v (tj_on_stack st)\<rparr>)"

definition lower_link :: "string \<Rightarrow> nat \<Rightarrow> tarjan \<Rightarrow> tarjan option" where
  "lower_link v n st =
     (case tj_lowlinks st v of
        None \<Rightarrow> None
      | Some cur \<Rightarrow> Some (if n < cur then st\<lparr>tj_lowlinks := (tj_lowlinks st)(v \<mapsto> n)\<rparr> else st))"

definition visit_succ :: "string \<Rightarrow> nat \<Rightarrow> string \<Rightarrow> tarjan \<Rightarrow> (tj_step list \<times> tarjan) option" where
  "visit_succ v i s st =
     (case tj_indices st s of
        None \<Rightarrow> Some ([Enter s, Propagate v s, Continue v (i + 1)], st)
      | Some succ_index \<Rightarrow>
          if s \<in> tj_on_stack st then map_option (\<lambda>st'. ([Continue v (i + 1)], st')) (lower_link v succ_index st)
          else Some ([Continue v (i + 1)], st))"

definition finish_node :: "string \<Rightarrow> tarjan \<Rightarrow> tarjan" where
  "finish_node v st =
     (if tj_lowlinks st v = tj_indices st v then
        (case pop_scc v (tj_stack st) of
           (scc, rest) \<Rightarrow> st\<lparr>tj_stack := rest, tj_on_stack := tj_on_stack st - set scc, tj_sccs := tj_sccs st @ [scc]\<rparr>)
      else st)"

fun tarjan_step :: "dep_graph \<Rightarrow> tj_step \<Rightarrow> tarjan \<Rightarrow> (tj_step list \<times> tarjan) option" where
  "tarjan_step g (Enter v) st = Some (enter_node v st)"
| "tarjan_step g (Continue v i) st =
     (if i < length (succs g v) then visit_succ v i (fst (succs g v ! i)) st else Some ([], finish_node v st))"
| "tarjan_step g (Propagate parent child) st =
     (case tj_lowlinks st child of
        None \<Rightarrow> None
      | Some child_low \<Rightarrow> map_option (\<lambda>st'. ([], st')) (lower_link parent child_low st))"

text \<open>The work list ends: entering a node that has no index leaves fewer such nodes, and every other step shrinks the
  work that is left.\<close>

definition graph_nodes :: "dep_graph \<Rightarrow> string set" where
  "graph_nodes g = fst ` set g \<union> (\<Union>(k, es) \<in> set g. fst ` set es)"

fun step_weight :: "dep_graph \<Rightarrow> tarjan \<Rightarrow> tj_step \<Rightarrow> nat" where
  "step_weight g st (Enter v) = 2 + (if tj_indices st v = None then 0 else 4 * length (succs g v))"
| "step_weight g st (Continue v i) = 1 + 4 * (length (succs g v) - i)"
| "step_weight g st (Propagate _ _) = 1"

lemma succs_outside: "v \<notin> graph_nodes g \<Longrightarrow> succs g v = []"
  by (force simp: succs_def graph_nodes_def split: option.splits dest: map_of_SomeD)

lemma finite_graph_nodes [simp]: "finite (graph_nodes g)"
  by (auto simp: graph_nodes_def)

lemma lower_link_parts:
  "lower_link v n st = Some st' \<Longrightarrow>
    tj_indices st' = tj_indices st \<and> tj_stack st' = tj_stack st \<and> tj_on_stack st' = tj_on_stack st \<and>
    tj_sccs st' = tj_sccs st \<and> tj_index_counter st' = tj_index_counter st"
  by (auto simp: lower_link_def split: option.splits if_splits)

lemma finish_node_parts:
  "tj_indices (finish_node v st) = tj_indices st" "tj_lowlinks (finish_node v st) = tj_lowlinks st"
  "tj_index_counter (finish_node v st) = tj_index_counter st"
  by (simp_all add: finish_node_def split: prod.splits)

lemma step_weight_indices: "tj_indices st' = tj_indices st \<Longrightarrow> step_weight g st' = step_weight g st"
  by (rule ext, case_tac x) simp_all

lemma tarjan_step_smaller:
  assumes "tarjan_step g s st = Some (pushed, st')"
  shows "card {v \<in> graph_nodes g. tj_indices st' v = None} < card {v \<in> graph_nodes g. tj_indices st v = None} \<or>
    card {v \<in> graph_nodes g. tj_indices st' v = None} = card {v \<in> graph_nodes g. tj_indices st v = None} \<and>
    sum_list (map (step_weight g st') (pushed @ work)) < step_weight g st s + sum_list (map (step_weight g st) work)"
proof (cases s)
  case (Enter v)
  then have st': "pushed = [Continue v 0]" "tj_indices st' = (tj_indices st)(v \<mapsto> tj_index_counter st)"
    using assms by (auto simp: enter_node_def)
  show ?thesis
  proof (cases "v \<in> graph_nodes g \<and> tj_indices st v = None")
    case True
    then have "{w \<in> graph_nodes g. tj_indices st' w = None} \<subset> {w \<in> graph_nodes g. tj_indices st w = None}"
      using st'(2) by auto
    then show ?thesis by (intro disjI1 psubset_card_mono) auto
  next
    case False
    then have "{w \<in> graph_nodes g. tj_indices st' w = None} = {w \<in> graph_nodes g. tj_indices st w = None}"
      using st'(2) by auto
    moreover have "step_weight g st' = step_weight g st"
    proof
      fix x show "step_weight g st' x = step_weight g st x"
        using False st'(2) succs_outside [of v g] by (cases x) auto
    qed
    moreover have "1 + 4 * length (succs g v) < step_weight g st s"
      using False Enter succs_outside [of v g] by auto
    ultimately show ?thesis using st'(1) by simp
  qed
next
  case (Continue v i)
  then have same: "tj_indices st' = tj_indices st"
    using assms by (auto simp: visit_succ_def finish_node_parts split: if_splits option.splits dest: lower_link_parts)
  have "sum_list (map (step_weight g st) pushed) < step_weight g st (Continue v i)"
  proof (cases "i < length (succs g v)")
    case True
    then have "visit_succ v i (fst (succs g v ! i)) st = Some (pushed, st')" using assms Continue by simp
    then have "pushed = [Continue v (i + 1)] \<or>
        (\<exists>w. tj_indices st w = None \<and> pushed = [Enter w, Propagate v w, Continue v (i + 1)])"
      by (auto simp: visit_succ_def split: option.splits if_splits)
    then show ?thesis using True by (auto simp: diff_Suc split: nat.splits)
  qed (use assms Continue in simp)
  then show ?thesis using Continue by (simp add: step_weight_indices [OF same] same)
next
  case (Propagate p c)
  then have same: "tj_indices st' = tj_indices st" "pushed = []"
    using assms by (auto split: option.splits dest: lower_link_parts)
  then show ?thesis using Propagate by (simp add: step_weight_indices [OF same(1)])
qed

function tarjan_loop :: "dep_graph \<Rightarrow> tj_step list \<Rightarrow> tarjan \<Rightarrow> tarjan option" where
  "tarjan_loop g [] st = Some st"
| "tarjan_loop g (s # work) st =
     (case tarjan_step g s st of None \<Rightarrow> None | Some (pushed, st') \<Rightarrow> tarjan_loop g (pushed @ work) st')"
  by pat_completeness auto
termination
proof (relation "measures [\<lambda>(g, work, st). card {v \<in> graph_nodes g. tj_indices st v = None},
    \<lambda>(g, work, st). sum_list (map (step_weight g st) work)]")
  fix g s work st r pushed st'
  assume "tarjan_step g s st = Some r" "(pushed, st') = r"
  then have "tarjan_step g s st = Some (pushed, st')" by simp
  from tarjan_step_smaller [OF this, of work]
  show "((g, pushed @ work, st'), g, s # work, st) \<in> measures [\<lambda>(g, work, st). card {v \<in> graph_nodes g. tj_indices st v = None},
    \<lambda>(g, work, st). sum_list (map (step_weight g st) work)]" by auto
qed simp

definition tarjan_init :: tarjan where
  "tarjan_init = \<lparr>tj_index_counter = 0, tj_stack = [], tj_on_stack = {}, tj_indices = Map.empty, tj_lowlinks = Map.empty, tj_sccs = []\<rparr>"

fun tarjan_all :: "dep_graph \<Rightarrow> string list \<Rightarrow> tarjan \<Rightarrow> tarjan option" where
  "tarjan_all g [] st = Some st"
| "tarjan_all g (start # rest) st =
     (if tj_indices st start \<noteq> None then tarjan_all g rest st
      else case tarjan_loop g [Enter start] st of None \<Rightarrow> None | Some st' \<Rightarrow> tarjan_all g rest st')"

section \<open>Rejection\<close>

definition node_to_scc :: "string list list \<Rightarrow> string \<rightharpoonup> nat" where
  "node_to_scc sccs = fold (\<lambda>(i, scc) m. fold (\<lambda>n m. m(n \<mapsto> i)) scc m) (enumerate 0 sccs) Map.empty"

fun edge_error :: "string list \<Rightarrow> edge \<Rightarrow> stratify_error option" where
  "edge_error scc EdgeAggregate = Some (RecursionThroughAggregate scc)"
| "edge_error scc EdgeNegated = Some (RecursionThroughNegation scc)"
| "edge_error scc EdgeHeadExpr = Some (RecursionThroughHeadExpression scc)"
| "edge_error scc EdgePlain = None"

fun first_some :: "('a \<Rightarrow> 'b option) \<Rightarrow> 'a list \<Rightarrow> 'b option" where
  "first_some f [] = None"
| "first_some f (x # xs) = (case f x of Some y \<Rightarrow> Some y | None \<Rightarrow> first_some f xs)"

definition scc_error :: "dep_graph \<Rightarrow> string list \<Rightarrow> stratify_error option" where
  "scc_error g scc =
     first_some (\<lambda>node. first_some (\<lambda>(succ, e). if succ \<in> set scc then edge_error scc e else None) (succs g node)) scc"

section \<open>Strata\<close>

definition settling :: "edge \<Rightarrow> bool" where
  "settling e \<longleftrightarrow> e \<in> {EdgeAggregate, EdgeNegated}"

text \<open>The loop over the edges that leave one component: the highest stratum below and whether an edge settles.\<close>

fun scan_edges :: "(string \<rightharpoonup> nat) \<Rightarrow> (nat \<rightharpoonup> nat) \<Rightarrow> nat \<Rightarrow> (string \<times> edge) list \<Rightarrow> int \<times> bool \<Rightarrow> (int \<times> bool) option" where
  "scan_edges m ss i [] acc = Some acc"
| "scan_edges m ss i ((succ, e) # es) (hi, had) =
     (case m succ of
        None \<Rightarrow> None
      | Some j \<Rightarrow>
          if j \<noteq> i then
            scan_edges m ss i es
              (max hi (int (case ss j of Some s \<Rightarrow> s | None \<Rightarrow> 0)), had \<or> settling e)
          else scan_edges m ss i es (hi, had))"

definition stratum_of :: "int \<times> bool \<Rightarrow> nat" where
  "stratum_of acc = (if fst acc < 0 then 0 else nat (fst acc) + (if snd acc then 2 else 1))"

fun assign_strata :: "dep_graph \<Rightarrow> (string \<rightharpoonup> nat) \<Rightarrow> (nat \<times> string list) list \<Rightarrow> (nat \<rightharpoonup> nat) \<Rightarrow> (nat \<rightharpoonup> nat) option" where
  "assign_strata g m [] ss = Some ss"
| "assign_strata g m ((i, scc) # rest) ss =
     (case scan_edges m ss i (concat (map (succs g) scc)) (-1, False) of
        None \<Rightarrow> None
      | Some acc \<Rightarrow> assign_strata g m rest (ss(i \<mapsto> stratum_of acc)))"

definition rule_stratum :: "(string \<rightharpoonup> nat) \<Rightarrow> (nat \<rightharpoonup> nat) \<Rightarrow> datalog_rule \<Rightarrow> nat" where
  "rule_stratum m ss rule =
     (let scc_idx = (case m (at_predicate (dr_head rule)) of Some i \<Rightarrow> i | None \<Rightarrow> 0)
      in case ss scc_idx of Some s \<Rightarrow> s | None \<Rightarrow> 0)"

text \<open>\<open>by_stratum\<close> is a \<open>BTreeMap\<close>: its values come by ascending stratum, rule indices in order.\<close>

definition group_by_stratum :: "nat list \<Rightarrow> nat list list" where
  "group_by_stratum levels =
     map (\<lambda>s. filter (\<lambda>i. levels ! i = s) [0..<length levels]) (sort (remdups levels))"

definition stratify :: "datalog_rule list \<Rightarrow> (stratify_error + nat list list) option" where
  "stratify rules =
     (case build_graph rules of (g, preds) \<Rightarrow>
        (case tarjan_all g preds tarjan_init of
           None \<Rightarrow> None
         | Some st \<Rightarrow>
             (case first_some (scc_error g) (tj_sccs st) of
                Some e \<Rightarrow> Some (Inl e)
              | None \<Rightarrow>
                  let m = node_to_scc (tj_sccs st) in
                  map_option (\<lambda>ss. Inr (group_by_stratum (map (rule_stratum m ss) rules)))
                    (assign_strata g m (enumerate 0 (tj_sccs st)) Map.empty))))"

end
