(* ===== verification/Stratify_Tarjan.thy ===== *)
theory Stratify_Tarjan
  imports Stratify
begin

text \<open>
  The component search of \<open>stratify\<close> keeps what the strata rely on: it never panics, every predicate it starts from ends in
  exactly one component, and every dependency of a component lies in the same component or in one emitted before it.
  The proof cuts the stack into one segment per active node of the search and bounds every dependency of a segment
  by the low link of its node.
\<close>

section \<open>The invariant\<close>

abbreviation idx :: "tarjan \<Rightarrow> string \<Rightarrow> nat" where "idx st v \<equiv> the (tj_indices st v)"
abbreviation low :: "tarjan \<Rightarrow> string \<Rightarrow> nat" where "low st v \<equiv> the (tj_lowlinks st v)"

definition emitted :: "tarjan \<Rightarrow> string set" where
  "emitted st = set (concat (tj_sccs st))"

definition scc_closed :: "dep_graph \<Rightarrow> string list list \<Rightarrow> bool" where
  "scc_closed g sccs \<longleftrightarrow>
     (\<forall>i < length sccs. \<forall>u \<in> set (sccs ! i). \<forall>w \<in> fst ` set (succs g u). \<exists>j \<le> i. w \<in> set (sccs ! j))"

definition base_inv :: "dep_graph \<Rightarrow> nat \<Rightarrow> tarjan \<Rightarrow> bool" where
  "base_inv g r st \<longleftrightarrow>
     distinct (tj_stack st) \<and> distinct (concat (tj_sccs st)) \<and> set (tj_stack st) \<inter> emitted st = {} \<and>
     tj_on_stack st = set (tj_stack st) \<and> dom (tj_indices st) = set (tj_stack st) \<union> emitted st \<and>
     dom (tj_lowlinks st) = dom (tj_indices st) \<and>
     (\<forall>v \<in> dom (tj_indices st). idx st v < tj_index_counter st \<and> low st v \<le> idx st v \<and> (r \<le> idx st v \<longrightarrow> r \<le> low st v)) \<and>
     (\<forall>v \<in> set (tj_stack st). r \<le> idx st v) \<and> r \<le> tj_index_counter st \<and>
     sorted_wrt (\<lambda>a b. idx st b < idx st a) (tj_stack st) \<and> scc_closed g (tj_sccs st)"

type_synonym frames = "(string \<times> nat) list"

text \<open>The dependencies of a node the search has dealt with: a prefix for an active node, all of them for a finished one.\<close>

definition processed :: "dep_graph \<Rightarrow> frames \<Rightarrow> string \<Rightarrow> string set" where
  "processed g frames u =
     fst ` set (take (case map_of frames u of Some i \<Rightarrow> i | None \<Rightarrow> length (succs g u)) (succs g u))"

definition seg_ok :: "dep_graph \<Rightarrow> frames \<Rightarrow> string set \<Rightarrow> tarjan \<Rightarrow> string list \<Rightarrow> string \<Rightarrow> bool" where
  "seg_ok g frames pend st seg h \<longleftrightarrow>
     seg \<noteq> [] \<and> last seg = h \<and>
     (\<forall>u \<in> set seg. \<forall>w \<in> processed g frames u.
        w \<in> emitted st \<union> set (tj_stack st) \<union> pend \<and> (w \<in> set (tj_stack st) \<longrightarrow> low st h \<le> idx st w))"

definition search_inv :: "dep_graph \<Rightarrow> nat \<Rightarrow> frames \<Rightarrow> string set \<Rightarrow> string list \<Rightarrow> tarjan \<Rightarrow> bool" where
  "search_inv g r frames pend hs st \<longleftrightarrow>
     base_inv g r st \<and> (\<exists>segs. tj_stack st = concat segs \<and> list_all2 (seg_ok g frames pend st) segs hs)"

text \<open>The three shapes of the work list: about to enter a node, at an active node, back from a finished one.\<close>

fun rest_of :: "string \<Rightarrow> frames \<Rightarrow> tj_step list" where
  "rest_of c [] = []"
| "rest_of c ((p, j) # fs) = Propagate p c # Continue p j # rest_of p fs"

definition root_at :: "nat \<Rightarrow> frames \<Rightarrow> tarjan \<Rightarrow> bool" where
  "root_at r frames st \<longleftrightarrow> frames \<noteq> [] \<and> idx st (fst (last frames)) = r"

definition entering :: "dep_graph \<Rightarrow> nat \<Rightarrow> string \<Rightarrow> frames \<Rightarrow> tarjan \<Rightarrow> bool" where
  "entering g r s frames st \<longleftrightarrow> tj_indices st s = None \<and>
     (frames = [] \<and> tj_index_counter st = r \<or> root_at r frames st) \<and> search_inv g r frames {s} (map fst frames) st"

definition running :: "dep_graph \<Rightarrow> nat \<Rightarrow> frames \<Rightarrow> tarjan \<Rightarrow> bool" where
  "running g r frames st \<longleftrightarrow> root_at r frames st \<and> search_inv g r frames {} (map fst frames) st"

definition returning :: "dep_graph \<Rightarrow> nat \<Rightarrow> string \<Rightarrow> frames \<Rightarrow> tarjan \<Rightarrow> bool" where
  "returning g r c frames st \<longleftrightarrow> c \<in> dom (tj_indices st) \<and> r \<le> idx st c \<and>
     (frames = [] \<and> search_inv g r [] {} [] st \<or>
      root_at r frames st \<and>
        (search_inv g r frames {} (map fst frames) st \<or> search_inv g r frames {} (c # map fst frames) st))"

definition search_state :: "dep_graph \<Rightarrow> nat \<Rightarrow> tj_step list \<Rightarrow> tarjan \<Rightarrow> bool" where
  "search_state g r work st \<longleftrightarrow>
     (\<exists>s frames. work = Enter s # rest_of s frames \<and> entering g r s frames st) \<or>
     (\<exists>v i fs. work = Continue v i # rest_of v fs \<and> running g r ((v, i) # fs) st) \<or>
     (\<exists>c frames. work = rest_of c frames \<and> returning g r c frames st)"

section \<open>Consequences of the invariant\<close>

lemma base_invD:
  assumes "base_inv g r st"
  shows "distinct (tj_stack st)" "distinct (concat (tj_sccs st))" "set (tj_stack st) \<inter> emitted st = {}"
    "tj_on_stack st = set (tj_stack st)" "dom (tj_indices st) = set (tj_stack st) \<union> emitted st"
    "dom (tj_lowlinks st) = dom (tj_indices st)" "scc_closed g (tj_sccs st)" "r \<le> tj_index_counter st"
    "sorted_wrt (\<lambda>a b. idx st b < idx st a) (tj_stack st)"
    "\<And>v. v \<in> dom (tj_indices st) \<Longrightarrow> idx st v < tj_index_counter st"
    "\<And>v. v \<in> dom (tj_indices st) \<Longrightarrow> low st v \<le> idx st v"
    "\<And>v. v \<in> dom (tj_indices st) \<Longrightarrow> r \<le> idx st v \<Longrightarrow> r \<le> low st v"
    "\<And>v. v \<in> set (tj_stack st) \<Longrightarrow> r \<le> idx st v"
  using assms unfolding base_inv_def by blast+

lemma heads_on_stack:
  assumes "search_inv g r frames pend hs st"
  shows "set hs \<subseteq> set (tj_stack st)"
proof -
  obtain segs where stack: "tj_stack st = concat segs" and segs: "list_all2 (seg_ok g frames pend st) segs hs"
    using assms by (auto simp: search_inv_def)
  from segs have "set hs \<subseteq> set (concat segs)"
    by (induction rule: list_all2_induct) (auto simp: seg_ok_def)
  then show ?thesis by (simp add: stack)
qed

lemma search_inv_dom:
  "search_inv g r frames pend hs st \<Longrightarrow> h \<in> set hs \<Longrightarrow> h \<in> dom (tj_indices st) \<and> h \<in> dom (tj_lowlinks st) \<and> r \<le> idx st h"
  using heads_on_stack [of g r frames pend hs st] base_invD [of g r st] by (auto simp: search_inv_def)

lemma root_at_snoc: "root_at r (f # fs) st \<Longrightarrow> fs \<noteq> [] \<Longrightarrow> root_at r fs st"
  by (simp add: root_at_def)

lemma processed_other: "u \<noteq> v \<Longrightarrow> processed g ((v, i) # fs) u = processed g fs u"
  by (simp add: processed_def)

lemma processed_next:
  "i < length (succs g v) \<Longrightarrow>
    processed g ((v, Suc i) # fs) v = insert (fst (succs g v ! i)) (processed g ((v, i) # fs) v)"
  by (simp add: processed_def take_Suc_conv_app_nth)

lemma processed_done: "length (succs g v) \<le> i \<Longrightarrow> processed g ((v, i) # fs) v = fst ` set (succs g v)"
  by (simp add: processed_def)

lemma processed_none: "u \<notin> fst ` set fs \<Longrightarrow> processed g fs u = fst ` set (succs g u)"
  by (simp add: processed_def map_of_eq_None_iff [THEN iffD2])

text \<open>Segments survive a step that keeps the indices of the stack, does not raise low links and accounts for new dependencies.\<close>

lemma seg_ok_keep:
  assumes "seg_ok g frames pend st seg h" "low st' h \<le> low st h"
    and "\<And>u. u \<in> set seg \<Longrightarrow> processed g frames' u \<subseteq> processed g frames u \<union> extra u"
    and "emitted st \<union> set (tj_stack st) \<union> pend \<subseteq> emitted st' \<union> set (tj_stack st') \<union> pend'"
    and "\<And>w. w \<in> set (tj_stack st') \<Longrightarrow> w \<in> set (tj_stack st) \<and> idx st' w = idx st w \<or> low st' h \<le> idx st' w"
    and "\<And>u w. u \<in> set seg \<Longrightarrow> w \<in> extra u \<Longrightarrow> w \<in> emitted st' \<union> set (tj_stack st') \<union> pend' \<and>
      (w \<in> set (tj_stack st') \<longrightarrow> low st' h \<le> idx st' w)"
  shows "seg_ok g frames' pend' st' seg h"
  unfolding seg_ok_def
proof (intro conjI ballI impI)
  show "seg \<noteq> []" "last seg = h" using assms(1) by (simp_all add: seg_ok_def)
  fix u w assume u: "u \<in> set seg" and "w \<in> processed g frames' u"
  then consider "w \<in> processed g frames u" | "w \<in> extra u" using assms(3) by blast
  then have "w \<in> emitted st' \<union> set (tj_stack st') \<union> pend' \<and> (w \<in> set (tj_stack st') \<longrightarrow> low st' h \<le> idx st' w)"
  proof cases
    case 1
    then have old: "w \<in> emitted st \<union> set (tj_stack st) \<union> pend" "w \<in> set (tj_stack st) \<longrightarrow> low st h \<le> idx st w"
      using assms(1) u by (auto simp: seg_ok_def)
    then show ?thesis using assms(2,4) assms(5) [of w] by fastforce
  qed (use assms(6) u in blast)
  then show "w \<in> emitted st' \<union> set (tj_stack st') \<union> pend'" "w \<in> set (tj_stack st') \<Longrightarrow> low st' h \<le> idx st' w" by auto
qed

section \<open>Every step keeps the invariant\<close>

lemma enter_base:
  assumes "base_inv g r st" "tj_indices st s = None"
  shows "base_inv g r (snd (enter_node s st))"
proof -
  note inv = base_invD [OF assms(1)]
  have fresh: "s \<notin> set (tj_stack st)" "s \<notin> emitted st" using inv(5) assms(2) by (auto simp: domIff)
  have older: "sorted_wrt (\<lambda>a b. idx (snd (enter_node s st)) b < idx (snd (enter_node s st)) a) (tj_stack st)"
    using inv(9) fresh(1) by (auto simp: enter_node_def elim!: sorted_wrt_mono_rel [rotated])
  have "\<forall>v \<in> dom (tj_indices (snd (enter_node s st))). idx (snd (enter_node s st)) v < tj_index_counter st + 1 \<and>
      low (snd (enter_node s st)) v \<le> idx (snd (enter_node s st)) v \<and>
      (r \<le> idx (snd (enter_node s st)) v \<longrightarrow> r \<le> low (snd (enter_node s st)) v)"
    using inv(10,11,12) by (auto simp: enter_node_def intro: less_SucI)
  moreover have "\<forall>v \<in> set (tj_stack st). idx (snd (enter_node s st)) v < tj_index_counter st"
    using inv(5,10) fresh by (auto simp: enter_node_def)
  ultimately show ?thesis
    using inv fresh older unfolding base_inv_def
    by (auto simp: enter_node_def emitted_def)
qed

lemma enter_step:
  assumes "entering g r s frames st"
  shows "running g r ((s, 0) # frames) (snd (enter_node s st))"
proof -
  let ?st = "snd (enter_node s st)"
  have none: "tj_indices st s = None" and inv: "search_inv g r frames {s} (map fst frames) st"
    using assms by (auto simp: entering_def)
  then have base: "base_inv g r st" by (simp add: search_inv_def)
  note D = base_invD [OF base]
  obtain segs where stack: "tj_stack st = concat segs" and segs: "list_all2 (seg_ok g frames {s} st) segs (map fst frames)"
    using inv by (auto simp: search_inv_def)
  have fresh: "s \<notin> set (tj_stack st)" using D(5) none by (auto simp: domIff)
  have st': "tj_stack ?st = s # tj_stack st" "emitted ?st = emitted st" "idx ?st s = tj_index_counter st"
    "\<And>v. v \<noteq> s \<Longrightarrow> idx ?st v = idx st v \<and> low ?st v = low st v"
    by (simp_all add: enter_node_def emitted_def)
  have "seg_ok g ((s, 0) # frames) {} ?st seg h"
    if "seg \<in> set segs" "h \<in> set (map fst frames)" "seg_ok g frames {s} st seg h" for seg h
  proof (rule seg_ok_keep [OF that(3), where extra = "\<lambda>_. {}"])
    have h: "h \<in> dom (tj_indices st)" "h \<noteq> s" using search_inv_dom [OF inv that(2)] none by auto
    then show "low ?st h \<le> low st h" using st'(4) by simp
    fix w assume "w \<in> set (tj_stack ?st)"
    then show "w \<in> set (tj_stack st) \<and> idx ?st w = idx st w \<or> low ?st h \<le> idx ?st w"
      using st' h D(10,11) [OF h(1)] by (cases "w = s") auto
  next
    fix u assume "u \<in> set seg"
    then have "u \<noteq> s" using fresh stack that(1) by auto
    then show "processed g ((s, 0) # frames) u \<subseteq> processed g frames u \<union> {}" by (simp add: processed_other)
  qed (use st' in auto)
  then have "list_all2 (seg_ok g ((s, 0) # frames) {} ?st) segs (map fst frames)"
    by (intro list.rel_mono_strong [OF segs])
  moreover have "seg_ok g ((s, 0) # frames) {} ?st [s] s" by (simp add: seg_ok_def processed_def)
  ultimately have "list_all2 (seg_ok g ((s, 0) # frames) {} ?st) ([s] # segs) (map fst ((s, 0) # frames))" by simp
  moreover have "tj_stack ?st = concat ([s] # segs)" using stack st'(1) by simp
  ultimately have "search_inv g r ((s, 0) # frames) {} (map fst ((s, 0) # frames)) ?st"
    using enter_base [OF base none] unfolding search_inv_def by blast
  moreover have "root_at r ((s, 0) # frames) ?st"
  proof (cases "frames = []")
    case False
    then have root: "idx st (fst (last frames)) = r" using assms by (auto simp: entering_def root_at_def)
    have "fst (last frames) \<in> set (map fst frames)" using False by simp
    then have "fst (last frames) \<noteq> s" using search_inv_dom [OF inv] none by auto
    then show ?thesis using root False st'(4) by (simp add: root_at_def)
  qed (use assms st'(3) in \<open>auto simp: entering_def root_at_def\<close>)
  ultimately show ?thesis by (simp add: running_def)
qed

text \<open>Lowering the low link of an active node to the index of something on the stack or to a low link.\<close>

lemma lower_link_base:
  assumes "base_inv g r st" "lower_link v n st = Some st'" "r \<le> n"
  shows "base_inv g r st'"
proof -
  note inv = base_invD [OF assms(1)] and parts = lower_link_parts [OF assms(2)]
  obtain cur where cur: "tj_lowlinks st v = Some cur" using assms(2) by (auto simp: lower_link_def split: option.splits)
  then have low: "low st' u = (if u = v then min n cur else low st u)" for u
    using assms(2) by (auto simp: lower_link_def min_def split: if_splits)
  have "dom (tj_lowlinks st') = dom (tj_lowlinks st)"
    using assms(2) cur by (auto simp: lower_link_def split: if_splits)
  moreover have "low st' u \<le> idx st u \<and> (r \<le> idx st u \<longrightarrow> r \<le> low st' u)" if "u \<in> dom (tj_indices st)" for u
    using inv(11,12) [OF that] low [of u] cur assms(3) by (auto split: if_splits)
  ultimately show ?thesis
    using parts inv(10,13) assms(1) unfolding base_inv_def by (simp add: emitted_def)
qed

lemma lower_link_returns:
  assumes "v \<in> dom (tj_lowlinks st)"
  obtains st' where "lower_link v n st = Some st'" "low st' v \<le> n" "\<And>u. low st' u \<le> low st u"
    "\<And>u. u \<noteq> v \<Longrightarrow> low st' u = low st u"
proof -
  obtain cur where "tj_lowlinks st v = Some cur" using assms by auto
  then show ?thesis using that [of "if n < cur then st\<lparr>tj_lowlinks := (tj_lowlinks st)(v \<mapsto> n)\<rparr> else st"]
    by (auto simp: lower_link_def)
qed

text \<open>Moving an active node past its next dependency, in a state that accounts for it.\<close>

lemma advance:
  assumes inv: "search_inv g r ((v, i) # fs) {} (map fst ((v, i) # fs)) st" and i: "i < length (succs g v)"
    and base: "base_inv g r st'"
    and same: "tj_stack st' = tj_stack st" "emitted st' = emitted st" "tj_indices st' = tj_indices st"
    and lows: "\<And>u. low st' u \<le> low st u"
    and s: "fst (succs g v ! i) \<in> emitted st \<union> set (tj_stack st) \<union> pend"
      "fst (succs g v ! i) \<in> set (tj_stack st) \<Longrightarrow> low st' v \<le> idx st (fst (succs g v ! i))"
  shows "search_inv g r ((v, Suc i) # fs) pend (map fst ((v, Suc i) # fs)) st'"
proof -
  obtain segs where stack: "tj_stack st = concat segs" and all: "list_all2 (seg_ok g ((v, i) # fs) {} st) segs (v # map fst fs)"
    using inv by (auto simp: search_inv_def)
  then obtain seg rest where segs: "segs = seg # rest" by (cases segs) auto
  then have top: "seg_ok g ((v, i) # fs) {} st seg v" and others: "list_all2 (seg_ok g ((v, i) # fs) {} st) rest (map fst fs)"
    using all by auto
  have "v \<in> set seg" using top by (auto simp: seg_ok_def)
  then have off: "v \<notin> set (concat rest)"
    using base_invD(1) [of g r st] inv stack segs by (auto simp: search_inv_def)
  have "seg_ok g ((v, Suc i) # fs) pend st' seg v"
  proof (rule seg_ok_keep [OF top, where extra = "\<lambda>u. if u = v then {fst (succs g v ! i)} else {}"])
    fix u show "processed g ((v, Suc i) # fs) u \<subseteq> processed g ((v, i) # fs) u \<union> (if u = v then {fst (succs g v ! i)} else {})"
      using processed_next [OF i, of fs] by (cases "u = v") (auto simp: processed_other)
  qed (use lows same s in \<open>auto split: if_splits\<close>)
  moreover have "list_all2 (seg_ok g ((v, Suc i) # fs) pend st') rest (map fst fs)"
  proof (rule list.rel_mono_strong [OF others])
    fix sg h assume "sg \<in> set rest" and ok: "seg_ok g ((v, i) # fs) {} st sg h"
    then have "u \<noteq> v" if "u \<in> set sg" for u using off that by auto
    then show "seg_ok g ((v, Suc i) # fs) pend st' sg h"
      by (intro seg_ok_keep [OF ok, where extra = "\<lambda>_. {}"]) (use lows same in \<open>auto simp: processed_other\<close>)
  qed
  ultimately have "list_all2 (seg_ok g ((v, Suc i) # fs) pend st') segs (map fst ((v, Suc i) # fs))" by (simp add: segs)
  then show ?thesis using base stack same(1) unfolding search_inv_def by auto
qed

lemma root_at_indices:
  "root_at r ((v, i) # fs) st \<Longrightarrow> tj_indices st' = tj_indices st \<Longrightarrow> root_at r ((v, j) # fs) st'"
  by (cases fs) (simp_all add: root_at_def)

lemma visit_step:
  assumes run: "running g r ((v, i) # fs) st" and i: "i < length (succs g v)"
  shows "\<exists>pushed st'. visit_succ v i (fst (succs g v ! i)) st = Some (pushed, st') \<and>
    search_state g r (pushed @ rest_of v fs) st'"
proof -
  let ?s = "fst (succs g v ! i)"
  have inv: "search_inv g r ((v, i) # fs) {} (map fst ((v, i) # fs)) st" and root: "root_at r ((v, i) # fs) st"
    using run by (auto simp: running_def)
  then have base: "base_inv g r st" by (simp add: search_inv_def)
  note D = base_invD [OF base]
  show ?thesis
  proof (cases "tj_indices st ?s")
    case None
    then have off: "?s \<notin> set (tj_stack st)" using D(5) by (auto simp: domIff)
    have "search_inv g r ((v, Suc i) # fs) {?s} (map fst ((v, Suc i) # fs)) st"
      by (rule advance [OF inv i base]) (use off in auto)
    then have "entering g r ?s ((v, Suc i) # fs) st"
      using None root_at_indices [OF root] by (simp add: entering_def)
    then have "search_state g r (Enter ?s # rest_of ?s ((v, Suc i) # fs)) st" unfolding search_state_def by blast
    then show ?thesis using None by (simp add: visit_succ_def)
  next
    case (Some n)
    have onward: "search_state g r ([Continue v (Suc i)] @ rest_of v fs) st'"
      if "search_inv g r ((v, Suc i) # fs) {} (map fst ((v, Suc i) # fs)) st'" "tj_indices st' = tj_indices st" for st'
      using that root_at_indices [OF root that(2), of "Suc i"] unfolding search_state_def running_def by auto
    show ?thesis
    proof (cases "?s \<in> set (tj_stack st)")
      case True
      have "v \<in> dom (tj_lowlinks st)" using search_inv_dom [OF inv, of v] by simp
      then obtain st' where st': "lower_link v n st = Some st'" "low st' v \<le> n" "\<And>u. low st' u \<le> low st u"
        using lower_link_returns [of v st n] by blast
      note parts = lower_link_parts [OF st'(1)]
      have "base_inv g r st'" using lower_link_base [OF base st'(1)] D(13) [OF True] Some by simp
      then have "search_inv g r ((v, Suc i) # fs) {} (map fst ((v, Suc i) # fs)) st'"
        by (rule advance [OF inv i]) (use parts st' True Some in \<open>auto simp: emitted_def\<close>)
      then show ?thesis using onward parts True Some st'(1) D(4) by (auto simp: visit_succ_def)
    next
      case False
      then have "?s \<in> emitted st" using D(5) Some by auto
      then have "search_inv g r ((v, Suc i) # fs) {} (map fst ((v, Suc i) # fs)) st"
        by (intro advance [OF inv i base]) (use False in auto)
      then show ?thesis using onward False Some D(4) by (auto simp: visit_succ_def)
    qed
  qed
qed

section \<open>Finishing a node\<close>

lemma pop_scc_segment:
  "seg \<noteq> [] \<Longrightarrow> last seg = v \<Longrightarrow> distinct seg \<Longrightarrow> pop_scc v (seg @ rest) = (seg, rest)"
proof (induction seg)
  case (Cons w seg)
  then show ?case by (cases "seg = []") (auto dest: last_in_set)
qed simp

text \<open>What the invariant says about the top segment when its node has no dependency left.\<close>

lemma finished_top:
  assumes inv: "search_inv g r ((v, i) # fs) {} (v # map fst fs) st" and ended: "length (succs g v) \<le> i"
  obtains seg rest where "tj_stack st = seg @ concat rest" "seg \<noteq> []" "last seg = v"
    "\<And>u w. u \<in> set seg \<Longrightarrow> w \<in> fst ` set (succs g u) \<Longrightarrow>
      w \<in> emitted st \<union> set (tj_stack st) \<and> (w \<in> set (tj_stack st) \<longrightarrow> low st v \<le> idx st w)"
    "list_all2 (seg_ok g fs {} st) rest (map fst fs)" "seg_ok g fs {} st seg v"
proof -
  obtain segs where stack: "tj_stack st = concat segs" and all: "list_all2 (seg_ok g ((v, i) # fs) {} st) segs (v # map fst fs)"
    using inv by (auto simp: search_inv_def)
  then obtain seg rest where segs: "segs = seg # rest" by (cases segs) auto
  then have top: "seg_ok g ((v, i) # fs) {} st seg v" and others: "list_all2 (seg_ok g ((v, i) # fs) {} st) rest (map fst fs)"
    using all by auto
  have dist: "distinct (seg @ concat rest)" using base_invD(1) [of g r st] inv stack segs by (simp add: search_inv_def)
  have "set (map fst fs) \<subseteq> set (concat rest)"
    using others by (induction rule: list_all2_induct) (auto simp: seg_ok_def)
  then have "u \<notin> fst ` set fs" if "u \<in> set seg" for u using dist that by auto
  then have full: "processed g ((v, i) # fs) u = fst ` set (succs g u)" "processed g fs u = fst ` set (succs g u)"
    if "u \<in> set seg" for u
    using that ended by (cases "u = v"; simp add: processed_done processed_none processed_other)+
  have "v \<in> set seg" using top by (auto simp: seg_ok_def)
  then have "v \<notin> set (concat rest)" using dist by auto
  have "list_all2 (seg_ok g fs {} st) rest (map fst fs)"
  proof (rule list.rel_mono_strong [OF others])
    fix sg h assume "sg \<in> set rest" and ok: "seg_ok g ((v, i) # fs) {} st sg h"
    then have "u \<noteq> v" if "u \<in> set sg" for u using \<open>v \<notin> set (concat rest)\<close> that by auto
    then show "seg_ok g fs {} st sg h" using ok unfolding seg_ok_def by (metis processed_other)
  qed
  moreover have "seg_ok g fs {} st seg v" using top full by (auto simp: seg_ok_def)
  moreover have "w \<in> emitted st \<union> set (tj_stack st) \<and> (w \<in> set (tj_stack st) \<longrightarrow> low st v \<le> idx st w)"
    if "u \<in> set seg" "w \<in> fst ` set (succs g u)" for u w
    using top full(1) [OF that(1)] that unfolding seg_ok_def by blast
  moreover have "tj_stack st = seg @ concat rest" "seg \<noteq> []" "last seg = v" using stack segs top by (auto simp: seg_ok_def)
  ultimately show ?thesis by (intro that)
qed

lemma pop_closed:
  assumes "scc_closed g sccs" "\<And>u w. u \<in> set seg \<Longrightarrow> w \<in> fst ` set (succs g u) \<Longrightarrow> w \<in> set (concat sccs) \<union> set seg"
  shows "scc_closed g (sccs @ [seg])"
  unfolding scc_closed_def
proof (intro allI impI ballI)
  fix i u w assume "i < length (sccs @ [seg])" and u: "u \<in> set ((sccs @ [seg]) ! i)" and w: "w \<in> fst ` set (succs g u)"
  then consider "i < length sccs" | "i = length sccs" by force
  then show "\<exists>j \<le> i. w \<in> set ((sccs @ [seg]) ! j)"
  proof cases
    case 1
    then show ?thesis using assms(1) u w unfolding scc_closed_def by (fastforce simp: nth_append)
  next
    case 2
    then have "w \<in> set (concat sccs) \<union> set seg" using assms(2) u w by simp
    then consider j where "j < length sccs" "w \<in> set (sccs ! j)" | "w \<in> set seg"
      by (auto simp: in_set_conv_nth [of _ sccs])
    then show ?thesis
    proof cases
      fix j assume "j < length sccs" "w \<in> set (sccs ! j)"
      then show ?thesis using 2 by (intro exI [of _ j]) (simp add: nth_append)
    next
      assume "w \<in> set seg"
      then show ?thesis using 2 by (intro exI [of _ i]) simp
    qed
  qed
qed

lemma above_in_segment:
  assumes "sorted_wrt (\<lambda>a b. idx st b < idx st a) (seg @ rest)" "seg \<noteq> []" "w \<in> set (seg @ rest)" "idx st (last seg) \<le> idx st w"
  shows "w \<in> set seg"
proof (rule ccontr)
  assume "w \<notin> set seg"
  then have "w \<in> set rest" using assms(3) by simp
  then have "idx st w < idx st (last seg)" using assms(1,2) by (auto simp: sorted_wrt_append)
  then show False using assms(4) by simp
qed

lemma finish_step:
  assumes run: "running g r ((v, i) # fs) st" and ended: "length (succs g v) \<le> i"
  shows "returning g r v fs (finish_node v st)"
proof -
  have inv: "search_inv g r ((v, i) # fs) {} (v # map fst fs) st" and root: "root_at r ((v, i) # fs) st"
    using run by (auto simp: running_def)
  then have base: "base_inv g r st" by (simp add: search_inv_def)
  note D = base_invD [OF base]
  obtain seg rest where seg: "tj_stack st = seg @ concat rest" "seg \<noteq> []" "last seg = v"
    and deps: "\<And>u w. u \<in> set seg \<Longrightarrow> w \<in> fst ` set (succs g u) \<Longrightarrow>
      w \<in> emitted st \<union> set (tj_stack st) \<and> (w \<in> set (tj_stack st) \<longrightarrow> low st v \<le> idx st w)"
    and rest: "list_all2 (seg_ok g fs {} st) rest (map fst fs)" and top: "seg_ok g fs {} st seg v"
    using finished_top [OF inv ended] by metis
  have v: "v \<in> dom (tj_indices st)" "v \<in> dom (tj_lowlinks st)" "r \<le> idx st v" using search_inv_dom [OF inv, of v] by auto
  have linked: "tj_lowlinks st v = tj_indices st v \<longleftrightarrow> low st v = idx st v" using v by auto
  show ?thesis
  proof (cases "low st v = idx st v")
    case True
    have pop: "pop_scc v (tj_stack st) = (seg, concat rest)"
      using seg D(1) by (simp add: pop_scc_segment)
    let ?st = "finish_node v st"
    have st': "tj_stack ?st = concat rest" "tj_sccs ?st = tj_sccs st @ [seg]" "tj_on_stack ?st = tj_on_stack st - set seg"
      "emitted ?st = emitted st \<union> set seg"
      using True linked pop by (auto simp: finish_node_def emitted_def)
    note parts = finish_node_parts [of v st]
    have "w \<in> set (concat (tj_sccs st)) \<union> set seg" if "u \<in> set seg" "w \<in> fst ` set (succs g u)" for u w
      using deps [OF that] above_in_segment [of st seg "concat rest" w] D(9) seg True by (auto simp: emitted_def)
    then have closed: "scc_closed g (tj_sccs ?st)" using pop_closed [OF D(7)] st'(2) by simp
    have "base_inv g r ?st"
      using D seg(1) closed unfolding base_inv_def st' parts by (auto simp: sorted_wrt_append emitted_def)
    moreover have "list_all2 (seg_ok g fs {} ?st) rest (map fst fs)"
    proof (rule list.rel_mono_strong [OF rest])
      fix sg h assume "seg_ok g fs {} st sg h"
      then show "seg_ok g fs {} ?st sg h"
        by (rule seg_ok_keep [where extra = "\<lambda>_. {}"]) (auto simp: st' parts seg(1))
    qed
    ultimately have inv': "search_inv g r fs {} (map fst fs) ?st" using st'(1) unfolding search_inv_def by blast
    then show ?thesis using v root by (cases "fs = []") (auto simp: returning_def parts root_at_def)
  next
    case False
    then have same: "finish_node v st = st" using linked by (simp add: finish_node_def)
    have "fs \<noteq> []"
    proof
      assume "fs = []"
      then have "idx st v = r" using root by (simp add: root_at_def)
      then show False using False D(11,12) [OF v(1)] by simp
    qed
    moreover have "list_all2 (seg_ok g fs {} st) (seg # rest) (v # map fst fs)" using rest top by simp
    then have "search_inv g r fs {} (v # map fst fs) st"
      using base seg(1) unfolding search_inv_def by (metis concat.simps(2))
    ultimately show ?thesis using v root same by (simp add: returning_def root_at_def)
  qed
qed

section \<open>Returning to the parent\<close>

lemma search_inv_low:
  assumes inv: "search_inv g r frames pend hs st" and link: "lower_link p n st = Some st'" and "r \<le> n"
  shows "search_inv g r frames pend hs st'"
proof -
  obtain segs where segs: "tj_stack st = concat segs" "list_all2 (seg_ok g frames pend st) segs hs"
    using inv by (auto simp: search_inv_def)
  note parts = lower_link_parts [OF link]
  have low: "low st' u \<le> low st u" for u using link by (auto simp: lower_link_def split: option.splits if_splits)
  have "list_all2 (seg_ok g frames pend st') segs hs"
  proof (rule list.rel_mono_strong [OF segs(2)])
    fix sg h assume "seg_ok g frames pend st sg h"
    then show "seg_ok g frames pend st' sg h"
      by (rule seg_ok_keep [where extra = "\<lambda>_. {}"]) (use low parts in \<open>auto simp: emitted_def\<close>)
  qed
  then show ?thesis using lower_link_base [of g r st] inv link assms(3) segs(1) parts unfolding search_inv_def by auto
qed

text \<open>The segment of a finished child is absorbed by its parent's once the parent's low link is no higher.\<close>

lemma absorb_segment:
  assumes inv: "search_inv g r frames {} (c # p # hs) st" and "low st p \<le> low st c"
  shows "search_inv g r frames {} (p # hs) st"
proof -
  obtain segs where segs: "tj_stack st = concat segs" "list_all2 (seg_ok g frames {} st) segs (c # p # hs)"
    using inv by (auto simp: search_inv_def)
  then obtain sc sp rest where parts: "segs = sc # sp # rest" "seg_ok g frames {} st sc c" "seg_ok g frames {} st sp p"
    "list_all2 (seg_ok g frames {} st) rest hs" by (auto simp: list_all2_Cons2)
  have "seg_ok g frames {} st (sc @ sp) p"
    using parts(2,3) assms(2) unfolding seg_ok_def by (auto intro: order_trans)
  then have "list_all2 (seg_ok g frames {} st) ((sc @ sp) # rest) (p # hs)" using parts(4) by simp
  moreover have "tj_stack st = concat ((sc @ sp) # rest)" using segs(1) parts(1) by simp
  ultimately show ?thesis using inv unfolding search_inv_def by blast
qed

lemma propagate_step:
  assumes ret: "returning g r c ((p, j) # fs) st"
  shows "\<exists>st'. tarjan_step g (Propagate p c) st = Some ([], st') \<and> running g r ((p, j) # fs) st'"
proof -
  let ?frames = "(p, j) # fs"
  have c: "c \<in> dom (tj_indices st)" "r \<le> idx st c" and root: "root_at r ?frames st"
    and inv: "search_inv g r ?frames {} (map fst ?frames) st \<or> search_inv g r ?frames {} (c # map fst ?frames) st"
    using ret by (auto simp: returning_def)
  then have base: "base_inv g r st" by (auto simp: search_inv_def)
  note D = base_invD [OF base]
  obtain n where n: "tj_lowlinks st c = Some n" using c D(6) by auto
  have "r \<le> n" using D(12) [OF c] n by simp
  have "p \<in> dom (tj_lowlinks st)" using inv search_inv_dom [where h = p] by fastforce
  then obtain st' where st': "lower_link p n st = Some st'" "low st' p \<le> n" "\<And>u. u \<noteq> p \<Longrightarrow> low st' u = low st u"
    using lower_link_returns [of p st n] by metis
  have "search_inv g r ?frames {} (map fst ?frames) st'"
  proof (cases "search_inv g r ?frames {} (map fst ?frames) st")
    case True
    then show ?thesis using st'(1) \<open>r \<le> n\<close> by (rule search_inv_low)
  next
    case False
    then have with_c: "search_inv g r ?frames {} (c # p # map fst fs) st'"
      using inv search_inv_low [OF _ st'(1) \<open>r \<le> n\<close>] by auto
    have "low st' p \<le> low st' c" using st'(2,3) n by (cases "c = p") auto
    from absorb_segment [OF with_c this] show ?thesis by simp
  qed
  moreover have "root_at r ?frames st'" using root_at_indices [OF root] lower_link_parts [OF st'(1)] by simp
  ultimately show ?thesis using n st'(1) by (simp add: running_def)
qed

section \<open>The whole search\<close>

lemma rest_of_Cons:
  "s # work = rest_of c frames \<longleftrightarrow>
    (\<exists>p j fs. frames = (p, j) # fs \<and> s = Propagate p c \<and> work = Continue p j # rest_of p fs)"
  by (cases "(c, frames)" rule: rest_of.cases) auto

lemma search_step:
  assumes "search_state g r (s # work) st"
  shows "\<exists>pushed st'. tarjan_step g s st = Some (pushed, st') \<and> search_state g r (pushed @ work) st'"
proof -
  consider (enter) v frames where "s = Enter v" "work = rest_of v frames" "entering g r v frames st"
    | (go) v i fs where "s = Continue v i" "work = rest_of v fs" "running g r ((v, i) # fs) st"
    | (ret) c p j fs where "s = Propagate p c" "work = Continue p j # rest_of p fs" "returning g r c ((p, j) # fs) st"
    using assms unfolding search_state_def rest_of_Cons by blast
  then show ?thesis
  proof cases
    case enter
    have "search_state g r (Continue v 0 # rest_of v frames) (snd (enter_node v st))"
      using enter_step [OF enter(3)] unfolding search_state_def by blast
    then show ?thesis using enter by (simp add: enter_node_def)
  next
    case go
    show ?thesis
    proof (cases "i < length (succs g v)")
      case True
      then show ?thesis using visit_step [OF go(3)] go by simp
    next
      case False
      then have "returning g r v fs (finish_node v st)" using finish_step [OF go(3)] by simp
      then show ?thesis using go False unfolding search_state_def by auto
    qed
  next
    case ret
    obtain st' where st': "tarjan_step g s st = Some ([], st')" "running g r ((p, j) # fs) st'"
      using propagate_step [OF ret(3)] ret(1) by blast
    have "search_state g r work st'" using st'(2) ret(2) unfolding search_state_def by blast
    then show ?thesis using st'(1) by auto
  qed
qed

lemma search_ends: "search_state g r [] st \<Longrightarrow> base_inv g r st \<and> tj_stack st = []"
proof -
  assume "search_state g r [] st"
  then obtain c frames where "[] = rest_of c frames" "returning g r c frames st" by (auto simp: search_state_def)
  moreover from this(1) have "frames = []" by (cases "(c, frames)" rule: rest_of.cases) auto
  ultimately have "search_inv g r [] {} [] st" by (simp add: returning_def root_at_def)
  then show ?thesis by (simp add: search_inv_def)
qed

lemma tarjan_loop_ok:
  "search_state g r work st \<Longrightarrow> \<exists>st'. tarjan_loop g work st = Some st' \<and> base_inv g r st' \<and> tj_stack st' = []"
proof (induction g work st rule: tarjan_loop.induct)
  case (2 g s work st)
  obtain pushed st' where step: "tarjan_step g s st = Some (pushed, st')" "search_state g r (pushed @ work) st'"
    using search_step [OF "2.prems"] by blast
  from "2.IH" [OF step(1) HOL.refl step(2)] show ?case using step(1) by simp
qed (auto dest: search_ends)

lemma tarjan_step_indices: "tarjan_step g s st = Some (pushed, st') \<Longrightarrow> dom (tj_indices st) \<subseteq> dom (tj_indices st')"
  by (cases s) (auto simp: enter_node_def visit_succ_def finish_node_parts split: if_splits option.splits dest!: lower_link_parts)

lemma tarjan_loop_indices: "tarjan_loop g work st = Some st' \<Longrightarrow> dom (tj_indices st) \<subseteq> dom (tj_indices st')"
proof (induction g work st rule: tarjan_loop.induct)
  case (2 g s work st)
  then obtain pushed mid where step: "tarjan_step g s st = Some (pushed, mid)" "tarjan_loop g (pushed @ work) mid = Some st'"
    by (auto split: option.splits)
  from "2.IH" [OF step(1) HOL.refl step(2)] tarjan_step_indices [OF step(1)] show ?case by blast
qed simp

text \<open>Between two roots the stack is empty, and the counter is a bound below every later index.\<close>

definition between_roots :: "dep_graph \<Rightarrow> tarjan \<Rightarrow> bool" where
  "between_roots g st \<longleftrightarrow> base_inv g (tj_index_counter st) st \<and> tj_stack st = []"

lemma between_rootsI: "base_inv g r st \<Longrightarrow> tj_stack st = [] \<Longrightarrow> between_roots g st"
proof -
  assume b: "base_inv g r st" and e: "tj_stack st = []"
  note D = base_invD [OF b]
  have "idx st v < tj_index_counter st \<and> low st v \<le> idx st v \<and>
      (tj_index_counter st \<le> idx st v \<longrightarrow> tj_index_counter st \<le> low st v)" if "v \<in> dom (tj_indices st)" for v
    using D(10,11) [OF that] by simp
  then show ?thesis using b e unfolding between_roots_def base_inv_def by simp
qed

lemma between_roots_loop:
  assumes "between_roots g st" "tj_indices st s = None"
  shows "\<exists>st'. tarjan_loop g [Enter s] st = Some st' \<and> between_roots g st' \<and> s \<in> dom (tj_indices st') \<and>
    dom (tj_indices st) \<subseteq> dom (tj_indices st')"
proof -
  have "search_inv g (tj_index_counter st) [] {s} [] st"
    using assms(1) unfolding between_roots_def search_inv_def by (auto intro: exI [of _ "[]"])
  then have "entering g (tj_index_counter st) s [] st" using assms(2) by (simp add: entering_def)
  then have "search_state g (tj_index_counter st) [Enter s] st" unfolding search_state_def by fastforce
  then obtain st' where st': "tarjan_loop g [Enter s] st = Some st'" "base_inv g (tj_index_counter st) st'" "tj_stack st' = []"
    using tarjan_loop_ok by blast
  have "tarjan_loop g [Continue s 0] (snd (enter_node s st)) = Some st'" using st'(1) by (simp add: enter_node_def)
  then have "dom (tj_indices (snd (enter_node s st))) \<subseteq> dom (tj_indices st')" by (rule tarjan_loop_indices)
  then show ?thesis using st' between_rootsI tarjan_loop_indices [OF st'(1)] by (auto simp: enter_node_def)
qed

lemma tarjan_all_ok:
  "between_roots g st \<Longrightarrow> \<exists>st'. tarjan_all g ps st = Some st' \<and> between_roots g st' \<and>
    set ps \<subseteq> dom (tj_indices st') \<and> dom (tj_indices st) \<subseteq> dom (tj_indices st')"
proof (induction ps arbitrary: st)
  case (Cons p ps)
  show ?case
  proof (cases "tj_indices st p")
    case None
    obtain mid where mid: "tarjan_loop g [Enter p] st = Some mid" "between_roots g mid" "p \<in> dom (tj_indices mid)"
      "dom (tj_indices st) \<subseteq> dom (tj_indices mid)" using between_roots_loop [OF Cons.prems None] by blast
    obtain st' where st': "tarjan_all g ps mid = Some st'" "between_roots g st'" "set ps \<subseteq> dom (tj_indices st')"
      "dom (tj_indices mid) \<subseteq> dom (tj_indices st')" using Cons.IH [OF mid(2)] by blast
    have "tarjan_all g (p # ps) st = Some st'" using None mid(1) st'(1) by (simp del: tarjan_loop.simps)
    moreover have "set (p # ps) \<subseteq> dom (tj_indices st')" using st'(3,4) mid(3) by (metis insert_subset list.simps(15) subsetD)
    ultimately show ?thesis using st'(2,4) mid(4) by (blast intro: subset_trans)
  next
    case (Some n)
    obtain st' where st': "tarjan_all g ps st = Some st'" "between_roots g st'" "set ps \<subseteq> dom (tj_indices st')"
      "dom (tj_indices st) \<subseteq> dom (tj_indices st')" using Cons.IH [OF Cons.prems] by blast
    moreover have "p \<in> dom (tj_indices st')" using Some st'(4) by blast
    ultimately show ?thesis using Some by simp
  qed
qed simp

lemma tarjan_sccs:
  "\<exists>st. tarjan_all g ps tarjan_init = Some st \<and> distinct (concat (tj_sccs st)) \<and> scc_closed g (tj_sccs st) \<and>
    set ps \<subseteq> set (concat (tj_sccs st))"
proof -
  have "between_roots g tarjan_init"
    by (auto simp: between_roots_def base_inv_def tarjan_init_def emitted_def scc_closed_def)
  from tarjan_all_ok [OF this, of ps] show ?thesis
    unfolding between_roots_def by (metis base_invD(2,5,7) emitted_def empty_set sup_bot_left)
qed

end
