(* ===== verification/Stratify_Levels.thy ===== *)
theory Stratify_Levels
  imports Stratify_Tarjan
begin

text \<open>
  The strata that \<open>stratify\<close> returns: the dependency graph holds every dependency of every rule, components carry
  ascending levels, and the levels group the rules so that what a rule reads is settled no later than the rule runs.
\<close>

section \<open>The graph\<close>

lemma graph_extend_succs:
  "succs (graph_extend h es g) v = (if v = h then succs g h @ es else succs g v)"
  by (induction h es g rule: graph_extend.induct) (auto simp: succs_def)

lemma note_pred_set: "set (note_pred p ps) = insert p (set ps)"
  by (auto simp: note_pred_def)

lemma note_preds: "set (fold note_pred qs ps) = set qs \<union> set ps"
  by (induction qs arbitrary: ps) (auto simp: note_pred_set)

lemma build_graph_fold:
  "fold add_rule rules (g, ps) = (g', ps') \<Longrightarrow>
    set (succs g' v) = set (succs g v) \<union> (\<Union>r \<in> {r \<in> set rules. at_predicate (dr_head r) = v}. set (rule_edges r)) \<and>
    set ps' = set ps \<union> (\<Union>r \<in> set rules. insert (at_predicate (dr_head r)) (fst ` set (rule_edges r)))"
proof (induction rules arbitrary: g ps)
  case (Cons r rules)
  obtain g1 ps1 where first: "add_rule r (g, ps) = (g1, ps1)" by fastforce
  then have "fold add_rule rules (g1, ps1) = (g', ps')" using Cons.prems by simp
  note IH = Cons.IH [OF this]
  have "set (succs g1 v) = set (succs g v) \<union> (if at_predicate (dr_head r) = v then set (rule_edges r) else {})"
    and "set ps1 = insert (at_predicate (dr_head r)) (fst ` set (rule_edges r)) \<union> set ps"
    using first by (auto simp: add_rule_def graph_extend_succs note_preds note_pred_set) force
  then show ?case using IH by auto
qed simp

lemma build_graph_facts:
  assumes "build_graph rules = (g, ps)"
  shows "set (succs g v) = (\<Union>r \<in> {r \<in> set rules. at_predicate (dr_head r) = v}. set (rule_edges r))"
    "set ps = (\<Union>r \<in> set rules. insert (at_predicate (dr_head r)) (fst ` set (rule_edges r)))"
  using build_graph_fold [of rules "[]" "[]" g ps v] assms by (auto simp: build_graph_def succs_def)

section \<open>Components\<close>

lemma node_map_fold: "fold (\<lambda>n m. m(n \<mapsto> i)) scc m v = (if v \<in> set scc then Some i else m v)"
  by (induction scc arbitrary: m) auto

lemma node_fold_other:
  "v \<notin> set (concat sccs) \<Longrightarrow>
    fold (\<lambda>(i, scc) m. fold (\<lambda>n m. m(n \<mapsto> i)) scc m) (enumerate k sccs) m v = m v"
  by (induction sccs arbitrary: k m) (auto simp: node_map_fold)

lemma node_fold_member:
  "distinct (concat sccs) \<Longrightarrow> i < length sccs \<Longrightarrow> v \<in> set (sccs ! i) \<Longrightarrow>
    fold (\<lambda>(i, scc) m. fold (\<lambda>n m. m(n \<mapsto> i)) scc m) (enumerate k sccs) m v = Some (k + i)"
proof (induction sccs arbitrary: k m i)
  case (Cons scc sccs)
  show ?case
  proof (cases i)
    case 0
    then have v: "v \<in> set scc" "v \<notin> set (concat sccs)" using Cons.prems by auto
    have "fold (\<lambda>(i, scc) m. fold (\<lambda>n m. m(n \<mapsto> i)) scc m) (enumerate (Suc k) sccs) (fold (\<lambda>n m. m(n \<mapsto> k)) scc m) v =
        fold (\<lambda>n m. m(n \<mapsto> k)) scc m v" using v(2) by (rule node_fold_other)
    also have "\<dots> = Some k" using v(1) by (simp add: node_map_fold del: fun_upd_apply)
    finally show ?thesis using 0 by (simp del: fun_upd_apply)
  next
    case (Suc j)
    then show ?thesis using Cons.IH [of j "Suc k"] Cons.prems by simp
  qed
qed simp

lemma node_to_scc_iff:
  assumes "distinct (concat sccs)"
  shows "node_to_scc sccs v = Some i \<longleftrightarrow> i < length sccs \<and> v \<in> set (sccs ! i)"
proof
  assume some: "node_to_scc sccs v = Some i"
  then have "v \<in> set (concat sccs)" using node_fold_other [of v sccs 0 Map.empty] by (force simp: node_to_scc_def)
  then obtain j where "j < length sccs" "v \<in> set (sccs ! j)" by (auto simp: in_set_conv_nth [of _ sccs])
  with node_fold_member [OF assms this, of 0 Map.empty] some show "i < length sccs \<and> v \<in> set (sccs ! i)"
    by (simp add: node_to_scc_def)
qed (use node_fold_member [OF assms, of i v 0 Map.empty] in \<open>simp add: node_to_scc_def\<close>)

lemma first_some_none: "first_some f xs = None \<longleftrightarrow> (\<forall>x \<in> set xs. f x = None)"
  by (induction xs) (auto split: option.splits)

lemma first_some_some: "first_some f xs = Some y \<Longrightarrow> \<exists>x \<in> set xs. f x = Some y"
  by (induction xs) (auto split: option.splits)

lemma edge_error_none: "edge_error scc e = None \<longleftrightarrow> e = EdgePlain"
  by (cases e) simp_all

lemma scc_error_none:
  assumes "scc_error g scc = None" "u \<in> set scc" "(w, e) \<in> set (succs g u)" "w \<in> set scc"
  shows "e = EdgePlain"
  using assms by (fastforce simp: scc_error_def first_some_none edge_error_none)

section \<open>Levels\<close>

lemma scan_edges_ok:
  "\<forall>(w, e) \<in> set es. m w \<noteq> None \<Longrightarrow>
    \<exists>acc'. scan_edges m ss i es acc = Some acc' \<and> fst acc \<le> fst acc' \<and>
      (\<forall>(w, e) \<in> set es. \<forall>j s. m w = Some j \<longrightarrow> j \<noteq> i \<longrightarrow> ss j = Some s \<longrightarrow> int s \<le> fst acc')"
proof (induction m ss i es acc rule: scan_edges.induct)
  case (2 m ss i w e es hi had)
  then obtain j where j: "m w = Some j" by auto
  have rest: "\<forall>(w, e) \<in> set es. m w \<noteq> None" using "2.prems" by simp
  show ?case
  proof (cases "j = i")
    case True
    then show ?thesis using "2.IH"(2) [OF j] rest j by auto
  next
    case False
    then show ?thesis using "2.IH"(1) [OF j False rest] j by (fastforce split: option.splits)
  qed
qed simp

lemma stratum_of_above: "int s \<le> fst acc \<Longrightarrow> s < stratum_of acc"
  by (auto simp: stratum_of_def)

lemma assign_strata_ok:
  "\<forall>scc \<in> set xs. \<forall>u \<in> set scc. \<forall>(w, e) \<in> set (succs g u). m w \<noteq> None \<Longrightarrow> dom ss = {..<n} \<Longrightarrow>
    \<exists>ss'. assign_strata g m (enumerate n xs) ss = Some ss' \<and> (\<forall>k < n. ss' k = ss k) \<and> dom ss' = {..<n + length xs} \<and>
      (\<forall>k < length xs. \<forall>u \<in> set (xs ! k). \<forall>(w, e) \<in> set (succs g u). \<forall>j. m w = Some j \<longrightarrow> j < n + k \<longrightarrow>
         the (ss' j) < the (ss' (n + k)))"
proof (induction xs arbitrary: n ss)
  case (Cons scc xs)
  have "\<forall>(w, e) \<in> set (concat (map (succs g) scc)). m w \<noteq> None" using Cons.prems(1) by auto
  then obtain acc where acc: "scan_edges m ss n (concat (map (succs g) scc)) (-1, False) = Some acc"
    and above: "\<forall>(w, e) \<in> set (concat (map (succs g) scc)). \<forall>j s. m w = Some j \<longrightarrow> j \<noteq> n \<longrightarrow> ss j = Some s \<longrightarrow> int s \<le> fst acc"
    using scan_edges_ok [of "concat (map (succs g) scc)" m ss n "(-1, False)"] by blast
  let ?ss = "ss(n \<mapsto> stratum_of acc)"
  have dom: "dom ?ss = {..<Suc n}" using Cons.prems(2) by auto
  have rest: "\<forall>scc \<in> set xs. \<forall>u \<in> set scc. \<forall>(w, e) \<in> set (succs g u). m w \<noteq> None" using Cons.prems(1) by simp
  from Cons.IH [OF rest dom] obtain ss' where ss': "assign_strata g m (enumerate (Suc n) xs) ?ss = Some ss'" "\<forall>k < Suc n. ss' k = ?ss k"
    "dom ss' = {..<Suc n + length xs}"
    and later: "\<forall>k < length xs. \<forall>u \<in> set (xs ! k). \<forall>(w, e) \<in> set (succs g u). \<forall>j. m w = Some j \<longrightarrow> j < Suc n + k \<longrightarrow>
         the (ss' j) < the (ss' (Suc n + k))"
    by blast
  have head: "the (ss' j) < the (ss' n)"
    if edge: "u \<in> set scc" "(w, e) \<in> set (succs g u)" "m w = Some j" and below: "j < n" for u w e j
  proof -
    obtain s where s: "ss j = Some s" using Cons.prems(2) below by blast
    have "(w, e) \<in> set (concat (map (succs g) scc))" using edge by auto
    then have "int s \<le> fst acc" using above edge(3) below s by fastforce
    then show ?thesis using ss'(2) below s stratum_of_above by auto
  qed
  have "the (ss' j) < the (ss' (n + k))"
    if "k < length (scc # xs)" "u \<in> set ((scc # xs) ! k)" "(w, e) \<in> set (succs g u)" "m w = Some j" "j < n + k" for k u w e j
    using that head later by (cases k) fastforce+
  then show ?case using ss' acc by auto
qed auto

section \<open>The strata\<close>

text \<open>Which stratum may hold the rules of a predicate that another rule reads: no later than the reader, and strictly earlier
  when the dependency is negated, folded or feeds a computed head.\<close>

definition well_stratified :: "datalog_rule list \<Rightarrow> nat list list \<Rightarrow> bool" where
  "well_stratified rules strata \<longleftrightarrow>
     distinct (concat strata) \<and> set (concat strata) = {..<length rules} \<and>
     (\<forall>k < length strata. \<forall>l < length strata. \<forall>i \<in> set (strata ! k). \<forall>j \<in> set (strata ! l).
        (at_predicate (dr_head (rules ! i)) = at_predicate (dr_head (rules ! j)) \<longrightarrow> k = l) \<and>
        (\<forall>(w, e) \<in> set (rule_edges (rules ! i)). w = at_predicate (dr_head (rules ! j)) \<longrightarrow>
           l \<le> k \<and> (e \<noteq> EdgePlain \<longrightarrow> l < k)))"

lemma well_stratifiedD:
  assumes "well_stratified rules strata" "k < length strata" "l < length strata" "i \<in> set (strata ! k)" "j \<in> set (strata ! l)"
    and "(at_predicate (dr_head (rules ! j)), e) \<in> set (rule_edges (rules ! i))"
  shows "l \<le> k" "e \<noteq> EdgePlain \<Longrightarrow> l < k"
  using assms(1) [unfolded well_stratified_def, THEN conjunct2, THEN conjunct2, THEN spec, THEN mp, OF assms(2),
      THEN spec, THEN mp, OF assms(3), THEN bspec, OF assms(4), THEN bspec, OF assms(5), THEN conjunct2, THEN bspec, OF assms(6)]
  by simp_all

lemma sorted_levels: "sorted (sort (remdups levels))" "distinct (sort (remdups levels))"
  "set (sort (remdups levels)) = set levels"
  by simp_all

lemma group_by_stratum_member:
  "i \<in> set (group_by_stratum levels ! k) \<Longrightarrow> k < length (group_by_stratum levels) \<Longrightarrow>
    i < length levels \<and> levels ! i = sort (remdups levels) ! k"
  by (simp add: group_by_stratum_def)

lemma group_by_stratum_order:
  assumes "k < length (group_by_stratum levels)" "l < length (group_by_stratum levels)"
    "i \<in> set (group_by_stratum levels ! k)" "j \<in> set (group_by_stratum levels ! l)"
  shows "(levels ! j \<le> levels ! i \<longrightarrow> l \<le> k) \<and> (levels ! j < levels ! i \<longrightarrow> l < k) \<and> (levels ! j = levels ! i \<longrightarrow> l = k)"
proof -
  let ?s = "sort (remdups levels)"
  have len: "k < length ?s" "l < length ?s" using assms(1,2) by (simp_all add: group_by_stratum_def)
  have lv: "levels ! i = ?s ! k" "levels ! j = ?s ! l" using group_by_stratum_member assms by blast+
  have strict: "?s ! a < ?s ! b" if "a < b" "b < length ?s" for a b
    using that sorted_levels(1,2) [of levels] strict_sorted_iff sorted_wrt_nth_less [of "(<)" ?s a b] by blast
  consider "k < l" | "k = l" | "l < k" by linarith
  then show ?thesis using strict len lv by cases fastforce+
qed

lemma group_by_stratum_cover:
  "distinct (concat (group_by_stratum levels))" "set (concat (group_by_stratum levels)) = {..<length levels}"
proof -
  let ?s = "sort (remdups levels)" and ?f = "\<lambda>s. filter (\<lambda>i. levels ! i = s) [0..<length levels]"
  have "distinct (concat (map ?f ss))" if "distinct ss" for ss
    using that by (induction ss) auto
  then show "distinct (concat (group_by_stratum levels))" by (simp add: group_by_stratum_def)
  have "i \<in> set (?f (levels ! i))" "levels ! i \<in> set ?s" if "i < length levels" for i using that by auto
  then show "set (concat (group_by_stratum levels)) = {..<length levels}" by (auto simp: group_by_stratum_def)
qed

lemma edge_levels:
  assumes "distinct (concat sccs)" "scc_closed g sccs" "first_some (scc_error g) sccs = None"
    and lower: "\<forall>k < length sccs. \<forall>u \<in> set (sccs ! k). \<forall>(w, e) \<in> set (succs g u). \<forall>j. node_to_scc sccs w = Some j \<longrightarrow> j < k \<longrightarrow>
         the (ss j) < the (ss k)"
    and edge: "(w, e) \<in> set (succs g h)" and a: "node_to_scc sccs h = Some a" and b: "node_to_scc sccs w = Some b"
  shows "b = a \<and> e = EdgePlain \<or> the (ss b) < the (ss a)"
proof -
  note m = node_to_scc_iff [OF assms(1)]
  have ha: "a < length sccs" "h \<in> set (sccs ! a)" and wb: "w \<in> set (sccs ! b)" using a b m by auto
  obtain c where c: "c \<le> a" "w \<in> set (sccs ! c)" using assms(2) ha edge unfolding scc_closed_def by force
  then have "node_to_scc sccs w = Some c" using ha by (simp add: m)
  then have "b \<le> a" using b c by simp
  show ?thesis
  proof (cases "b = a")
    case True
    have "scc_error g (sccs ! a) = None" using assms(3) ha(1) by (simp add: first_some_none)
    then have "e = EdgePlain" by (rule scc_error_none [OF _ ha(2) edge]) (use wb True in simp)
    then show ?thesis using True by simp
  next
    case False
    then show ?thesis using lower ha edge b \<open>b \<le> a\<close> by fastforce
  qed
qed

text \<open>A rejection names a component and a dependency within it, of the kind the error says, that some rule has.\<close>

fun error_cycle :: "stratify_error \<Rightarrow> string list" where
  "error_cycle (RecursionThroughAggregate cycle) = cycle"
| "error_cycle (RecursionThroughNegation cycle) = cycle"
| "error_cycle (RecursionThroughHeadExpression cycle) = cycle"

definition names_cycle :: "datalog_rule list \<Rightarrow> stratify_error \<Rightarrow> bool" where
  "names_cycle rules err \<longleftrightarrow> (\<exists>rule \<in> set rules. \<exists>(w, e) \<in> set (rule_edges rule).
     at_predicate (dr_head rule) \<in> set (error_cycle err) \<and> w \<in> set (error_cycle err) \<and>
     edge_error (error_cycle err) e = Some err)"

lemma scc_error_names:
  assumes "build_graph rules = (g, ps)" "first_some (scc_error g) sccs = Some err"
  shows "names_cycle rules err"
proof -
  obtain scc where "scc_error g scc = Some err" using first_some_some [OF assms(2)] by blast
  from first_some_some [OF this [unfolded scc_error_def]] obtain u w e where
    found: "u \<in> set scc" "(w, e) \<in> set (succs g u)" "w \<in> set scc" "edge_error scc e = Some err"
    by (auto dest!: first_some_some split: if_splits)
  then have "error_cycle err = scc" by (cases e) auto
  moreover obtain rule where "rule \<in> set rules" "at_predicate (dr_head rule) = u" "(w, e) \<in> set (rule_edges rule)"
    using found(2) build_graph_facts(1) [OF assms(1), of u] by auto
  ultimately show ?thesis using found unfolding names_cycle_def by blast
qed

lemma stratify_cases:
  "(\<exists>e. stratify rules = Some (Inl e) \<and> names_cycle rules e) \<or> (\<exists>strata. stratify rules = Some (Inr strata) \<and> well_stratified rules strata)"
proof -
  obtain g ps where build: "build_graph rules = (g, ps)" by fastforce
  note graph = build_graph_facts [OF build]
  obtain st where st: "tarjan_all g ps tarjan_init = Some st" and dist: "distinct (concat (tj_sccs st))"
    and closed: "scc_closed g (tj_sccs st)" and all: "set ps \<subseteq> set (concat (tj_sccs st))" using tarjan_sccs by blast
  let ?sccs = "tj_sccs st" and ?m = "node_to_scc (tj_sccs st)"
  show ?thesis
  proof (cases "first_some (scc_error g) ?sccs")
    case (Some e)
    then show ?thesis using build st scc_error_names [OF build] by (simp add: stratify_def)
  next
    case None
    have m: "?m v = Some i \<longleftrightarrow> i < length ?sccs \<and> v \<in> set (?sccs ! i)" for v i by (rule node_to_scc_iff [OF dist])
    have known: "\<exists>i. ?m v = Some i" if "v \<in> set ps" for v
    proof -
      have "v \<in> set (concat ?sccs)" using all that by blast
      then show ?thesis by (auto simp: m in_set_conv_nth [of _ ?sccs])
    qed
    have edges: "w \<in> set ps" if "(w, e) \<in> set (succs g u)" for u w e
      using that graph by (force simp: graph(2))
    then have total_map: "\<forall>scc \<in> set ?sccs. \<forall>u \<in> set scc. \<forall>(w, e) \<in> set (succs g u). ?m w \<noteq> None"
      using known by fastforce
    obtain ss where ss: "assign_strata g ?m (enumerate 0 ?sccs) Map.empty = Some ss" "dom ss = {..<length ?sccs}"
      and lower: "\<forall>k < length ?sccs. \<forall>u \<in> set (?sccs ! k). \<forall>(w, e) \<in> set (succs g u). \<forall>j. ?m w = Some j \<longrightarrow> j < k \<longrightarrow>
         the (ss j) < the (ss k)"
      using assign_strata_ok [OF total_map, of Map.empty 0] by auto
    let ?L = "rule_stratum ?m ss"
    have level: "?L r = the (ss i)" if "?m (at_predicate (dr_head r)) = Some i" for r i
    proof -
      have "i \<in> dom ss" using that m ss(2) by simp
      then show ?thesis using that by (auto simp: rule_stratum_def)
    qed
    have reads: "?L r' \<le> ?L r \<and> (e \<noteq> EdgePlain \<longrightarrow> ?L r' < ?L r)"
      if r: "r \<in> set rules" and edge: "(at_predicate (dr_head r'), e) \<in> set (rule_edges r)" for r r' e
    proof -
      let ?h = "at_predicate (dr_head r)" and ?w = "at_predicate (dr_head r')"
      have succ: "(?w, e) \<in> set (succs g ?h)" using graph(1) [of ?h] r edge by auto
      obtain a b where a: "?m ?h = Some a" and b: "?m ?w = Some b" using known edges [OF succ] r graph(2) by fastforce
      then show ?thesis using edge_levels [OF dist closed None lower succ a b] level [OF a] level [OF b] by auto
    qed
    have "well_stratified rules (group_by_stratum (map ?L rules))"
      unfolding well_stratified_def
    proof (intro conjI allI impI ballI)
      let ?S = "group_by_stratum (map ?L rules)"
      fix k l i j assume "k < length ?S" "l < length ?S" "i \<in> set (?S ! k)" "j \<in> set (?S ! l)"
      note order = group_by_stratum_order [OF this] and ij = group_by_stratum_member [OF this(3,1)] group_by_stratum_member [OF this(4,2)]
      have levels: "map ?L rules ! i = ?L (rules ! i)" "map ?L rules ! j = ?L (rules ! j)"
        and mem: "rules ! i \<in> set rules"
        using ij [THEN conjunct1] by simp_all
      show "at_predicate (dr_head (rules ! i)) = at_predicate (dr_head (rules ! j)) \<Longrightarrow> k = l"
        using order by (simp add: levels rule_stratum_def)
      fix x assume "x \<in> set (rule_edges (rules ! i))"
      then show "case x of (w, e) \<Rightarrow> w = at_predicate (dr_head (rules ! j)) \<longrightarrow> l \<le> k \<and> (e \<noteq> EdgePlain \<longrightarrow> l < k)"
        using order mem reads [of "rules ! i" "rules ! j" "snd x"] by (cases x) (auto simp: levels)
    qed (use group_by_stratum_cover [of "map ?L rules"] in simp_all)
    then show ?thesis using build st None ss(1) by (simp add: stratify_def Let_def)
  qed
qed

end
