(* ===== verification/Datalog_Evaluate.thy ===== *)
theory Datalog_Evaluate
  imports Datalog_Fixpoint Stratify_Levels
begin

text \<open>
  The whole evaluation (\<open>datalog.rs\<close>: \<open>evaluate_at\<close>, \<open>evaluate\<close>): the clock is stamped into the rules, the rules are
  stratified, and the strata run in ascending order over shared budgets. The instant \<open>chrono::Utc::now()\<close> returns is an
  argument.
\<close>

fun eval_strata ::
  "'x datalog_env_scheme \<Rightarrow> datalog_rule list \<Rightarrow> nat list list \<Rightarrow> stratum_result \<Rightarrow> stratum_result outcome" where
  "eval_strata env rules [] st = Some st"
| "eval_strata env rules (idxs # rest) st =
     (case evaluate_stratum env (map ((!) rules) idxs) (sr_facts st) (sr_budget_iter st) (sr_budget_facts st) of
        None \<Rightarrow> None
      | Some R \<Rightarrow>
          let st' = R\<lparr>sr_derived := sr_derived st @ sr_derived R\<rparr> in
          if sr_budget_iter st' = 0 \<or> sr_budget_facts st' = 0 then Some st'
          else eval_strata env rules rest st')"

definition start_state :: "fact_set \<Rightarrow> nat \<Rightarrow> nat \<Rightarrow> stratum_result" where
  "start_state F max_iterations max_facts =
     \<lparr>sr_facts = F, sr_derived = [], sr_budget_iter = max_iterations, sr_budget_facts = max_facts\<rparr>"

definition evaluate_at ::
  "'x datalog_env_scheme \<Rightarrow> datalog_rule list \<Rightarrow> fact_set \<Rightarrow> nat \<Rightarrow> nat \<Rightarrow> instant \<Rightarrow> (fact_set \<times> derived_fact list) outcome" where
  "evaluate_at env rules F max_iterations max_facts now =
     (let stamped = map (\<lambda>r. stamp_clock r now) rules in
      case stratify stamped of
        None \<Rightarrow> None
      | Some (Inl e) \<Rightarrow> Some (F, [])
      | Some (Inr strata) \<Rightarrow>
          map_option (\<lambda>st. (sr_facts st, sr_derived st)) (eval_strata env stamped strata (start_state F max_iterations max_facts)))"

definition evaluate ::
  "'x datalog_env_scheme \<Rightarrow> instant \<Rightarrow> datalog_rule list \<Rightarrow> fact_set \<Rightarrow> nat \<Rightarrow> nat \<Rightarrow> (fact_set \<times> derived_fact list) outcome" where
  "evaluate env utc_now rules F max_iterations max_facts = evaluate_at env rules F max_iterations max_facts utc_now"

section \<open>A rule looks only at the predicates it reads\<close>

definition reads :: "datalog_rule \<Rightarrow> string set" where
  "reads rule = fst ` set (rule_edges rule)"

definition same_rows :: "string set \<Rightarrow> fact_set \<Rightarrow> fact_set \<Rightarrow> bool" where
  "same_rows P F G \<longleftrightarrow> (\<forall>p \<in> P. fs_get F p = fs_get G p)"

lemma reads_eq:
  "reads rule = at_predicate ` (set (dr_body rule) \<union> set (dr_negated rule) \<union> (\<Union>agg \<in> set (dr_aggregates rule). set (inner_atoms agg)))"
proof -
  have "aggregate_atoms = inner_atoms" by (intro ext) (simp add: aggregate_atoms_def inner_atoms_def)
  then show ?thesis by (simp add: reads_def rule_edges_def image_Un image_UN image_image Un_assoc)
qed

lemma reads_parts:
  "a \<in> set (dr_body rule) \<Longrightarrow> at_predicate a \<in> reads rule"
  "a \<in> set (dr_negated rule) \<Longrightarrow> at_predicate a \<in> reads rule"
  "agg \<in> set (dr_aggregates rule) \<Longrightarrow> a \<in> set (inner_atoms agg) \<Longrightarrow> at_predicate a \<in> reads rule"
  unfolding reads_eq by blast+

lemma join_body_cong:
  assumes "same_rows P F G" "\<forall>a \<in> set body. at_predicate a \<in> P"
  shows "join_body env F body = join_body env G body"
proof -
  have "extend_by_atom env F a = extend_by_atom env G a" if "a \<in> set body" for a
    using assms that by (intro ext) (simp add: extend_by_atom_def same_rows_def)
  then show ?thesis unfolding join_body_def by (intro fold_cong) auto
qed

lemma check_negated_cong:
  "same_rows P F G \<Longrightarrow> \<forall>a \<in> set negs. at_predicate a \<in> P \<Longrightarrow> check_negated env F negs c = check_negated env G negs c"
  by (induction env F negs c rule: check_negated.induct) (auto simp: negated_atom_matches_def same_rows_def)

lemma collect_bindings_cong:
  assumes "same_rows P F G" "\<forall>a \<in> set (dr_body rule) \<union> set (dr_negated rule). at_predicate a \<in> P"
  shows "collect_bindings env rule F = collect_bindings env rule G"
proof -
  have "check_negated env F (dr_negated rule) = check_negated env G (dr_negated rule)"
    using assms by (intro ext check_negated_cong) auto
  then show ?thesis using join_body_cong [OF assms(1), of "dr_body rule" env] assms(2) by (simp add: collect_bindings_def)
qed

lemma collect_conjunction_cong:
  "same_rows P F G \<Longrightarrow> \<forall>a \<in> set as. at_predicate a \<in> P \<Longrightarrow>
    collect_conjunction_bindings F as b = collect_conjunction_bindings G as b"
proof (induction as arbitrary: b)
  case (Cons a as)
  then have "fs_get F (at_predicate a) = fs_get G (at_predicate a)"
    "collect_conjunction_bindings F as = collect_conjunction_bindings G as" by (auto simp: same_rows_def)
  then show ?case by (simp only: collect_conjunction_bindings.simps)
qed simp

lemma apply_aggregates_cong:
  assumes "same_rows P F G"
  shows "\<forall>agg \<in> set aggs. \<forall>a \<in> set (inner_atoms agg). at_predicate a \<in> P \<Longrightarrow>
    apply_aggregates env aggs cs F = apply_aggregates env aggs cs G"
proof (induction aggs arbitrary: cs)
  case (Cons agg aggs)
  have "fold_inner_matches env agg b F = fold_inner_matches env agg b G" for b
    using Cons.prems collect_conjunction_cong [OF assms, of "inner_atoms agg"] by (simp add: fold_inner_matches_enumerates)
  then have "settle_group env agg F ms = settle_group env agg G ms" for ms by (cases ms) (simp_all add: settle_group_def)
  then have "settle_groups env agg F gs = settle_groups env agg G gs" for gs by (induction gs) (simp_all split: option.splits)
  then show ?case using Cons by (simp add: apply_aggregate_def split: option.splits)
qed simp

lemma evaluate_rule_cong:
  assumes "same_rows (reads rule) F G"
  shows "evaluate_rule env rule F = evaluate_rule env rule G"
proof -
  have "collect_bindings env rule F = collect_bindings env rule G"
    "collect_bindings env (phase1_rule rule) F = collect_bindings env (phase1_rule rule) G"
    by (rule collect_bindings_cong [OF assms]; auto simp: phase1_rule_def intro: reads_parts)+
  moreover have "seed_bindings_from_inner agg F = seed_bindings_from_inner agg G" if "agg \<in> set (dr_aggregates rule)" for agg
    using collect_conjunction_cong [OF assms, of "inner_atoms agg"] reads_parts(3) [OF that] by (simp add: seed_bindings_from_inner_def)
  then have "seed_candidates env rule F = seed_candidates env rule G"
    using calculation(2) by (auto simp: seed_candidates_def split: list.splits)
  ultimately show ?thesis
    using apply_aggregates_cong [OF assms, of "dr_aggregates rule" env] reads_parts(3)
    by (simp add: evaluate_rule_def evaluate_rule_with_aggregates_def)
qed

section \<open>A stratum leaves the other predicates alone\<close>

lemma fs_insert_get: "q \<noteq> p \<Longrightarrow> fs_get (snd (fs_insert F p args)) q = fs_get F q"
  by (simp add: fs_get_def fs_insert_def split_beta Let_def entry_insert_get)

lemma merge_delta_get:
  assumes "q \<notin> fst ` set (fs_facts D)"
  shows "fs_get (merge_delta F D) q = fs_get F q"
proof -
  have rows: "fs_get (fold (\<lambda>args H. snd (fs_insert H p args)) rows G) q = fs_get G q" if "q \<noteq> p" for p rows G
    using that by (induction rows arbitrary: G) (simp_all add: fs_insert_get)
  have "q \<notin> fst ` set m \<Longrightarrow> fs_get (fold (\<lambda>(p, rows) G. fold (\<lambda>args H. snd (fs_insert H p args)) rows G) m F) q = fs_get F q" for m
    by (induction m arbitrary: F) (auto simp: rows)
  then show ?thesis using assms by (simp add: merge_delta_def)
qed

lemma absorb_results_keys:
  "fst ` set (fs_facts (fst (absorb_results env F rule results st))) \<subseteq>
     insert (at_predicate (dr_head rule)) (fst ` set (fs_facts (fst st)))"
proof (induction env F rule results st rule: absorb_results.induct)
  case (2 env F rule args steps rest D ds)
  have "fst ` set (fs_facts (snd (fs_insert D (at_predicate (dr_head rule)) args))) =
      insert (at_predicate (dr_head rule)) (fst ` set (fs_facts D))"
    by (simp add: fs_insert_def split_beta Let_def entry_insert_keys)
  then show ?case using 2 by (auto simp: Let_def)
qed auto

lemma run_rules_keys:
  "run_rules env F rules st = Some st' \<Longrightarrow>
    fst ` set (fs_facts (fst st')) \<subseteq> heads rules \<union> fst ` set (fs_facts (fst st))"
proof (induction rules arbitrary: st)
  case (Cons rule rules)
  then obtain results where "run_rules env F rules (absorb_results env F rule results st) = Some st'" by (auto split: option.splits)
  from Cons.IH [OF this] absorb_results_keys [of env F rule results st] show ?case by (auto simp: heads_def)
qed (simp add: heads_def)

lemma stratum_loop_get:
  "stratum_loop env rules bi bf F ds = Some R \<Longrightarrow> q \<notin> heads rules \<Longrightarrow> fs_get (sr_facts R) q = fs_get F q"
proof (induction env rules bi bf F ds rule: stratum_loop.induct)
  case (2 env rules bi bf F ds)
  then obtain D ds' where run: "run_rules env F rules (fs_new, ds) = Some (D, ds')" by (auto split: option.splits)
  have "q \<notin> fst ` set (fs_facts D)" using run_rules_keys [OF run] "2.prems"(2) by (auto simp: fs_new_def)
  then show ?case using "2.IH" [OF run] "2.prems" run by (auto simp: merge_delta_get split: if_splits)
qed auto

section \<open>The strata together\<close>

definition rule_closed :: "'x datalog_env_scheme \<Rightarrow> fact_set \<Rightarrow> datalog_rule \<Rightarrow> bool" where
  "rule_closed env F rule \<longleftrightarrow> (\<forall>results. evaluate_rule env rule F = Some results \<longrightarrow> head_facts rule results \<subseteq> facts_of F)"

lemma stratum_closed_rules: "stratum_closed env rules F \<longleftrightarrow> (\<forall>r \<in> set rules. rule_closed env F r)"
proof -
  have "rule_closed env F r \<longleftrightarrow> (case evaluate_rule env r F of None \<Rightarrow> {} | Some results \<Rightarrow> head_facts r results) \<subseteq> facts_of F" for r
    by (simp add: rule_closed_def split: option.splits)
  then show ?thesis by (simp add: stratum_closed_def one_step_def UN_subset_iff)
qed

lemma rule_closed_keep:
  assumes "rule_closed env F r" "same_rows (reads r) F G" "facts_of F \<subseteq> facts_of G"
  shows "rule_closed env G r"
  unfolding rule_closed_def
proof (intro allI impI)
  fix results assume "evaluate_rule env r G = Some results"
  then have "evaluate_rule env r F = Some results" using evaluate_rule_cong [OF assms(2), of env] by simp
  then show "head_facts r results \<subseteq> facts_of G" using assms(1,3) by (auto simp: rule_closed_def)
qed

text \<open>Rules of earlier strata read nothing that a later stratum derives.\<close>

lemma earlier_reads:
  assumes "well_stratified rules (done_strata @ idxs # rest)" "i \<in> set (concat done_strata)"
  shows "reads (rules ! i) \<inter> heads (map ((!) rules) idxs) = {}"
proof (rule ccontr)
  assume "reads (rules ! i) \<inter> heads (map ((!) rules) idxs) \<noteq> {}"
  then obtain w where w: "w \<in> reads (rules ! i)" "w \<in> heads (map ((!) rules) idxs)" by blast
  from w(1) obtain e where "(w, e) \<in> set (rule_edges (rules ! i))" by (auto simp: reads_def)
  moreover from w(2) obtain j where "j \<in> set idxs" "w = at_predicate (dr_head (rules ! j))" by (auto simp: heads_def)
  ultimately have edge: "(w, e) \<in> set (rule_edges (rules ! i))" "j \<in> set idxs" "w = at_predicate (dr_head (rules ! j))" by auto
  obtain k where k: "k < length done_strata" "i \<in> set (done_strata ! k)"
    using assms(2) by (auto simp: in_set_conv_nth [of _ done_strata])
  let ?S = "done_strata @ idxs # rest"
  have "i \<in> set (?S ! k)" "j \<in> set (?S ! length done_strata)" using k edge(2) by (simp_all add: nth_append)
  from well_stratifiedD(1) [OF assms(1) _ _ this] have "length done_strata \<le> k" using k(1) edge by auto
  then show False using k(1) by simp
qed

lemma eval_strata_closed:
  assumes "eval_strata env rules strata st = Some st'" "fs_wf (sr_facts st)"
    and "well_stratified rules (done_strata @ strata)" "\<forall>i \<in> set (concat done_strata). rule_closed env (sr_facts st) (rules ! i)"
    and "0 < sr_budget_iter st'" "0 < sr_budget_facts st'"
  shows "\<forall>i \<in> set (concat (done_strata @ strata)). rule_closed env (sr_facts st') (rules ! i)"
  using assms
proof (induction strata arbitrary: st done_strata)
  case (Cons idxs strata)
  let ?rs = "map ((!) rules) idxs"
  obtain R where R: "evaluate_stratum env ?rs (sr_facts st) (sr_budget_iter st) (sr_budget_facts st) = Some R"
    using Cons.prems(1) by (auto split: option.splits)
  let ?mid = "R\<lparr>sr_derived := sr_derived st @ sr_derived R\<rparr>"
  have left: "0 < sr_budget_iter R" "0 < sr_budget_facts R" and rest: "eval_strata env rules strata ?mid = Some st'"
    using Cons.prems(1,5,6) R by (auto simp: Let_def split: if_splits)
  note loop = R [unfolded evaluate_stratum_def]
  note general = stratum_loop_general [OF loop Cons.prems(2)]
  have "rule_closed env (sr_facts R) (rules ! i)" if "i \<in> set (concat (done_strata @ [idxs]))" for i
  proof (cases "i \<in> set idxs")
    case True
    then show ?thesis using general left by (auto simp: stratum_closed_rules)
  next
    case False
    then have i: "i \<in> set (concat done_strata)" using that by auto
    then have "same_rows (reads (rules ! i)) (sr_facts st) (sr_facts R)"
      using earlier_reads [OF Cons.prems(3) i] stratum_loop_get [OF loop] by (auto simp: same_rows_def disjoint_iff)
    then show ?thesis using Cons.prems(4) i general by (blast intro: rule_closed_keep)
  qed
  then have "\<forall>i \<in> set (concat (done_strata @ [idxs])). rule_closed env (sr_facts ?mid) (rules ! i)" by auto
  from Cons.IH [OF rest _ _ this] show ?case using general Cons.prems(3,5,6) by simp
qed simp

section \<open>The stratified model\<close>

text \<open>The iterated least model: each stratum reads its negated atoms off the model of the strata below it.\<close>

definition stratified_model ::
  "'x datalog_env_scheme \<Rightarrow> datalog_rule list \<Rightarrow> nat list list \<Rightarrow> (string \<times> dl_term list) set \<Rightarrow> (string \<times> dl_term list) set" where
  "stratified_model env rules strata I = fold (\<lambda>idxs. least_model env (map ((!) rules) idxs)) strata I"

lemma stratified_model_simps [simp]:
  "stratified_model env rules [] I = I"
  "stratified_model env rules (idxs # strata) I =
     stratified_model env rules strata (least_model env (map ((!) rules) idxs) I)"
  by (simp_all add: stratified_model_def)

lemma least_model_above: "I \<subseteq> least_model env rules I"
  by (subst least_model_unfold) simp

lemma stratified_model_above: "I \<subseteq> stratified_model env rules strata I"
  by (induction strata arbitrary: I) (auto dest: subsetD [OF least_model_above])

lemma within_model_start: "fs_wf F \<Longrightarrow> within_model env rules (facts_of F) F"
  by (simp add: within_model_def least_model_above)

definition folds_nothing :: "datalog_rule \<Rightarrow> bool" where
  "folds_nothing r \<longleftrightarrow> dr_aggregates r = []"

lemma stratum_plain:
  assumes "well_stratified rules strata" "list_all folds_nothing rules" "idxs \<in> set strata"
  shows "plain_stratum (map ((!) rules) idxs)"
proof -
  obtain k where k: "k < length strata" "strata ! k = idxs" using assms(3) by (auto simp: in_set_conv_nth)
  have "at_predicate a \<notin> heads (map ((!) rules) idxs)" if "i \<in> set idxs" "a \<in> set (dr_negated (rules ! i))" for i a
  proof
    assume "at_predicate a \<in> heads (map ((!) rules) idxs)"
    then obtain j where j: "j \<in> set idxs" "at_predicate a = at_predicate (dr_head (rules ! j))" by (auto simp: heads_def)
    have "(at_predicate a, EdgeNegated) \<in> set (rule_edges (rules ! i))" using that(2) by (auto simp: rule_edges_def)
    then have "k < k" using well_stratifiedD(2) [OF assms(1) k(1) k(1), of i j EdgeNegated] that(1) j k(2) by simp
    then show False by simp
  qed
  moreover have "rules ! i \<in> set rules" if "i \<in> set idxs" for i
  proof -
    have "set (concat strata) = {..<length rules}" using assms(1) unfolding well_stratified_def by blast
    moreover have "i \<in> set (concat strata)" using that assms(3) by auto
    ultimately show ?thesis by simp
  qed
  ultimately show ?thesis
    using assms(2) unfolding plain_stratum_def list_all_iff folds_nothing_def by simp
qed

lemma eval_strata_sound:
  assumes "eval_strata env rules strata st = Some st'" "fs_wf (sr_facts st)"
    and "\<forall>idxs \<in> set strata. plain_stratum (map ((!) rules) idxs)"
  shows "facts_of (sr_facts st) \<subseteq> facts_of (sr_facts st') \<and>
    facts_of (sr_facts st') \<subseteq> stratified_model env rules strata (facts_of (sr_facts st))"
  using assms
proof (induction strata arbitrary: st)
  case (Cons idxs strata)
  let ?rs = "map ((!) rules) idxs"
  obtain R where R: "evaluate_stratum env ?rs (sr_facts st) (sr_budget_iter st) (sr_budget_facts st) = Some R"
    using Cons.prems(1) by (auto split: option.splits)
  let ?mid = "R\<lparr>sr_derived := sr_derived st @ sr_derived R\<rparr>"
  note loop = R [unfolded evaluate_stratum_def]
  have plain: "plain_stratum ?rs" using Cons.prems(3) by simp
  have within: "within_model env ?rs (facts_of (sr_facts st)) (sr_facts R)"
    using stratum_loop_within [OF loop plain within_model_start [OF Cons.prems(2)]] .
  show ?case
  proof (cases "sr_budget_iter R = 0 \<or> sr_budget_facts R = 0")
    case True
    then have "st' = ?mid" using Cons.prems(1) R by simp
    then show ?thesis
      using within stratified_model_above [of "least_model env ?rs (facts_of (sr_facts st))" env rules strata]
      by (auto simp: within_model_def)
  next
    case False
    then have "eval_strata env rules strata ?mid = Some st'" using Cons.prems(1) R by simp
    moreover have "facts_of (sr_facts R) = least_model env ?rs (facts_of (sr_facts st))"
      using within_model_closed [OF plain within] stratum_loop_general [OF loop Cons.prems(2)] False by simp
    ultimately show ?thesis using Cons.IH [of ?mid] within Cons.prems(3) by (auto simp: within_model_def)
  qed
qed simp

lemma finite_stratified_model:
  "finite I \<Longrightarrow> \<forall>idxs \<in> set strata. list_all computes_nothing (map ((!) rules) idxs) \<Longrightarrow>
    finite (stratified_model env rules strata I)"
  by (induction strata arbitrary: I) (simp_all add: finite_least_model)

lemma eval_strata_completes:
  assumes "fs_wf (sr_facts st)" "\<forall>idxs \<in> set strata. plain_stratum (map ((!) rules) idxs)"
    and "finite (stratified_model env rules strata (facts_of (sr_facts st)))"
    and "card (stratified_model env rules strata (facts_of (sr_facts st))) + length strata < sr_budget_iter st + card (facts_of (sr_facts st))"
    and "2 * card (stratified_model env rules strata (facts_of (sr_facts st))) < sr_budget_facts st + card (facts_of (sr_facts st))"
  shows "\<exists>st'. eval_strata env rules strata st = Some st' \<and>
    facts_of (sr_facts st') = stratified_model env rules strata (facts_of (sr_facts st))"
  using assms
proof (induction strata arbitrary: st)
  case (Cons idxs strata)
  let ?rs = "map ((!) rules) idxs" and ?F = "facts_of (sr_facts st)"
  let ?L = "least_model env ?rs ?F" and ?M = "stratified_model env rules (idxs # strata) ?F"
  have sub: "?L \<subseteq> ?M" using stratified_model_above by simp
  then have fin: "finite ?L" using Cons.prems(3) by (rule finite_subset)
  have cards: "card ?L \<le> card ?M" "card ?F \<le> card ?L"
    using card_mono [OF Cons.prems(3) sub] card_mono [OF fin least_model_above] by auto
  then obtain R where R: "stratum_loop env ?rs (sr_budget_iter st) (sr_budget_facts st) (sr_facts st) [] = Some R"
    "facts_of (sr_facts R) = ?L" "fs_wf (sr_facts R)"
    "sr_budget_iter st + card ?F \<le> sr_budget_iter R + card ?L + 1" "sr_budget_facts st + card ?F \<le> sr_budget_facts R + card ?L"
    using stratum_loop_completes [OF _ fin within_model_start [OF Cons.prems(1)], of "sr_budget_iter st" "sr_budget_facts st" "[]"] Cons.prems
    by auto
  let ?mid = "R\<lparr>sr_derived := sr_derived st @ sr_derived R\<rparr>"
  have left: "card ?M + length strata < sr_budget_iter R + card ?L" "2 * card ?M < sr_budget_facts R + card ?L"
    using R(4,5) Cons.prems(4,5) by simp_all
  then have "sr_budget_iter R \<noteq> 0 \<and> sr_budget_facts R \<noteq> 0" using cards by linarith
  moreover have "\<exists>st'. eval_strata env rules strata ?mid = Some st' \<and> facts_of (sr_facts st') = stratified_model env rules strata ?L"
    using Cons.IH [of ?mid] Cons.prems(2,3) R(2,3) left by simp
  ultimately show ?case using R(1) by (simp add: evaluate_stratum_def)
qed simp

lemma stratify_well:
  "stratify rules = Some (Inr strata) \<Longrightarrow> well_stratified rules strata"
  using stratify_cases [of rules] by auto

lemma stamped_shape:
  "list_all folds_nothing rules \<Longrightarrow> list_all folds_nothing (map (\<lambda>r. stamp_clock r now) rules)"
  "list_all computes_nothing rules \<Longrightarrow> list_all computes_nothing (map (\<lambda>r. stamp_clock r now) rules)"
proof -
  have "dr_head_exprs (stamp_clock r now) = [] \<longleftrightarrow> dr_head_exprs r = []"
    "dr_bindings (stamp_clock r now) = [] \<longleftrightarrow> dr_bindings r = []" for r
    by (simp_all add: stamp_clock_def)
  then show "list_all folds_nothing rules \<Longrightarrow> list_all folds_nothing (map (\<lambda>r. stamp_clock r now) rules)"
    "list_all computes_nothing rules \<Longrightarrow> list_all computes_nothing (map (\<lambda>r. stamp_clock r now) rules)"
    by (simp_all add: list_all_iff folds_nothing_def computes_nothing_def stamp_clock_parts)
qed

lemma stratum_members: "well_stratified rules strata \<Longrightarrow> idxs \<in> set strata \<Longrightarrow> i \<in> set idxs \<Longrightarrow> rules ! i \<in> set rules"
proof -
  assume "well_stratified rules strata" "idxs \<in> set strata" "i \<in> set idxs"
  then have "set (concat strata) = {..<length rules}" "i \<in> set (concat strata)" unfolding well_stratified_def by auto
  then show ?thesis by simp
qed

section \<open>Properties\<close>

text \<open>C24. The analyzer never panics, and the strata it accepts are a stratification: every rule is in exactly one stratum, all
  rules of a predicate are in the same one, no rule reads a predicate of a later stratum, and what it negates, folds or
  computes a head from is derived in strictly earlier ones. A rejection names a component together with a rule that has
  such a dependency inside it.\<close>

theorem stratify_is_sound:
  "case stratify rules of
     None \<Rightarrow> False
   | Some (Inl err) \<Rightarrow> names_cycle rules err
   | Some (Inr strata) \<Rightarrow> well_stratified rules strata"
  using stratify_cases [of rules] by auto

text \<open>C23. The evaluation of rules without aggregates derives nothing but what the rules mean, whatever its budgets: a rule set
  that has no stratification leaves the facts unchanged and derives nothing, and otherwise the result contains the given
  facts and lies within the stratified model of the stamped rules.\<close>

theorem evaluate_derives_only_the_model:
  assumes "list_all folds_nothing rules" "fs_wf F" "evaluate_at env rules F max_iterations max_facts now = Some (F', ds)"
  shows "case stratify (map (\<lambda>r. stamp_clock r now) rules) of
      None \<Rightarrow> False
    | Some (Inl e) \<Rightarrow> F' = F \<and> ds = []
    | Some (Inr strata) \<Rightarrow> facts_of F \<subseteq> facts_of F' \<and>
        facts_of F' \<subseteq> stratified_model env (map (\<lambda>r. stamp_clock r now) rules) strata (facts_of F)"
proof -
  let ?rs = "map (\<lambda>r. stamp_clock r now) rules"
  show ?thesis
  proof (cases "\<exists>strata. stratify ?rs = Some (Inr strata)")
    case True
    then obtain strata where strata: "stratify ?rs = Some (Inr strata)" by blast
    note well = stratify_well [OF this]
    obtain st where st: "eval_strata env ?rs strata (start_state F max_iterations max_facts) = Some st" "sr_facts st = F'"
      using assms(3) strata by (auto simp: evaluate_at_def Let_def)
    have "\<forall>idxs \<in> set strata. plain_stratum (map ((!) ?rs) idxs)"
      using stratum_plain [OF well stamped_shape(1) [OF assms(1)]] by blast
    from eval_strata_sound [OF st(1) _ this] show ?thesis using assms(2) st(2) strata by (simp add: start_state_def)
  next
    case False
    then obtain e where "stratify ?rs = Some (Inl e)" using stratify_cases by blast
    then show ?thesis using assms(3) by (simp add: evaluate_at_def Let_def)
  qed
qed

text \<open>C22. With enough budget the evaluation of stratifiable rules that fold and compute nothing returns exactly the stratified model,
  which is finite: the iterations have to exceed the facts to be added by one per stratum, and the fact budget has to
  cover the model and once more the added facts.\<close>

theorem evaluate_reaches_the_model:
  assumes "list_all folds_nothing rules" "list_all computes_nothing rules" "fs_wf F"
    and "stratify (map (\<lambda>r. stamp_clock r now) rules) = Some (Inr strata)"
    and "M = stratified_model env (map (\<lambda>r. stamp_clock r now) rules) strata (facts_of F)"
    and "card M + length strata < max_iterations + card (facts_of F)" "2 * card M < max_facts + card (facts_of F)"
  shows "finite M \<and> (\<exists>F' ds. evaluate_at env rules F max_iterations max_facts now = Some (F', ds) \<and> facts_of F' = M)"
proof -
  let ?rs = "map (\<lambda>r. stamp_clock r now) rules"
  note well = stratify_well [OF assms(4)]
  have "\<forall>idxs \<in> set strata. list_all computes_nothing (map ((!) ?rs) idxs)"
    using stamped_shape(2) [OF assms(2), of now] stratum_members [OF well]
    unfolding list_all_iff set_map [of "(!) ?rs"] by blast
  then have fin: "finite M" using finite_stratified_model finite_facts_of [OF assms(3)] assms(5) by blast
  have "\<forall>idxs \<in> set strata. plain_stratum (map ((!) ?rs) idxs)"
    using stratum_plain [OF well stamped_shape(1) [OF assms(1)]] by blast
  with eval_strata_completes [of "start_state F max_iterations max_facts" strata ?rs env] obtain st where
    "eval_strata env ?rs strata (start_state F max_iterations max_facts) = Some st" "facts_of (sr_facts st) = M"
    using assms fin by (auto simp: start_state_def)
  then show ?thesis using fin assms(4) by (simp add: evaluate_at_def Let_def)
qed

text \<open>C25. When the budgets last, the result is closed under every rule, aggregates and negation included: no rule derives from the
  final facts a fact that is not among them, so later strata never invalidate what an earlier one concluded.\<close>

theorem evaluation_is_closed:
  assumes "stratify rules = Some (Inr strata)" "fs_wf F"
    and "eval_strata env rules strata (start_state F max_iterations max_facts) = Some st"
    and "0 < sr_budget_iter st" "0 < sr_budget_facts st"
  shows "\<forall>r \<in> set rules. rule_closed env (sr_facts st) r"
proof -
  note well = stratify_well [OF assms(1)]
  have "\<forall>i \<in> set (concat strata). rule_closed env (sr_facts st) (rules ! i)"
    using eval_strata_closed [OF assms(3), of "[]"] assms(2,4,5) well by (simp add: start_state_def)
  moreover have "set (concat strata) = {..<length rules}" using well unfolding well_stratified_def by blast
  ultimately show ?thesis by (metis in_set_conv_nth lessThan_iff)
qed

section \<open>Examples\<close>

lemma copy_stratify: "stratify [copy_rule] = Some (Inr [[0]])"
  by code_simp

lemma copy_stamped: "map (\<lambda>r. stamp_clock r now) [copy_rule] = [copy_rule]"
  by (simp add: stamp_clock_def rule_reads_the_clock_def copy_rule_def)

lemma copy_shape: "list_all folds_nothing [copy_rule]" "list_all computes_nothing [copy_rule]"
  by (simp_all add: folds_nothing_def computes_nothing_def copy_rule_def)

lemma copy_closed_model:
  "stratified_model plain_env [copy_rule] [[0]] (facts_of copy_facts) =
     facts_of \<lparr>fs_facts = [(''p'', [[ConstStr ''a'']]), (''q'', [[ConstStr ''a'']])]\<rparr>"
  "fs_wf \<lparr>fs_facts = [(''p'', [[ConstStr ''a'']]), (''q'', [[ConstStr ''a'']])]\<rparr>"
proof -
  note run = copy_run [unfolded evaluate_stratum_def]
  have "within_model plain_env [copy_rule] (facts_of copy_facts)
      \<lparr>fs_facts = [(''p'', [[ConstStr ''a'']]), (''q'', [[ConstStr ''a'']])]\<rparr>"
    using stratum_loop_within [OF run copy_stratum(1) within_model_start [OF copy_stratum(3)]] by simp
  from within_model_closed [OF copy_stratum(1) this] show
    "stratified_model plain_env [copy_rule] [[0]] (facts_of copy_facts) =
       facts_of \<lparr>fs_facts = [(''p'', [[ConstStr ''a'']]), (''q'', [[ConstStr ''a'']])]\<rparr>"
    using stratum_loop_general [OF run copy_stratum(3)] by simp
qed (simp add: fs_wf_def)

lemma copy_evaluate:
  "evaluate_at plain_env [copy_rule] copy_facts 3 10 now =
     Some (\<lparr>fs_facts = [(''p'', [[ConstStr ''a'']]), (''q'', [[ConstStr ''a'']])]\<rparr>,
       [derived_of plain_env copy_rule [ConstStr ''a''] [make_provenance_step plain_env ''p'' [ConstStr ''a'']]])"
  using copy_run by (simp add: evaluate_at_def copy_stamped [simplified] copy_stratify start_state_def)

theorem evaluate_derives_only_the_model_witness:
  "facts_of \<lparr>fs_facts = [(''p'', [[ConstStr ''a'']]), (''q'', [[ConstStr ''a'']])]\<rparr> \<subseteq>
     stratified_model plain_env [copy_rule] [[0]] (facts_of copy_facts)"
  using evaluate_derives_only_the_model [OF copy_shape(1) copy_stratum(3) copy_evaluate [of 0]]
  by (simp only: copy_stamped copy_stratify) simp

theorem evaluate_reaches_the_model_witness:
  "\<exists>F' ds. evaluate_at plain_env [copy_rule] copy_facts 3 4 0 = Some (F', ds) \<and>
     facts_of F' = facts_of \<lparr>fs_facts = [(''p'', [[ConstStr ''a'']]), (''q'', [[ConstStr ''a'']])]\<rparr>"
proof -
  have "card (facts_of copy_facts) = 1" using copy_stratum(3) by (simp flip: fs_len_facts) (simp add: fs_len_def copy_facts_def)
  moreover have "card (facts_of \<lparr>fs_facts = [(''p'', [[ConstStr ''a'']]), (''q'', [[ConstStr ''a'']])]\<rparr>) = 2"
    using copy_closed_model(2) by (simp flip: fs_len_facts) (simp add: fs_len_def)
  ultimately show ?thesis
    using evaluate_reaches_the_model [OF copy_shape copy_stratum(3), of 0 "[[0]]"
        "facts_of \<lparr>fs_facts = [(''p'', [[ConstStr ''a'']]), (''q'', [[ConstStr ''a'']])]\<rparr>" plain_env 3 4]
    by (simp only: copy_stamped copy_stratify copy_closed_model) simp
qed

theorem evaluation_is_closed_witness:
  "rule_closed plain_env \<lparr>fs_facts = [(''p'', [[ConstStr ''a'']]), (''q'', [[ConstStr ''a'']])]\<rparr> copy_rule"
  using evaluation_is_closed [OF copy_stratify copy_stratum(3), of plain_env 3 10] copy_run
  by (simp add: start_state_def)

section \<open>Two gaps\<close>

definition unary :: "string \<Rightarrow> atom" where
  "unary p = \<lparr>at_predicate = p, at_args = [Var ''X'']\<rparr>"

definition exclusion_rules :: "datalog_rule list" where
  "exclusion_rules =
     [\<lparr>dr_head = unary ''p'', dr_body = [unary ''a''], dr_filters = [], dr_aggregates = [],
       dr_negated = [unary ''b''], dr_head_exprs = [], dr_bindings = []\<rparr>,
      \<lparr>dr_head = unary ''q'', dr_body = [unary ''p''], dr_filters = [], dr_aggregates = [],
       dr_negated = [], dr_head_exprs = [], dr_bindings = []\<rparr>]"

definition one_a :: fact_set where
  "one_a = \<lparr>fs_facts = [(''a'', [[ConstStr ''u'']])]\<rparr>"

lemma exclusion_strata: "stratify exclusion_rules = Some (Inr [[0], [1]])"
  by code_simp

lemma exclusion_stamped: "map (\<lambda>r. stamp_clock r now) exclusion_rules = exclusion_rules"
  by (simp add: stamp_clock_def rule_reads_the_clock_def exclusion_rules_def)

lemmas evaluation_defs = evaluate_stratum_def evaluate_rule_def collect_bindings_def
      join_body_def extend_by_atom_def extend_by_row_def fs_get_def fs_contains_def fs_insert_def fs_new_def fs_len_def
      fs_is_empty_def merge_delta_def List.map_filter_simps bind_candidate_def check_filters_def instantiate_head_def
      instantiate_def is_anon_def negated_atom_matches_def

text \<open>Provenance is one step deep: a fact derived from a fact that rests on an absence is itself cacheable, although the next
  base fact can falsify it.\<close>

lemma absence_is_lost_downstream:
  "map_option (\<lambda>(F, ds). map (\<lambda>d. (df_pred d, rests_on_absence d, is_cacheable (\<lambda>_. True) d)) ds)
    (evaluate_at plain_env exclusion_rules one_a 10 10 now) = Some [(''p'', True, False), (''q'', False, True)]"
  by (simp add: evaluate_at_def exclusion_stamped exclusion_strata)
    (simp add: evaluation_defs Let_def exclusion_rules_def one_a_def unary_def start_state_def numeral_eq_Suc
     is_cacheable_def rests_on_absence_def derived_of_def with_clock_step_def rule_reads_the_clock_def df_reads_the_clock_def
     has_uuid_endpoints_def split_beta PROVENANCE_KIND_ABSENCE_def PROVENANCE_KIND_CLOCK_def)


text \<open>A head computed through a binding escapes the check that rejects a computed head that feeds its own body.\<close>

definition counter_by_binding :: datalog_rule where
  "counter_by_binding = \<lparr>dr_head = \<lparr>at_predicate = ''n'', at_args = [Var ''M'']\<rparr>,
     dr_body = [\<lparr>at_predicate = ''n'', at_args = [Var ''N'']\<rparr>], dr_filters = [], dr_aggregates = [],
     dr_negated = [], dr_head_exprs = [],
     dr_bindings = [\<lparr>rb_var = ''M'', rb_expr = BinOp Add (FVar ''N'') (LitNum (Fin 1))\<rparr>]\<rparr>"

definition counter_by_head :: datalog_rule where
  "counter_by_head = counter_by_binding\<lparr>dr_bindings := [],
     dr_head_exprs := [\<lparr>he_index = 0, he_expr = BinOp Add (FVar ''N'') (LitNum (Fin 1))\<rparr>]\<rparr>"

lemma computed_binding_recursion_is_accepted:
  "stratify [counter_by_binding] = Some (Inr [[0]])"
  "stratify [counter_by_head] = Some (Inl (RecursionThroughHeadExpression [''n'']))"
  by code_simp+

end
