(* ===== verification/Query_Store.thy ===== *)
theory Query_Store
  imports Datalog_Evaluate "HOL-Library.Product_Lexorder"
begin

text \<open>
  What a rule query asks of storage: the operations of the trait \<open>Storage\<close> (\<open>ferrosa-memory-core/src/storage.rs\<close>) that
  \<open>query_predicate\<close> and the loaders of \<open>datalog.rs\<close> call, as a record of operations, the laws the query path relies on as the
  locale \<open>query_store\<close>, and the in-memory backend \<open>MockStorage\<close> of the same file as the instance. An operation may fail;
  it returns the state after the call either way.
\<close>

section \<open>Rows\<close>

datatype rule_state = RuleActive | RuleDeprecated | RuleSuperseded

record rule_entry =
  re_tenant_id :: uuid
  re_rule_id :: string
  re_version :: i32
  re_name :: string
  re_family :: string
  re_state :: rule_state
  re_rule_body :: string
  re_rule_weight :: f64
  re_incremental :: bool
  re_created_at :: instant
  re_updated_at :: instant

datatype artifact_kind = ArtRule | ArtClaim | ArtAlias | ArtSkill

fun artifact_kind_text :: "artifact_kind \<Rightarrow> string" where
  "artifact_kind_text ArtRule = ''rule''"
| "artifact_kind_text ArtClaim = ''claim''"
| "artifact_kind_text ArtAlias = ''alias''"
| "artifact_kind_text ArtSkill = ''skill''"

datatype approval_decision = Proposed | Approved | Rejected

record approval_entry =
  ap_tenant_id :: uuid
  ap_approval_id :: uuid
  ap_artifact_kind :: artifact_kind
  ap_artifact_ref :: string
  ap_decision :: approval_decision
  ap_review_note :: "string option"
  ap_reviewer :: string
  ap_scope :: string
  ap_workspace_scope :: "string option"
  ap_session_scope :: "uuid option"
  ap_mirror_entity_id :: uuid
  ap_created_at :: instant

datatype decay_zone = ZoneIdentity | ZoneKnowledge | ZoneOperational

record warmth_entry =
  we_tenant_id :: uuid
  we_entity_id :: uuid
  we_session_id :: uuid
  we_warmth :: f64
  we_pagerank :: f64
  we_reputation :: f64
  we_last_accessed_at :: instant
  we_access_count :: int
  we_decay_zone :: decay_zone
  we_updated_at :: instant

text \<open>The value of a stored bit pattern.\<close>

definition f64_of_bits :: "64 word \<Rightarrow> f64" where
  "f64_of_bits w =
     (let s = bit w 63; e = unat (drop_bit 52 w AND 2047); m = unat (take_bit 52 w); sgn = (if s then - 1 else 1) in
      if e = 2047 then (if m = 0 then Infinite s else NaN)
      else if e = 0 then Fin (sgn * of_nat m * two_power (- 1074))
      else Fin (sgn * (of_nat m + 2 ^ 52) * two_power (int e - 1075)))"

section \<open>The operations\<close>

type_synonym ('s, 'e, 'a) store_call = "'s \<Rightarrow> ('e + 'a) \<times> 's"

record ('s, 'e) query_store_ops =
  entity_list_session :: "uuid \<Rightarrow> uuid \<Rightarrow> ('s, 'e, entity_entry list) store_call"
  edge_list_session :: "uuid \<Rightarrow> uuid \<Rightarrow> ('s, 'e, (uuid \<times> uuid \<times> string) list) store_call"
  typed_edge_list_session :: "uuid \<Rightarrow> uuid \<Rightarrow> ('s, 'e, typed_edge list) store_call"
  warmth_list_session :: "uuid \<Rightarrow> uuid \<Rightarrow> ('s, 'e, warmth_entry list) store_call"
  rule_list_family :: "uuid \<Rightarrow> string \<Rightarrow> rule_state \<Rightarrow> ('s, 'e, rule_entry list) store_call"
  rule_list_active :: "uuid \<Rightarrow> rule_state \<Rightarrow> ('s, 'e, rule_entry list) store_call"
  approval_latest :: "uuid \<Rightarrow> string \<Rightarrow> string \<Rightarrow> ('s, 'e, approval_entry option) store_call"
  derived_cache_get :: "uuid \<Rightarrow> string \<Rightarrow> ('s, 'e, derived_fact list) store_call"
  derived_cache_put :: "uuid \<Rightarrow> string \<Rightarrow> derived_fact list \<Rightarrow> ('s, 'e, unit) store_call"
  heat_record :: "uuid \<Rightarrow> string \<Rightarrow> bool \<Rightarrow> int option \<Rightarrow> ('s, 'e, unit) store_call"

text \<open>
  A call that only reads: what it returns depends on the rows of the store alone, and it changes neither them nor the
  derived cache.
\<close>

definition reads_rows :: "('s \<Rightarrow> 'r) \<Rightarrow> ('s \<Rightarrow> string \<Rightarrow> derived_fact list) \<Rightarrow> ('s, 'e, 'a) store_call \<Rightarrow> bool" where
  "reads_rows rows cache call \<longleftrightarrow>
     (\<forall>s. rows (snd (call s)) = rows s \<and> cache (snd (call s)) = cache s) \<and>
     (\<forall>s t. rows s = rows t \<longrightarrow> fst (call s) = fst (call t))"

text \<open>
  What the query path relies on, for one tenant: listing reads rows, the cache returns what was last put under a key in
  the form the backend keeps (\<open>stored\<close>), and telemetry changes neither rows nor cache.
\<close>

locale query_store =
  fixes ops :: "('s, 'e) query_store_ops" and tenant :: uuid
    and rows :: "'s \<Rightarrow> 'r" and cache :: "'s \<Rightarrow> string \<Rightarrow> derived_fact list" and stored :: "derived_fact \<Rightarrow> derived_fact"
  assumes lists_read:
      "reads_rows rows cache (entity_list_session ops tenant sid)"
      "reads_rows rows cache (edge_list_session ops tenant sid)"
      "reads_rows rows cache (typed_edge_list_session ops tenant sid)"
      "reads_rows rows cache (warmth_list_session ops tenant sid)"
      "reads_rows rows cache (rule_list_family ops tenant family st)"
      "reads_rows rows cache (rule_list_active ops tenant st)"
      "reads_rows rows cache (approval_latest ops tenant kind ref)"
    and get_cached: "derived_cache_get ops tenant key s = (r, s') \<Longrightarrow>
      rows s' = rows s \<and> cache s' = cache s \<and> (\<forall>fs. r = Ok fs \<longrightarrow> fs = cache s key)"
    and put_cached: "derived_cache_put ops tenant key fs s = (Ok (), s') \<Longrightarrow> cache s key = [] \<Longrightarrow>
      rows s' = rows s \<and> cache s' = (cache s)(key := map stored fs)"
    and heat_kept: "heat_record ops tenant pred hit ms s = (u, s') \<Longrightarrow> rows s' = rows s \<and> cache s' = cache s"

section \<open>The in-memory backend\<close>

record mock_edge =
  me_source :: uuid
  me_target :: uuid
  me_edge_type :: string
  me_session_id :: uuid

text \<open>The fields of \<open>MockStorage\<close> that the operations above touch. An error of a call would be its message; none fails here.\<close>

record mock_storage =
  ms_entities :: "entity_entry list"
  ms_edges :: "mock_edge list"
  ms_typed_edges :: "typed_edge list"
  ms_warmth_entries :: "warmth_entry list"
  ms_rules :: "rule_entry list"
  ms_approvals :: "approval_entry list"
  ms_derived_cache :: "string \<rightharpoonup> derived_fact list"
  ms_heat_records :: "(string \<times> bool \<times> int option) list"
  ms_edge_list_session_calls :: nat
  ms_derived_cache_get_calls :: nat

definition mock_entity_list_session :: "uuid \<Rightarrow> uuid \<Rightarrow> (mock_storage, string, entity_entry list) store_call" where
  "mock_entity_list_session tenant sid s =
     (Ok (filter (\<lambda>e. ee_tenant_id e = tenant \<and> ee_session_id e = sid \<and> is_retrievable (ee_state e)) (ms_entities s)), s)"

definition mock_edge_list_session :: "uuid \<Rightarrow> uuid \<Rightarrow> (mock_storage, string, (uuid \<times> uuid \<times> string) list) store_call" where
  "mock_edge_list_session tenant sid s =
     (Ok (map (\<lambda>e. (me_source e, me_target e, me_edge_type e)) (filter (\<lambda>e. me_session_id e = sid) (ms_edges s))),
      s\<lparr>ms_edge_list_session_calls := ms_edge_list_session_calls s + 1\<rparr>)"

definition mock_typed_edge_list_session :: "uuid \<Rightarrow> uuid \<Rightarrow> (mock_storage, string, typed_edge list) store_call" where
  "mock_typed_edge_list_session tenant sid s =
     (Ok (filter (\<lambda>e. ed_tenant_id e = tenant \<and> ed_session_id e = sid) (ms_typed_edges s)), s)"

definition mock_warmth_list_session :: "uuid \<Rightarrow> uuid \<Rightarrow> (mock_storage, string, warmth_entry list) store_call" where
  "mock_warmth_list_session tenant sid s =
     (Ok (filter (\<lambda>e. we_tenant_id e = tenant \<and> we_session_id e = sid) (ms_warmth_entries s)), s)"

text \<open>Both sorts are stable; versions are signed and descend.\<close>

definition mock_rule_list_family :: "uuid \<Rightarrow> string \<Rightarrow> rule_state \<Rightarrow> (mock_storage, string, rule_entry list) store_call" where
  "mock_rule_list_family tenant family st s =
     (Ok (sort_key (\<lambda>r. - sint (re_version r)) (filter (\<lambda>r. re_family r = family \<and> re_state r = st) (ms_rules s))), s)"

definition mock_rule_list_active :: "uuid \<Rightarrow> rule_state \<Rightarrow> (mock_storage, string, rule_entry list) store_call" where
  "mock_rule_list_active tenant st s =
     (Ok (sort_key (\<lambda>r. (re_family r, - sint (re_version r), re_rule_id r)) (filter (\<lambda>r. re_state r = st) (ms_rules s))), s)"

definition mock_approval_list :: "string \<Rightarrow> string \<Rightarrow> mock_storage \<Rightarrow> approval_entry list" where
  "mock_approval_list kind ref s =
     sort_key (\<lambda>a. (- ap_created_at a, - int (unat (ap_approval_id a))))
       (filter (\<lambda>a. artifact_kind_text (ap_artifact_kind a) = kind \<and> ap_artifact_ref a = ref) (ms_approvals s))"

definition mock_approval_latest :: "uuid \<Rightarrow> string \<Rightarrow> string \<Rightarrow> (mock_storage, string, approval_entry option) store_call" where
  "mock_approval_latest tenant kind ref s =
     (Ok (case mock_approval_list kind ref s of [] \<Rightarrow> None | a # _ \<Rightarrow> Some a), s)"

definition mock_cache :: "mock_storage \<Rightarrow> string \<Rightarrow> derived_fact list" where
  "mock_cache s key = (case ms_derived_cache s key of None \<Rightarrow> [] | Some fs \<Rightarrow> fs)"

definition mock_derived_cache_get :: "uuid \<Rightarrow> string \<Rightarrow> (mock_storage, string, derived_fact list) store_call" where
  "mock_derived_cache_get tenant key s =
     (Ok (mock_cache s key), s\<lparr>ms_derived_cache_get_calls := ms_derived_cache_get_calls s + 1\<rparr>)"

definition mock_derived_cache_put :: "uuid \<Rightarrow> string \<Rightarrow> derived_fact list \<Rightarrow> (mock_storage, string, unit) store_call" where
  "mock_derived_cache_put tenant key facts s = (Ok (), s\<lparr>ms_derived_cache := (ms_derived_cache s)(key \<mapsto> facts)\<rparr>)"

definition mock_heat_record :: "uuid \<Rightarrow> string \<Rightarrow> bool \<Rightarrow> int option \<Rightarrow> (mock_storage, string, unit) store_call" where
  "mock_heat_record tenant pred hit compute_ms s =
     (Ok (), s\<lparr>ms_heat_records := ms_heat_records s @ [(pred, hit, compute_ms)]\<rparr>)"

definition mock_ops :: "(mock_storage, string) query_store_ops" where
  "mock_ops = \<lparr>entity_list_session = mock_entity_list_session, edge_list_session = mock_edge_list_session,
     typed_edge_list_session = mock_typed_edge_list_session, warmth_list_session = mock_warmth_list_session,
     rule_list_family = mock_rule_list_family, rule_list_active = mock_rule_list_active,
     approval_latest = mock_approval_latest, derived_cache_get = mock_derived_cache_get,
     derived_cache_put = mock_derived_cache_put, heat_record = mock_heat_record\<rparr>"

text \<open>The rows a query reads: everything but the cache and the telemetry.\<close>

definition mock_rows :: "mock_storage \<Rightarrow> entity_entry list \<times> mock_edge list \<times> typed_edge list \<times> warmth_entry list \<times>
    rule_entry list \<times> approval_entry list" where
  "mock_rows s = (ms_entities s, ms_edges s, ms_typed_edges s, ms_warmth_entries s, ms_rules s, ms_approvals s)"

lemmas mock_defs = mock_entity_list_session_def mock_edge_list_session_def mock_typed_edge_list_session_def
  mock_warmth_list_session_def mock_rule_list_family_def mock_rule_list_active_def mock_approval_list_def
  mock_approval_latest_def mock_derived_cache_get_def mock_derived_cache_put_def mock_heat_record_def

interpretation mock: query_store mock_ops tenant mock_rows mock_cache "\<lambda>f. f" for tenant
  by unfold_locales
    (auto simp: reads_rows_def mock_ops_def mock_defs mock_rows_def mock_cache_def fun_eq_iff)

end
