(* ===== verification/Rule_Text.thy ===== *)
theory Rule_Text
  imports Datalog_Types
begin

text \<open>
  The text functions of the rule parser (\<open>datalog.rs\<close>: \<open>split_top_level\<close>, \<open>strip_group\<close>, \<open>expand_disjunction\<close>,
  \<open>split_assignment\<close>, \<open>strip_not_prefix\<close>, \<open>looks_like_call\<close>, \<open>has_top_level_arith\<close>, \<open>is_boolean_filter_part\<close>,
  \<open>is_reserved_str_part\<close>, \<open>aggregate_keyword\<close>, \<open>has_top_level_cmp\<close>) and the functions of \<open>str\<close> they call. A text is its
  UTF-8 bytes; every character the parser looks for is ASCII, so a scan by characters and a scan by bytes agree.
\<close>

section \<open>Errors\<close>

datatype parse_error =
    NoSeparator
  | TooManyAlternatives nat
  | AlternativeCapExceeded
  | BodyHasAlternatives nat
  | UnmatchedClose
  | EmptyBody
  | AtomWithoutOpen string
  | AtomWithoutClose string
  | MalformedAtom string
  | EmptyPredicate
  | ArithmeticInAtom string string
  | AggregateNotClosed string
  | AggregateTooShort string
  | AggregateNeedsValueVar string
  | AggregateOutputNotVariable string
  | AggregateNeedsParam string
  | PercentileNotNumber string
  | PercentileOutOfRange f64
  | SeparatorNotString string
  | AggregateValueIsAtom string string
  | AggregateAtomMalformed string nat parse_error
  | AggregateFoldsItself string string
  | AggregateValueUnbound string string
  | NegationWithoutPositiveAtom
  | NoBodyAtom
  | UnsafeNegation string "string list"
  | BindingNotVariable string
  | AlreadyBound string
  | BindingUsesUnbound string "string list"
  | HeadUsesUnbound nat "string list"
  | InvalidFilter string
  | InvalidHeadExpression string

section \<open>The string functions of the standard library\<close>

text \<open>The encodings of the characters with the Unicode property \<open>White_Space\<close>, by which \<open>str::trim\<close> cuts.\<close>

definition whitespace :: "string list" where
  "whitespace =
     map (\<lambda>c. [c]) [CHR 0x09, CHR 0x0A, CHR 0x0B, CHR 0x0C, CHR 0x0D, CHR '' ''] @
     [[CHR 0xC2, CHR 0x85], [CHR 0xC2, CHR 0xA0], [CHR 0xE1, CHR 0x9A, CHR 0x80]] @
     map (\<lambda>c. [CHR 0xE2, CHR 0x80, c])
       [CHR 0x80, CHR 0x81, CHR 0x82, CHR 0x83, CHR 0x84, CHR 0x85, CHR 0x86, CHR 0x87, CHR 0x88, CHR 0x89, CHR 0x8A,
        CHR 0xA8, CHR 0xA9, CHR 0xAF] @
     [[CHR 0xE2, CHR 0x81, CHR 0x9F], [CHR 0xE3, CHR 0x80, CHR 0x80]]"

text \<open>The length of the first of the given sequences that starts the text, or 0.\<close>

definition prefix_len :: "string list \<Rightarrow> string \<Rightarrow> nat" where
  "prefix_len seqs s = (case List.find (starts_with s) seqs of None \<Rightarrow> 0 | Some w \<Rightarrow> length w)"

function strip_seqs :: "string list \<Rightarrow> string \<Rightarrow> string" where
  "strip_seqs seqs s =
     (if s = [] \<or> prefix_len seqs s = 0 then s else strip_seqs seqs (drop (prefix_len seqs s) s))"
  by pat_completeness auto
termination by (relation "measure (\<lambda>(seqs, s). length s)") auto

declare strip_seqs.simps [simp del]

definition trim_start :: "string \<Rightarrow> string" where
  "trim_start s = strip_seqs whitespace s"

definition trim_end :: "string \<Rightarrow> string" where
  "trim_end s = rev (strip_seqs (map rev whitespace) (rev s))"

definition trim :: "string \<Rightarrow> string" where
  "trim s = trim_end (trim_start s)"

definition starts_with_whitespace :: "string \<Rightarrow> bool" where
  "starts_with_whitespace s \<longleftrightarrow> prefix_len whitespace s \<noteq> 0"

definition ends_with :: "string \<Rightarrow> string \<Rightarrow> bool" where
  "ends_with s t = starts_with (rev s) (rev t)"

definition strip_prefix :: "string \<Rightarrow> string \<Rightarrow> string option" where
  "strip_prefix t s = (if starts_with s t then Some (drop (length t) s) else None)"

definition strip_suffix :: "string \<Rightarrow> string \<Rightarrow> string option" where
  "strip_suffix t s = (if ends_with s t then Some (take (length s - length t) s) else None)"

definition trim_start_matches :: "char \<Rightarrow> string \<Rightarrow> string" where
  "trim_start_matches c s = dropWhile (\<lambda>d. d = c) s"

definition trim_end_matches :: "char \<Rightarrow> string \<Rightarrow> string" where
  "trim_end_matches c s = rev (dropWhile (\<lambda>d. d = c) (rev s))"

fun find_text :: "string \<Rightarrow> string \<Rightarrow> nat option" where
  "find_text t [] = (if t = [] then Some 0 else None)"
| "find_text t (c # cs) = (if starts_with (c # cs) t then Some 0 else map_option Suc (find_text t cs))"

fun find_char :: "char \<Rightarrow> string \<Rightarrow> nat option" where
  "find_char c [] = None"
| "find_char c (d # ds) = (if d = c then Some 0 else map_option Suc (find_char c ds))"

definition rfind_char :: "char \<Rightarrow> string \<Rightarrow> nat option" where
  "rfind_char c s = map_option (\<lambda>i. length s - Suc i) (find_char c (rev s))"

definition is_ascii_uppercase :: "char \<Rightarrow> bool" where
  "is_ascii_uppercase c \<longleftrightarrow> CHR ''A'' \<le> c \<and> c \<le> CHR ''Z''"

definition is_ascii_lowercase :: "char \<Rightarrow> bool" where
  "is_ascii_lowercase c \<longleftrightarrow> CHR ''a'' \<le> c \<and> c \<le> CHR ''z''"

definition is_ascii_alphabetic :: "char \<Rightarrow> bool" where
  "is_ascii_alphabetic c \<longleftrightarrow> is_ascii_uppercase c \<or> is_ascii_lowercase c"

definition is_ascii_digit :: "char \<Rightarrow> bool" where
  "is_ascii_digit c \<longleftrightarrow> CHR ''0'' \<le> c \<and> c \<le> CHR ''9''"

definition is_ascii_alphanumeric :: "char \<Rightarrow> bool" where
  "is_ascii_alphanumeric c \<longleftrightarrow> is_ascii_alphabetic c \<or> is_ascii_digit c"

definition is_ascii_whitespace :: "char \<Rightarrow> bool" where
  "is_ascii_whitespace c \<longleftrightarrow> c \<in> {CHR '' '', CHR 0x09, CHR 0x0A, CHR 0x0C, CHR 0x0D}"

definition starts_with_char :: "(char \<Rightarrow> bool) \<Rightarrow> string \<Rightarrow> bool" where
  "starts_with_char P s = (case s of [] \<Rightarrow> False | c # _ \<Rightarrow> P c)"

abbreviation "quote \<equiv> CHR 0x22"
abbreviation "backslash \<equiv> CHR 0x5C"

section \<open>Splitting at the top level\<close>

text \<open>The loop of \<open>split_top_level\<close>: \<open>in_str\<close> and \<open>escaped\<close>, the bracket depth, the part so far, the parts before it.\<close>

fun split_scan :: "char \<Rightarrow> bool \<Rightarrow> bool \<Rightarrow> nat \<Rightarrow> string \<Rightarrow> string list \<Rightarrow> string \<Rightarrow> parse_error + string list" where
  "split_scan delim in_str escaped depth current parts [] =
     Ok (if trim current \<noteq> [] then parts @ [current] else parts)"
| "split_scan delim in_str escaped depth current parts (ch # rest) =
     (if in_str then
        (if escaped then split_scan delim True False depth (current @ [ch]) parts rest
         else if ch = backslash then split_scan delim True True depth (current @ [ch]) parts rest
         else if ch = quote then split_scan delim False False depth (current @ [ch]) parts rest
         else split_scan delim True False depth (current @ [ch]) parts rest)
      else if ch = quote then split_scan delim True escaped depth (current @ [ch]) parts rest
      else if ch \<in> {CHR ''('', CHR ''[''} then
        split_scan delim False escaped (depth + 1) (current @ [ch]) parts rest
      else if ch \<in> {CHR '')'', CHR '']''} then
        (if depth = 0 then Err UnmatchedClose
         else split_scan delim False escaped (depth - 1) (current @ [ch]) parts rest)
      else if ch = delim \<and> depth = 0 then split_scan delim False escaped depth [] (parts @ [current]) rest
      else split_scan delim False escaped depth (current @ [ch]) parts rest)"

definition split_top_level :: "string \<Rightarrow> char \<Rightarrow> parse_error + string list" where
  "split_top_level s delim = split_scan delim False False 0 [] [] s"

text \<open>The bracket count of \<open>strip_group\<close>: it fails as soon as a bracket closes that was not opened.\<close>

fun group_depth :: "int \<Rightarrow> string \<Rightarrow> int option" where
  "group_depth depth [] = Some depth"
| "group_depth depth (c # cs) =
     (if c \<in> {CHR ''('', CHR ''[''} then group_depth (depth + 1) cs
      else if c \<in> {CHR '')'', CHR '']''} then (if depth - 1 < 0 then None else group_depth (depth - 1) cs)
      else group_depth depth cs)"

definition strip_group :: "string \<Rightarrow> string option" where
  "strip_group part =
     (case Option.bind (strip_prefix ''('' part) (strip_suffix '')'') of
        None \<Rightarrow> None
      | Some inner \<Rightarrow>
          if group_depth 0 inner \<noteq> Some 0 then None
          else (case split_top_level inner CHR '';'' of
                  Inl _ \<Rightarrow> None
                | Inr alts \<Rightarrow> if 1 < length alts then Some inner else None))"

section \<open>Scanning for an operator at the top level\<close>

text \<open>
  The loop that \<open>split_assignment\<close>, \<open>has_top_level_arith\<close>, \<open>is_boolean_filter_part\<close> and \<open>has_top_level_cmp\<close> each write
  out: skip string literals with their escapes, count brackets, and stop at the first position outside of them where
  \<open>hit\<close> holds of the byte before and the bytes from there on. The result is that position.
\<close>

fun scan_top ::
  "string \<Rightarrow> string \<Rightarrow> (char option \<Rightarrow> string \<Rightarrow> bool) \<Rightarrow> int \<Rightarrow> bool \<Rightarrow> char option \<Rightarrow> nat \<Rightarrow> string \<Rightarrow> nat option" where
  "scan_top opens closes hit depth in_str prev i [] = None"
| "scan_top opens closes hit depth in_str prev i (c # cs) =
     (if in_str then
        (case cs of
           [] \<Rightarrow> None
         | d # ds \<Rightarrow>
             if c = backslash then scan_top opens closes hit depth True (Some d) (i + 2) ds
             else scan_top opens closes hit depth (c \<noteq> quote) (Some c) (i + 1) cs)
      else if c = quote then scan_top opens closes hit depth True (Some c) (i + 1) cs
      else if c \<in> set opens then scan_top opens closes hit (depth + 1) False (Some c) (i + 1) cs
      else if c \<in> set closes then scan_top opens closes hit (depth - 1) False (Some c) (i + 1) cs
      else if depth = 0 \<and> hit prev (c # cs) then Some i
      else scan_top opens closes hit depth False (Some c) (i + 1) cs)"

definition assign_hit :: "char option \<Rightarrow> string \<Rightarrow> bool" where
  "assign_hit prev s = starts_with s '':=''"

definition split_assignment :: "string \<Rightarrow> (string \<times> string) option" where
  "split_assignment part =
     map_option (\<lambda>i. (take i part, drop (i + 2) part)) (scan_top ''(['' '')]'' assign_hit 0 False None 0 part)"

definition arith_hit :: "char option \<Rightarrow> string \<Rightarrow> bool" where
  "arith_hit prev s =
     (case s of
        [] \<Rightarrow> False
      | c # cs \<Rightarrow>
          c \<in> {CHR ''*'', CHR ''/'', CHR ''%''} \<or>
          c \<in> {CHR ''+'', CHR ''-''} \<and> (case prev of None \<Rightarrow> False | Some p \<Rightarrow> is_ascii_whitespace p) \<and>
            starts_with_char is_ascii_whitespace cs)"

definition has_top_level_arith :: "string \<Rightarrow> bool" where
  "has_top_level_arith part \<longleftrightarrow> scan_top ''('' '')'' arith_hit 0 False None 0 (trim part) \<noteq> None"

definition boolean_hit :: "char option \<Rightarrow> string \<Rightarrow> bool" where
  "boolean_hit prev s \<longleftrightarrow> starts_with s ''||'' \<or> starts_with s ''&&'' \<or> starts_with s ''[''"

definition is_boolean_filter_part :: "string \<Rightarrow> bool" where
  "is_boolean_filter_part part \<longleftrightarrow>
     starts_with (trim part) ''!'' \<or> scan_top ''('' '')'' boolean_hit 0 False None 0 (trim part) \<noteq> None"

definition cmp_hit :: "char option \<Rightarrow> string \<Rightarrow> bool" where
  "cmp_hit prev s \<longleftrightarrow> starts_with_char (\<lambda>c. c \<in> {CHR ''='', CHR ''<'', CHR ''>''}) s \<or> starts_with s ''!=''"

definition has_top_level_cmp :: "string \<Rightarrow> bool" where
  "has_top_level_cmp s \<longleftrightarrow> scan_top ''('' '')'' cmp_hit 0 False None 0 s \<noteq> None"

definition looks_like_call :: "string \<Rightarrow> bool" where
  "looks_like_call part =
     (let part = trim part in
      case find_char CHR ''('' part of
        None \<Rightarrow> False
      | Some opn \<Rightarrow>
          ends_with part '')'' \<and>
          (let name = take opn part in
           starts_with_char (\<lambda>c. is_ascii_alphabetic c \<or> c = CHR ''_'') name \<and>
           list_all (\<lambda>c. is_ascii_alphanumeric c \<or> c = CHR ''_'') name))"

definition strip_not_prefix :: "string \<Rightarrow> string option" where
  "strip_not_prefix part =
     (case strip_prefix ''not'' part of
        None \<Rightarrow> None
      | Some rest \<Rightarrow>
          if \<not> starts_with_whitespace rest then None
          else if trim_start rest = [] then None else Some (trim_start rest))"

definition is_reserved_str_part :: "string \<Rightarrow> bool" where
  "is_reserved_str_part part =
     (let bare = trim_start (trim_start_matches CHR ''!'' part) in
      starts_with bare ''str_'' \<or> starts_with bare ''is_null('')"

definition aggregate_keyword_of :: "string \<Rightarrow> aggregate_kind option" where
  "aggregate_keyword_of part =
     List.find (\<lambda>kind. starts_with part (aggregate_keyword kind @ ''(''))
       [CountDistinct, Count, Sum, Min, Max, Avg, StdDev, Median, Percentile, GroupConcat]"

section \<open>What splitting keeps\<close>

lemma join_strings_Cons: "join_strings sep (s # ts) = (if ts = [] then s else s @ sep @ join_strings sep ts)"
  by (cases ts) simp_all

lemma join_strings_length: "sum_list (map length ss) \<le> length (join_strings sep ss)"
  by (induction sep ss rule: join_strings.induct) auto

lemma strip_seqs_length: "length (strip_seqs seqs s) \<le> length s"
  by (induction seqs s rule: strip_seqs.induct) (subst strip_seqs.simps, auto)

lemma trim_length: "length (trim s) \<le> length s"
  using strip_seqs_length [of "map rev whitespace" "rev (trim_start s)"] strip_seqs_length [of whitespace s]
  by (simp add: trim_def trim_end_def trim_start_def)

text \<open>Cutting at every top-level delimiter, and dropping a last piece that is blank.\<close>

definition pieces_kept :: "string list \<Rightarrow> string list" where
  "pieces_kept pieces = (if trim (last pieces) = [] then butlast pieces else pieces)"

lemma split_scan_pieces:
  "split_scan delim in_str escaped depth current parts s = Ok ps \<Longrightarrow>
    \<exists>pieces. pieces \<noteq> [] \<and> join_strings [delim] pieces = current @ s \<and> ps = parts @ pieces_kept pieces"
proof (induction s arbitrary: in_str escaped depth current parts)
  case Nil
  then show ?case by (intro exI [of _ "[current]"]) (auto simp: pieces_kept_def split: if_splits)
next
  case (Cons ch rest)
  show ?case
  proof (cases "\<not> in_str \<and> ch \<notin> {quote, CHR ''('', CHR ''['', CHR '')'', CHR '']''} \<and> ch = delim \<and> depth = 0")
    case True
    then have "split_scan delim False escaped depth [] (parts @ [current]) rest = Ok ps" using Cons.prems by auto
    from Cons.IH [OF this] obtain pieces where
      "pieces \<noteq> []" "join_strings [delim] pieces = rest" "ps = (parts @ [current]) @ pieces_kept pieces" by auto
    with True show ?thesis by (intro exI [of _ "current # pieces"]) (auto simp: join_strings_Cons pieces_kept_def)
  next
    case False
    then obtain i e n where "split_scan delim i e n (current @ [ch]) parts rest = Ok ps"
      using Cons.prems by (auto split: if_splits)
    from Cons.IH [OF this] show ?thesis by simp
  qed
qed

lemma split_top_level_pieces:
  "split_top_level s delim = Ok ps \<Longrightarrow> \<exists>pieces. pieces \<noteq> [] \<and> join_strings [delim] pieces = s \<and> ps = pieces_kept pieces"
  using split_scan_pieces [of delim False False 0 "[]" "[]" s ps] by (simp add: split_top_level_def)

lemma split_top_level_length:
  assumes "split_top_level s delim = Ok ps"
  shows "sum_list (map length ps) \<le> length s"
proof -
  from split_top_level_pieces [OF assms] obtain pieces where p: "pieces \<noteq> []" "join_strings [delim] pieces = s" "ps = pieces_kept pieces"
    by blast
  have "sum_list (map length (butlast pieces)) \<le> sum_list (map length pieces)"
    using p(1) by (induction pieces) auto
  then show ?thesis using p join_strings_length [of pieces "[delim]"] by (auto simp: pieces_kept_def)
qed

lemma starts_with_take: "starts_with s t \<longleftrightarrow> take (length t) s = t"
  by (induction s t rule: starts_with.induct) auto

lemma starts_with_length: "starts_with s t \<Longrightarrow> length t \<le> length s"
  by (induction s t rule: starts_with.induct) auto

lemma strip_group_length: "strip_group part = Some inner \<Longrightarrow> length inner < length part"
  using starts_with_length
  by (fastforce simp: strip_group_def strip_prefix_def strip_suffix_def split: option.splits sum.splits if_splits bind_splits)

section \<open>Expanding alternatives\<close>

definition MAX_RULE_ALTERNATIVES :: nat where
  "MAX_RULE_ALTERNATIVES = 64"

text \<open>The loop of \<open>expand_disjunction\<close> over the alternatives of a body, and its inner loop over the parts of one.\<close>

function expand_disjunction :: "string \<Rightarrow> parse_error + string list"
  and expand_alternatives :: "string list \<Rightarrow> parse_error + string list"
  and expand_parts :: "string list list \<Rightarrow> string list \<Rightarrow> parse_error + string list list" where
  "expand_disjunction body =
     (case split_top_level body CHR '';'' of Inl e \<Rightarrow> Err e | Inr alternatives \<Rightarrow> expand_alternatives alternatives)"
| "expand_alternatives [] = Ok []"
| "expand_alternatives (alternative # rest) =
     (case split_top_level alternative CHR '','' of
        Inl e \<Rightarrow> Err e
      | Inr parts \<Rightarrow>
          (case expand_parts [[]] parts of
             Inl e \<Rightarrow> Err e
           | Inr combos \<Rightarrow> map_ok (\<lambda>out. map (join_strings '', '') combos @ out) (expand_alternatives rest)))"
| "expand_parts combos [] = Ok combos"
| "expand_parts combos (part # rest) =
     (case (case strip_group (trim part) of Some inner \<Rightarrow> expand_disjunction inner | None \<Rightarrow> Ok [trim part]) of
        Inl e \<Rightarrow> Err e
      | Inr expansions \<Rightarrow>
          if MAX_RULE_ALTERNATIVES < length combos * length expansions then Err AlternativeCapExceeded
          else expand_parts (concat (map (\<lambda>prefix. map (\<lambda>e. prefix @ [e]) expansions) combos)) rest)"
  by pat_completeness auto

termination
proof (relation "measures
    [\<lambda>x. case x of Inl body \<Rightarrow> length body | Inr (Inl as) \<Rightarrow> sum_list (map length as) | Inr (Inr (_, ps)) \<Rightarrow> sum_list (map length ps),
     \<lambda>x. case x of Inl _ \<Rightarrow> 2 | Inr (Inl _) \<Rightarrow> 1 | Inr (Inr _) \<Rightarrow> 0,
     \<lambda>x. case x of Inl _ \<Rightarrow> 0 | Inr (Inl as) \<Rightarrow> length as | Inr (Inr (_, ps)) \<Rightarrow> length ps]", goal_cases)
  case (2 body alternatives)
  then show ?case using split_top_level_length [of body "CHR '';''" alternatives] by auto
next
  case (3 alternative rest parts)
  then show ?case using split_top_level_length [of alternative "CHR '',''" parts] by auto
next
  case (5 combos part rest inner)
  then show ?case using strip_group_length [of "trim part" inner] trim_length [of part] by auto
qed auto

declare expand_disjunction.simps [simp del]

lemma expand_parts_bound:
  "expand_parts combos parts = Ok out \<Longrightarrow> length combos \<le> MAX_RULE_ALTERNATIVES \<Longrightarrow> length out \<le> MAX_RULE_ALTERNATIVES"
proof (induction parts arbitrary: combos)
  case (Cons part rest)
  then obtain expansions where
    "expand_parts (concat (map (\<lambda>prefix. map (\<lambda>e. prefix @ [e]) expansions) combos)) rest = Ok out"
    "length combos * length expansions \<le> MAX_RULE_ALTERNATIVES"
    by (auto split: sum.splits option.splits if_splits)
  then show ?case using Cons.IH by (fastforce simp: length_concat comp_def sum_list_triv)
qed simp

end
