(* ===== verification/Rule_Parser.thy ===== *)
theory Rule_Parser
  imports Rule_Text Datalog_Aggregate
begin

text \<open>
  The rule parser (\<open>datalog.rs\<close>: \<open>parse_rule\<close>, \<open>parse_rules\<close>, \<open>parse_head\<close>, \<open>parse_atom\<close>, \<open>parse_term\<close>,
  \<open>parse_aggregate\<close>, \<open>collect_expr_vars\<close>; \<open>datalog_filter_expr.rs\<close>: \<open>parse_filter\<close>, \<open>parse_head_expr\<close>). The runs of the
  expression grammars, which are built from the combinators of the \<open>nom\<close> crate, and \<open>Uuid::parse_str\<close> are fields of
  \<open>parser_env\<close>. A panic is \<open>None\<close>.
\<close>

record parser_env =
  parse_uuid :: "string \<Rightarrow> uuid option"
  all_consuming_filter :: "string \<Rightarrow> builtin_filter option"
  all_consuming_expr :: "string \<Rightarrow> filter_expr option"

type_synonym 'a parse = "(parse_error + 'a) outcome"

text \<open>The question-mark operator on a result that may have panicked.\<close>

definition then_parse :: "'a parse \<Rightarrow> ('a \<Rightarrow> 'b parse) \<Rightarrow> 'b parse" where
  "then_parse r f = (case r of None \<Rightarrow> None | Some (Inl e) \<Rightarrow> Some (Inl e) | Some (Inr a) \<Rightarrow> f a)"

lemma then_parse_simps [simp]:
  "then_parse None f = None"
  "then_parse (Some (Inl e)) f = Some (Inl e)"
  "then_parse (Some (Inr a)) f = f a"
  by (simp_all add: then_parse_def)

lemma then_parse_eq_Ok [simp]: "then_parse r f = Some (Inr b) \<longleftrightarrow> (\<exists>a. r = Some (Inr a) \<and> f a = Some (Inr b))"
  by (auto simp: then_parse_def split: option.splits sum.splits)

lemma then_parse_eq_panic [simp]: "then_parse r f = None \<longleftrightarrow> r = None \<or> (\<exists>a. r = Some (Inr a) \<and> f a = None)"
  by (auto simp: then_parse_def split: option.splits sum.splits)

section \<open>Numbers in text\<close>

text \<open>\<open>usize\<close> as \<open>Display\<close> prints it.\<close>

fun decimal :: "nat \<Rightarrow> string" where
  "decimal n = (if n < 10 then [char_of (48 + n)] else decimal (n div 10) @ [char_of (48 + n mod 10)])"

declare decimal.simps [simp del]

text \<open>\<open>str::parse::<f64>\<close>: a sign, then a special name in any case or a decimal number, rounded to the nearest value.\<close>

definition digits_value :: "string \<Rightarrow> nat" where
  "digits_value s = foldl (\<lambda>v c. 10 * v + (of_char c - 48)) 0 s"

definition power_of_ten :: "int \<Rightarrow> rat" where
  "power_of_ten k = (if 0 \<le> k then 10 ^ nat k else 1 / 10 ^ nat (- k))"

fun exponent_value :: "string \<Rightarrow> int option" where
  "exponent_value [] = Some 0"
| "exponent_value (c # s) =
     (let (negative, ds) = (case s of [] \<Rightarrow> (False, s)
                            | d # r \<Rightarrow> if d = CHR ''-'' then (True, r) else if d = CHR ''+'' then (False, r) else (False, s))
      in if c \<in> {CHR ''e'', CHR ''E''} \<and> ds \<noteq> [] \<and> list_all is_ascii_digit ds
         then Some ((if negative then - 1 else 1) * int (digits_value ds)) else None)"

definition decimal_value :: "string \<Rightarrow> f64 option" where
  "decimal_value s =
     (let whole = takeWhile is_ascii_digit s;
          (frac, rest) = (case dropWhile is_ascii_digit s of
              [] \<Rightarrow> ([], [])
            | c # r \<Rightarrow> if c = CHR ''.'' then (takeWhile is_ascii_digit r, dropWhile is_ascii_digit r) else ([], c # r))
      in if whole = [] \<and> frac = [] then None
         else map_option
           (\<lambda>e. round64 (of_nat (digits_value (whole @ frac)) * power_of_ten (e - int (length frac))))
           (exponent_value rest))"

definition ascii_lower :: "char \<Rightarrow> char" where
  "ascii_lower c = (if is_ascii_uppercase c then char_of (of_char c + 32 :: nat) else c)"

definition unsigned_value :: "string \<Rightarrow> f64 option" where
  "unsigned_value s =
     (if map ascii_lower s \<in> {''inf'', ''infinity''} then Some (Infinite False)
      else if map ascii_lower s = ''nan'' then Some NaN
      else decimal_value s)"

definition parse_f64 :: "string \<Rightarrow> f64 option" where
  "parse_f64 s =
     (case s of
        [] \<Rightarrow> None
      | c # r \<Rightarrow> if c = CHR ''-'' then map_option f64_neg (unsigned_value r)
                 else if c = CHR ''+'' then unsigned_value r else unsigned_value s)"

section \<open>Terms and atoms\<close>

text \<open>The counter of anonymous variables is threaded through.\<close>

definition parse_term :: "'x parser_env_scheme \<Rightarrow> string \<Rightarrow> nat \<Rightarrow> dl_term \<times> nat" where
  "parse_term env s anon_counter =
     (let s = trim s in
      if s = ''_'' then (Var (''_anon_'' @ decimal anon_counter), anon_counter + 1)
      else if starts_with s [quote] \<and> ends_with s [quote] \<and> 2 \<le> length s
      then (ConstStr (take (length s - 2) (drop 1 s)), anon_counter)
      else if s = ''null'' then (ConstNull, anon_counter)
      else case parse_uuid env s of
        Some u \<Rightarrow> (Const u, anon_counter)
      | None \<Rightarrow>
          if starts_with_char is_ascii_uppercase s then (Var s, anon_counter)
          else case parse_f64 s of
            Some f \<Rightarrow> (ConstFloat f, anon_counter)
          | None \<Rightarrow> (ConstStr s, anon_counter))"

fun parse_args :: "'x parser_env_scheme \<Rightarrow> string \<Rightarrow> string list \<Rightarrow> nat \<Rightarrow> parse_error + dl_term list \<times> nat" where
  "parse_args env text [] anon = Ok ([], anon)"
| "parse_args env text (part # rest) anon =
     (if has_top_level_arith part then Err (ArithmeticInAtom (trim part) text)
      else let (t, anon') = parse_term env (trim part) anon in
           map_ok (\<lambda>(ts, anon''). (t # ts, anon'')) (parse_args env text rest anon'))"

definition parse_atom :: "'x parser_env_scheme \<Rightarrow> string \<Rightarrow> nat \<Rightarrow> parse_error + atom \<times> nat" where
  "parse_atom env text anon =
     (let text = trim text in
      and_then (ok_or (find_char CHR ''('' text) (AtomWithoutOpen text)) (\<lambda>opn.
      and_then (ok_or (rfind_char CHR '')'' text) (AtomWithoutClose text)) (\<lambda>close.
      and_then (ensure (opn < close) (MalformedAtom text)) (\<lambda>_.
      let predicate = trim (take opn text) in
      and_then (ensure (predicate \<noteq> []) EmptyPredicate) (\<lambda>_.
      and_then (split_top_level (take (close - (opn + 1)) (drop (opn + 1) text)) CHR '','') (\<lambda>arg_parts.
      map_ok (\<lambda>(args, anon'). (\<lparr>at_predicate = predicate, at_args = args\<rparr>, anon'))
        (parse_args env text arg_parts anon)))))))"

section \<open>Expressions\<close>

definition parse_filter :: "'x parser_env_scheme \<Rightarrow> string \<Rightarrow> parse_error + builtin_filter" where
  "parse_filter env input = ok_or (all_consuming_filter env input) (InvalidFilter (trim input))"

definition parse_head_expr :: "'x parser_env_scheme \<Rightarrow> string \<Rightarrow> parse_error + filter_expr" where
  "parse_head_expr env input = ok_or (all_consuming_expr env input) (InvalidHeadExpression (trim input))"

fun collect_expr_vars :: "filter_expr \<Rightarrow> string list" and collect_args_vars :: "filter_expr list \<Rightarrow> string list" where
  "collect_expr_vars (FVar name) = [name]"
| "collect_expr_vars (LitNum _) = []"
| "collect_expr_vars (LitStr _) = []"
| "collect_expr_vars FNull = []"
| "collect_expr_vars (LitTime _) = []"
| "collect_expr_vars (Neg inner) = collect_expr_vars inner"
| "collect_expr_vars (BinOp _ l r) = collect_expr_vars l @ collect_expr_vars r"
| "collect_expr_vars (Call _ args) = collect_args_vars args"
| "collect_args_vars [] = []"
| "collect_args_vars (a # rest) = collect_expr_vars a @ collect_args_vars rest"

section \<open>Heads\<close>

definition headexpr_name :: "nat \<Rightarrow> string" where
  "headexpr_name index = ''_headexpr_'' @ decimal index"

fun rewrite_head :: "'x parser_env_scheme \<Rightarrow> nat \<Rightarrow> string list \<Rightarrow> parse_error + string list \<times> head_expr list" where
  "rewrite_head env index [] = Ok ([], [])"
| "rewrite_head env index (part # rest) =
     (if has_top_level_arith part \<or> looks_like_call part then
        and_then (parse_head_expr env part) (\<lambda>e.
          map_ok (\<lambda>(rewritten, hes). (headexpr_name index # rewritten, \<lparr>he_index = index, he_expr = e\<rparr> # hes))
            (rewrite_head env (index + 1) rest))
      else map_ok (\<lambda>(rewritten, hes). (trim part # rewritten, hes)) (rewrite_head env (index + 1) rest))"

text \<open>The slice between the first opening and the last closing parenthesis panics when they are the wrong way round.\<close>

definition parse_head :: "'x parser_env_scheme \<Rightarrow> string \<Rightarrow> (atom \<times> head_expr list) parse" where
  "parse_head env head_str =
     (case (find_char CHR ''('' head_str, rfind_char CHR '')'' head_str) of
        (Some opn, Some close) \<Rightarrow>
          (case get_range (opn + 1) close head_str of
             None \<Rightarrow> None
           | Some inner \<Rightarrow>
               Some (and_then (split_top_level inner CHR '','') (\<lambda>arg_parts.
                 and_then (rewrite_head env 0 arg_parts) (\<lambda>(rewritten, head_exprs).
                   map_ok (\<lambda>(a, _). (a, head_exprs))
                     (parse_atom env (trim (take opn head_str) @ ''('' @ join_strings '', '' rewritten @ '')'') 0)))))
      | _ \<Rightarrow> Some (map_ok (\<lambda>(a, _). (a, [])) (parse_atom env head_str 0)))"

section \<open>Aggregates\<close>

fun in_unit_interval :: "f64 \<Rightarrow> bool" where
  "in_unit_interval (Fin p) = (0 \<le> p \<and> p \<le> 1)"
| "in_unit_interval _ = False"

definition parse_param :: "'x parser_env_scheme \<Rightarrow> aggregate_kind \<Rightarrow> string list \<Rightarrow> parse_error + dl_term option" where
  "parse_param env kind parts =
     (if \<not> needs_param kind then Ok None
      else let raw = trim (parts ! (length parts - 2)); t = fst (parse_term env raw 0) in
        if kind = Percentile then
          (case t of
             ConstFloat p \<Rightarrow> if in_unit_interval p then Ok (Some (ConstFloat p)) else Err (PercentileOutOfRange p)
           | _ \<Rightarrow> Err (PercentileNotNumber raw))
        else
          (case t of
             ConstStr sep \<Rightarrow> Ok (Some (ConstStr sep))
           | _ \<Rightarrow> Err (SeparatorNotString raw)))"

definition split_value :: "string \<Rightarrow> aggregate_kind \<Rightarrow> string list \<Rightarrow> parse_error + string option \<times> string list" where
  "split_value s kind parts =
     (if needs_value_var kind then
        (let tail = (if needs_param kind then 3 else 2); raw = trim (parts ! (length parts - tail)) in
         if CHR ''('' \<in> set raw then Err (AggregateValueIsAtom s raw)
         else Ok (Some raw, take (length parts - tail) parts))
      else Ok (None, take (length parts - 1) parts))"

text \<open>The loop over the atom parts; \<open>None\<close> is the early return to body-atom parsing.\<close>

fun parse_inner_atoms ::
  "'x parser_env_scheme \<Rightarrow> string \<Rightarrow> nat \<Rightarrow> nat \<Rightarrow> atom list \<Rightarrow> string list \<Rightarrow> parse_error + atom list option" where
  "parse_inner_atoms env s i anon atoms [] = Ok (Some atoms)"
| "parse_inner_atoms env s i anon atoms (part # rest) =
     (case parse_atom env part anon of
        Inr (a, anon') \<Rightarrow> parse_inner_atoms env s (i + 1) anon' (atoms @ [a]) rest
      | Inl e \<Rightarrow> if atoms = [] then Ok None else Err (AggregateAtomMalformed s (i + 1) e))"

fun var_names :: "dl_term list \<Rightarrow> string list" where
  "var_names [] = []"
| "var_names (Var name # ts) = name # var_names ts"
| "var_names (_ # ts) = var_names ts"

definition atoms_vars :: "atom list \<Rightarrow> string list" where
  "atoms_vars atoms = concat (map (\<lambda>a. var_names (at_args a)) atoms)"

definition group_vars_of :: "string list \<Rightarrow> string option \<Rightarrow> atom list \<Rightarrow> string list" where
  "group_vars_of outer value_var atoms =
     fold (\<lambda>name gs. if name \<in> set outer \<and> name \<notin> set gs \<and> value_var \<noteq> Some name then gs @ [name] else gs)
       (atoms_vars atoms) []"

definition check_value :: "string \<Rightarrow> string option \<Rightarrow> string \<Rightarrow> atom list \<Rightarrow> parse_error + unit" where
  "check_value s value_var output atoms =
     (case value_var of
        None \<Rightarrow> Ok ()
      | Some v \<Rightarrow>
          and_then (ensure (v \<noteq> output) (AggregateFoldsItself s v)) (\<lambda>_.
            ensure (list_ex (\<lambda>a. list_ex (\<lambda>t. t = Var v) (at_args a)) atoms) (AggregateValueUnbound s v)))"

text \<open>The end of \<open>parse_aggregate\<close>, once the inner atoms are parsed. \<open>atoms[0]\<close> would panic on an empty list.\<close>

definition assemble_aggregate ::
  "string \<Rightarrow> string list \<Rightarrow> aggregate_kind \<Rightarrow> dl_term option \<Rightarrow> string \<Rightarrow> string option \<Rightarrow> atom list option
    \<Rightarrow> aggregate option parse" where
  "assemble_aggregate s outer kind param output value_var parsed =
     (case parsed of
        None \<Rightarrow> Some (Ok None)
      | Some atoms \<Rightarrow>
          if atoms = [] then None
          else then_parse (Some (check_value s value_var output atoms)) (\<lambda>_.
            Some (Ok (Some \<lparr>ag_kind = kind, ag_param = param, ag_inner = hd atoms,
              ag_inner_conjunction = (if length atoms = 1 then [] else atoms),
              ag_group_vars = group_vars_of outer value_var atoms, ag_output_var = output,
              ag_value_var = value_var\<rparr>))))"

text \<open>What follows once the parts are known to start with an atom.\<close>

definition finish_aggregate ::
  "'x parser_env_scheme \<Rightarrow> string \<Rightarrow> string list \<Rightarrow> aggregate_kind \<Rightarrow> string list \<Rightarrow> aggregate option parse" where
  "finish_aggregate env s outer kind parts =
     then_parse (Some (ensure (\<not> (needs_value_var kind \<and> length parts < 3)) (AggregateNeedsValueVar s))) (\<lambda>_.
     let output = trim (last parts) in
     then_parse (Some (ensure (starts_with_char (\<lambda>c. is_ascii_uppercase c \<or> c = CHR ''_'') output)
       (AggregateOutputNotVariable output))) (\<lambda>_.
     then_parse (Some (ensure (\<not> (needs_param kind \<and> length parts < 4)) (AggregateNeedsParam s))) (\<lambda>_.
     then_parse (Some (parse_param env kind parts)) (\<lambda>param.
     then_parse (Some (split_value s kind parts)) (\<lambda>(value_var, atom_parts).
     then_parse (Some (parse_inner_atoms env s 0 0 [] atom_parts))
       (assemble_aggregate s outer kind param output value_var))))))"

text \<open>\<open>head_vars\<close> and \<open>body_vars\<close> are only asked for membership in either, so one list of names stands for both.\<close>

definition parse_aggregate :: "'x parser_env_scheme \<Rightarrow> string \<Rightarrow> string list \<Rightarrow> aggregate option parse" where
  "parse_aggregate env s outer =
     (let s = trim s in
      case aggregate_keyword_of s of
        None \<Rightarrow> Some (Ok None)
      | Some kind \<Rightarrow>
          (case Option.bind (strip_prefix (aggregate_keyword kind) s) (strip_prefix ''('') of
             None \<Rightarrow> None
           | Some rest \<Rightarrow>
               (case strip_suffix '')'' rest of
                  None \<Rightarrow> Some (Err (AggregateNotClosed s))
                | Some inner_text \<Rightarrow>
                    then_parse (Some (split_top_level inner_text CHR '','')) (\<lambda>parts.
                    then_parse (Some (ensure (2 \<le> length parts) (AggregateTooShort s))) (\<lambda>_.
                      if is_ok (parse_atom env (hd parts) 0) then finish_aggregate env s outer kind parts
                      else Some (Ok None))))))"

section \<open>Rules\<close>

record rule_parts =
  rp_body :: "atom list"
  rp_filters :: "builtin_filter list"
  rp_aggregates :: "string list"
  rp_negated :: "string list"
  rp_bindings :: "string list"
  rp_anon :: nat

definition classify_part :: "'x parser_env_scheme \<Rightarrow> string \<Rightarrow> rule_parts \<Rightarrow> parse_error + rule_parts" where
  "classify_part env part rp =
     (let part = trim part in
      case strip_not_prefix part of
        Some rest \<Rightarrow> Ok (rp\<lparr>rp_negated := rp_negated rp @ [rest]\<rparr>)
      | None \<Rightarrow>
          if split_assignment part \<noteq> None then Ok (rp\<lparr>rp_bindings := rp_bindings rp @ [part]\<rparr>)
          else if is_boolean_filter_part part \<or> is_reserved_str_part part then
            map_ok (\<lambda>f. rp\<lparr>rp_filters := rp_filters rp @ [f]\<rparr>) (parse_filter env part)
          else if aggregate_keyword_of part \<noteq> None then Ok (rp\<lparr>rp_aggregates := rp_aggregates rp @ [part]\<rparr>)
          else if has_top_level_cmp part then
            map_ok (\<lambda>f. rp\<lparr>rp_filters := rp_filters rp @ [f]\<rparr>) (parse_filter env part)
          else map_ok (\<lambda>(a, anon). rp\<lparr>rp_body := rp_body rp @ [a], rp_anon := anon\<rparr>) (parse_atom env part (rp_anon rp)))"

fun classify_parts :: "'x parser_env_scheme \<Rightarrow> string list \<Rightarrow> rule_parts \<Rightarrow> parse_error + rule_parts" where
  "classify_parts env [] rp = Ok rp"
| "classify_parts env (part # rest) rp = and_then (classify_part env part rp) (classify_parts env rest)"

text \<open>Pass 2: the deferred aggregates; one that is a plain predicate after all joins the body.\<close>

fun parse_aggregates ::
  "'x parser_env_scheme \<Rightarrow> string list \<Rightarrow> string list \<Rightarrow> atom list \<Rightarrow> aggregate list \<Rightarrow> nat
    \<Rightarrow> (atom list \<times> aggregate list \<times> nat) parse" where
  "parse_aggregates env outer [] body aggs anon = Some (Ok (body, aggs, anon))"
| "parse_aggregates env outer (part # rest) body aggs anon =
     then_parse (parse_aggregate env part outer) (\<lambda>parsed.
       case parsed of
         Some agg \<Rightarrow> parse_aggregates env outer rest body (aggs @ [agg]) anon
       | None \<Rightarrow> then_parse (Some (parse_atom env part anon)) (\<lambda>(a, anon').
           parse_aggregates env outer rest (body @ [a]) aggs anon'))"

text \<open>Pass 3: the negated atoms and their range restriction.\<close>

fun parse_negated ::
  "'x parser_env_scheme \<Rightarrow> string list \<Rightarrow> string list \<Rightarrow> nat \<Rightarrow> parse_error + atom list" where
  "parse_negated env positive_vars [] anon = Ok []"
| "parse_negated env positive_vars (part # rest) anon =
     and_then (parse_atom env part anon) (\<lambda>(a, anon').
       let unbound = filter (\<lambda>n. n \<notin> set positive_vars) (filter (\<lambda>n. \<not> is_anon n) (var_names (at_args a))) in
       and_then (ensure (unbound = []) (UnsafeNegation part unbound)) (\<lambda>_.
         map_ok (\<lambda>negated. a # negated) (parse_negated env positive_vars rest anon')))"

text \<open>The bindings in order; the result also holds what is bound once all of them have run.\<close>

fun parse_bindings ::
  "'x parser_env_scheme \<Rightarrow> string list \<Rightarrow> string list \<Rightarrow> (rule_binding list \<times> string list) parse" where
  "parse_bindings env bound_so_far [] = Some (Ok ([], bound_so_far))"
| "parse_bindings env bound_so_far (part # rest) =
     (case split_assignment part of
        None \<Rightarrow> None
      | Some (lhs, rhs) \<Rightarrow>
          let var = trim lhs in
          then_parse (Some (ensure (starts_with_char (\<lambda>c. is_ascii_uppercase c \<or> c = CHR ''_'') var) (BindingNotVariable var))) (\<lambda>_.
          then_parse (Some (ensure (var \<notin> set bound_so_far) (AlreadyBound var))) (\<lambda>_.
          then_parse (Some (parse_head_expr env rhs)) (\<lambda>e.
          let unbound = filter (\<lambda>v. v \<notin> set bound_so_far) (collect_expr_vars e) in
          then_parse (Some (ensure (unbound = []) (BindingUsesUnbound var unbound))) (\<lambda>_.
          then_parse (parse_bindings env (var # bound_so_far) rest) (\<lambda>(bindings, bound).
            Some (Ok (\<lparr>rb_var = var, rb_expr = e\<rparr> # bindings, bound))))))))"

definition check_head_expr :: "string list \<Rightarrow> head_expr \<Rightarrow> parse_error + unit" where
  "check_head_expr bound he =
     (let unbound = filter (\<lambda>v. v \<notin> set bound) (collect_expr_vars (he_expr he)) in
      ensure (unbound = []) (HeadUsesUnbound (he_index he) unbound))"

definition parse_body ::
  "'x parser_env_scheme \<Rightarrow> atom \<Rightarrow> head_expr list \<Rightarrow> string list \<Rightarrow> datalog_rule parse" where
  "parse_body env head head_exprs body_parts =
     then_parse (Some (classify_parts env body_parts
       \<lparr>rp_body = [], rp_filters = [], rp_aggregates = [], rp_negated = [], rp_bindings = [], rp_anon = 0\<rparr>)) (\<lambda>rp.
     then_parse (parse_aggregates env (var_names (at_args head) @ atoms_vars (rp_body rp))
       (rp_aggregates rp) (rp_body rp) [] (rp_anon rp)) (\<lambda>(body, aggregates, anon).
     then_parse (Some (ensure (rp_negated rp = [] \<or> body \<noteq> []) NegationWithoutPositiveAtom)) (\<lambda>_.
     then_parse (Some (ensure (body \<noteq> [] \<or> aggregates \<noteq> []) NoBodyAtom)) (\<lambda>_.
     let positive_vars = atoms_vars body in
     then_parse (Some (parse_negated env positive_vars (rp_negated rp) anon)) (\<lambda>negated.
     then_parse (parse_bindings env (positive_vars @ map ag_output_var aggregates) (rp_bindings rp)) (\<lambda>(bindings, bound).
     then_parse (Some (try_each (check_head_expr bound) head_exprs)) (\<lambda>_.
       Some (Ok \<lparr>dr_head = head, dr_body = body, dr_filters = rp_filters rp, dr_aggregates = aggregates,
         dr_negated = negated, dr_head_exprs = head_exprs, dr_bindings = bindings\<rparr>))))))))"

definition rule_sides :: "string \<Rightarrow> parse_error + string \<times> string" where
  "rule_sides text =
     (let text = trim (trim_end_matches CHR ''.'' (trim text)) in
      map_ok (\<lambda>sep. (take sep text, trim (drop (sep + 2) text))) (ok_or (find_text '':-'' text) NoSeparator))"

definition parse_rule :: "'x parser_env_scheme \<Rightarrow> string \<Rightarrow> datalog_rule parse" where
  "parse_rule env text =
     then_parse (Some (rule_sides text)) (\<lambda>(head_str, body_str).
     then_parse (Some (case expand_disjunction body_str of
         Inr alternatives \<Rightarrow> ensure (length alternatives \<le> 1) (BodyHasAlternatives (length alternatives))
       | Inl _ \<Rightarrow> Ok ())) (\<lambda>_.
     then_parse (parse_head env (trim head_str)) (\<lambda>(head, head_exprs).
     then_parse (Some (split_top_level body_str CHR '','')) (\<lambda>body_parts.
     then_parse (Some (ensure (body_parts \<noteq> []) EmptyBody)) (\<lambda>_.
       parse_body env head head_exprs body_parts)))))"

fun parse_each :: "'x parser_env_scheme \<Rightarrow> string \<Rightarrow> string list \<Rightarrow> datalog_rule list parse" where
  "parse_each env head_str [] = Some (Ok [])"
| "parse_each env head_str (body # rest) =
     then_parse (parse_rule env (head_str @ '' :- '' @ body @ ''.'')) (\<lambda>rule.
       then_parse (parse_each env head_str rest) (\<lambda>rules. Some (Ok (rule # rules))))"

definition parse_rules :: "'x parser_env_scheme \<Rightarrow> string \<Rightarrow> datalog_rule list parse" where
  "parse_rules env text =
     then_parse (Some (rule_sides text)) (\<lambda>(head_str, body_str).
     then_parse (Some (expand_disjunction body_str)) (\<lambda>bodies.
     then_parse (Some (ensure (length bodies \<le> MAX_RULE_ALTERNATIVES) (TooManyAlternatives (length bodies)))) (\<lambda>_.
       parse_each env head_str bodies)))"

section \<open>What a parsed rule satisfies\<close>

text \<open>Each binding names a new variable and computes it from what is bound before it.\<close>

fun bindings_scoped :: "string set \<Rightarrow> rule_binding list \<Rightarrow> bool" where
  "bindings_scoped bound [] = True"
| "bindings_scoped bound (rb # rest) =
     (rb_var rb \<notin> bound \<and> set (collect_expr_vars (rb_expr rb)) \<subseteq> bound \<and> bindings_scoped (insert (rb_var rb) bound) rest)"

fun param_fits :: "aggregate_kind \<Rightarrow> dl_term option \<Rightarrow> bool" where
  "param_fits Percentile (Some (ConstFloat (Fin p))) = (0 \<le> p \<and> p \<le> 1)"
| "param_fits GroupConcat (Some (ConstStr _)) = True"
| "param_fits kind None = (\<not> needs_param kind)"
| "param_fits _ _ = False"

text \<open>
  A well-formed aggregate of a rule whose head and plain body atoms use the variables \<open>outer\<close>: it folds a variable that
  one of its atoms binds, into another one, and groups by exactly the other variables it shares with the rule.
\<close>

definition aggregate_wf :: "string set \<Rightarrow> aggregate \<Rightarrow> bool" where
  "aggregate_wf outer agg \<longleftrightarrow>
     (let vars = set (atoms_vars (inner_atoms agg)) in
      param_fits (ag_kind agg) (ag_param agg) \<and>
      (case ag_value_var agg of
         None \<Rightarrow> ag_kind agg = Count
       | Some v \<Rightarrow> ag_kind agg \<noteq> Count \<and> v \<in> vars \<and> v \<noteq> ag_output_var agg) \<and>
      distinct (ag_group_vars agg) \<and> set (ag_group_vars agg) = vars \<inter> outer - set_option (ag_value_var agg))"

definition bound_vars :: "datalog_rule \<Rightarrow> string set" where
  "bound_vars r = set (atoms_vars (dr_body r)) \<union> ag_output_var ` set (dr_aggregates r)"

definition rule_safe :: "datalog_rule \<Rightarrow> bool" where
  "rule_safe r \<longleftrightarrow>
     (dr_body r \<noteq> [] \<or> dr_aggregates r \<noteq> []) \<and> (dr_negated r \<noteq> [] \<longrightarrow> dr_body r \<noteq> []) \<and>
     (\<forall>a \<in> set (dr_negated r). atom_vars a \<subseteq> body_vars (dr_body r)) \<and>
     bindings_scoped (bound_vars r) (dr_bindings r) \<and>
     (\<forall>he \<in> set (dr_head_exprs r). set (collect_expr_vars (he_expr he)) \<subseteq> bound_vars r \<union> rb_var ` set (dr_bindings r)) \<and>
     (\<exists>plain. set plain \<subseteq> set (dr_body r) \<and>
        (\<forall>agg \<in> set (dr_aggregates r). aggregate_wf (set (var_names (at_args (dr_head r)) @ atoms_vars plain)) agg))"

lemma set_var_names: "set (var_names ts) = {n. Var n \<in> set ts}"
  by (induction ts rule: var_names.induct) auto

lemma set_atoms_vars: "set (atoms_vars atoms) = (\<Union>a \<in> set atoms. {n. Var n \<in> set (at_args a)})"
  by (simp add: atoms_vars_def set_var_names)

lemma atom_vars_eq: "atom_vars a = {n. Var n \<in> set (at_args a) \<and> \<not> is_anon n}"
proof -
  have "n \<in> named t \<longleftrightarrow> t = Var n \<and> \<not> is_anon n" for n t by (cases t) auto
  then show ?thesis by (auto simp: atom_vars_def)
qed

lemma body_vars_eq: "body_vars body = {n \<in> set (atoms_vars body). \<not> is_anon n}"
  by (auto simp: body_vars_def atom_vars_eq set_atoms_vars)

lemma parse_negated_safe:
  "parse_negated env positive parts anon = Ok negated \<Longrightarrow> a \<in> set negated \<Longrightarrow>
    {n. Var n \<in> set (at_args a) \<and> \<not> is_anon n} \<subseteq> set positive"
proof (induction parts arbitrary: anon negated)
  case (Cons part rest)
  from Cons.prems(1) obtain b anon' negs where b: "parse_atom env part anon = Ok (b, anon')"
    "\<forall>n \<in> set (var_names (at_args b)). is_anon n \<or> n \<in> set positive"
    "parse_negated env positive rest anon' = Ok negs" "negated = b # negs"
    by (auto simp: Let_def filter_empty_conv split: prod.splits)
  show ?case
  proof (cases "a = b")
    case True
    then show ?thesis using b(2) by (auto simp: set_var_names)
  next
    case False
    then show ?thesis using Cons.IH [OF b(3)] Cons.prems(2) b(4) by simp
  qed
qed simp

lemma parse_bindings_scoped:
  "parse_bindings env bound parts = Some (Ok (bindings, bound')) \<Longrightarrow>
    bindings_scoped (set bound) bindings \<and> set bound' = set bound \<union> rb_var ` set bindings"
proof (induction env bound parts arbitrary: bindings rule: parse_bindings.induct)
  case (2 env bound part rest)
  from "2.prems" obtain lhs rhs where [simp]: "split_assignment part = Some (lhs, rhs)" by (auto split: option.splits)
  from "2.prems" obtain e bs where
    e: "trim lhs \<notin> set bound" "filter (\<lambda>v. v \<notin> set bound) (collect_expr_vars e) = []"
       "parse_head_expr env rhs = Ok e"
    and rest: "parse_bindings env (trim lhs # bound) rest = Some (Ok (bs, bound'))"
    and bindings: "bindings = \<lparr>rb_var = trim lhs, rb_expr = e\<rparr> # bs"
    by (auto simp: Let_def split: prod.splits)
  have "bindings_scoped (set (trim lhs # bound)) bs \<and> set bound' = set (trim lhs # bound) \<union> rb_var ` set bs"
    using "2.IH" "2.prems" rest e by (auto simp: Let_def)
  then show ?case using e bindings by (auto simp: filter_empty_conv)
qed simp

lemma group_vars_of_spec:
  "distinct (group_vars_of outer value_var atoms) \<and>
    set (group_vars_of outer value_var atoms) = set (atoms_vars atoms) \<inter> set outer - set_option value_var"
proof -
  let ?add = "\<lambda>name gs. if name \<in> set outer \<and> name \<notin> set gs \<and> value_var \<noteq> Some name then gs @ [name] else gs"
  have "distinct gs \<Longrightarrow> distinct (fold ?add names gs) \<and>
      set (fold ?add names gs) = set gs \<union> (set names \<inter> set outer - set_option value_var)" for names gs
  proof (induction names arbitrary: gs)
    case (Cons name names)
    then have "distinct (?add name gs)" by simp
    from Cons.IH [OF this] show ?case by (auto split: if_splits)
  qed simp
  from this [of "[]" "atoms_vars atoms"] show ?thesis by (simp add: group_vars_of_def)
qed

lemma parse_param_fits: "parse_param env kind parts = Ok p \<Longrightarrow> param_fits kind p"
  by (cases kind) (auto simp: parse_param_def needs_param_def Let_def split: if_splits dl_term.splits elim!: in_unit_interval.elims)

lemma split_value_kind:
  "split_value s kind parts = Ok (v, atom_parts) \<Longrightarrow>
    (v = None \<longleftrightarrow> kind = Count) \<and> (2 \<le> length parts \<longrightarrow> (kind \<noteq> Count \<longrightarrow> 3 \<le> length parts) \<longrightarrow>
      (needs_param kind \<longrightarrow> 4 \<le> length parts) \<longrightarrow> atom_parts \<noteq> [])"
  by (auto simp: split_value_def needs_value_var_def Let_def split: if_splits)

lemma finish_aggregate_wf:
  assumes "finish_aggregate env s outer kind parts = Some (Ok (Some agg))"
  shows "aggregate_wf (set outer) agg"
proof -
  obtain param v ap parsed where
    parts: "parse_param env kind parts = Ok param" "split_value s kind parts = Ok (v, ap)"
    and rest: "assemble_aggregate s outer kind param (trim (last parts)) v parsed = Some (Ok (Some agg))"
    using assms by (auto simp: finish_aggregate_def Let_def)
  from rest obtain atoms where atoms: "parsed = Some atoms" "atoms \<noteq> []" "check_value s v (trim (last parts)) atoms = Ok ()"
    by (auto simp: assemble_aggregate_def split: option.splits if_splits)
  then have inner: "inner_atoms agg = atoms"
    using rest by (cases atoms) (auto simp: assemble_aggregate_def inner_atoms_def split: if_splits)
  have fields: "ag_kind agg = kind" "ag_param agg = param" "ag_value_var agg = v" "ag_output_var agg = trim (last parts)"
    "ag_group_vars agg = group_vars_of outer v atoms"
    using rest atoms by (auto simp: assemble_aggregate_def)
  have "case v of None \<Rightarrow> kind = Count | Some w \<Rightarrow> kind \<noteq> Count \<and> w \<in> set (atoms_vars atoms) \<and> w \<noteq> trim (last parts)"
    using atoms(3) split_value_kind [OF parts(2)]
    by (cases v) (auto simp: check_value_def set_atoms_vars list_ex_iff)
  then show ?thesis
    using parse_param_fits [OF parts(1)] group_vars_of_spec [of outer v atoms]
    unfolding aggregate_wf_def Let_def fields inner by simp
qed

lemma parse_aggregate_wf: "parse_aggregate env s outer = Some (Ok (Some agg)) \<Longrightarrow> aggregate_wf (set outer) agg"
  by (auto simp: parse_aggregate_def Let_def finish_aggregate_wf split: option.splits if_splits)

lemma parse_aggregates_wf:
  "parse_aggregates env outer parts body aggs anon = Some (Ok (body', aggs', anon')) \<Longrightarrow>
    \<forall>agg \<in> set aggs. aggregate_wf (set outer) agg \<Longrightarrow>
    set body \<subseteq> set body' \<and> (\<forall>agg \<in> set aggs'. aggregate_wf (set outer) agg)"
proof (induction env outer parts body aggs anon rule: parse_aggregates.induct)
  case (2 env outer part rest body aggs anon)
  from "2.prems"(1) obtain parsed where parsed: "parse_aggregate env part outer = Some (Ok parsed)" by auto
  show ?case
  proof (cases parsed)
    case None
    with "2.prems"(1) parsed obtain a n where a: "parse_atom env part anon = Ok (a, n)"
      "parse_aggregates env outer rest (body @ [a]) aggs n = Some (Ok (body', aggs', anon'))" by auto
    from "2.IH"(1) [OF a(2) "2.prems"(2)] show ?thesis by auto
  next
    case (Some agg)
    with "2.prems"(1) parsed have "parse_aggregates env outer rest body (aggs @ [agg]) anon = Some (Ok (body', aggs', anon'))" by simp
    from "2.IH"(2) [OF this] "2.prems"(2) parse_aggregate_wf [of env part outer agg] parsed Some show ?thesis by auto
  qed
qed simp

section \<open>Where the parser can panic\<close>

lemma starts_with_append: "starts_with s (t @ u) \<longleftrightarrow> starts_with s t \<and> starts_with (drop (length t) s) u"
  by (induction s t rule: starts_with.induct) auto

lemma strip_keyword: "starts_with s (t @ u) \<Longrightarrow> Option.bind (strip_prefix t s) (strip_prefix u) \<noteq> None"
  by (simp add: strip_prefix_def starts_with_append)

lemma parse_inner_atoms_some:
  "parse_inner_atoms env s i anon atoms parts = Ok (Some out) \<Longrightarrow> atoms \<noteq> [] \<or> parts \<noteq> [] \<Longrightarrow> out \<noteq> []"
  by (induction env s i anon atoms parts rule: parse_inner_atoms.induct) (auto split: sum.splits if_splits)

lemma finish_aggregate_total:
  assumes "2 \<le> length parts"
  shows "finish_aggregate env s outer kind parts \<noteq> None"
proof
  assume "finish_aggregate env s outer kind parts = None"
  then obtain v ap parsed where sv: "split_value s kind parts = Ok (v, ap)" "kind \<noteq> Count \<Longrightarrow> 3 \<le> length parts"
      "needs_param kind \<Longrightarrow> 4 \<le> length parts" and "parse_inner_atoms env s 0 0 [] ap = Ok parsed" "parsed = Some []"
    by (auto simp: finish_aggregate_def assemble_aggregate_def Let_def needs_value_var_def not_less split: option.split_asm if_splits)
  then show False using parse_inner_atoms_some [of env s 0 0 "[]" ap "[]"] split_value_kind [OF sv(1)] assms by auto
qed

lemma aggregate_keyword_prefix: "aggregate_keyword_of s = Some kind \<Longrightarrow> starts_with s (aggregate_keyword kind @ ''('')"
  by (auto simp: aggregate_keyword_of_def split: if_splits)

lemma parse_aggregate_total: "parse_aggregate env s outer \<noteq> None"
proof
  assume "parse_aggregate env s outer = None"
  then show False
    using strip_keyword [OF aggregate_keyword_prefix [of "trim s"]]
    by (auto simp: parse_aggregate_def Let_def finish_aggregate_total split: option.splits if_splits)
qed

lemma parse_aggregates_total: "parse_aggregates env outer parts body aggs anon \<noteq> None"
  by (induction env outer parts body aggs anon rule: parse_aggregates.induct)
    (auto simp: parse_aggregate_total simp del: not_None_eq split: option.splits)

lemma classify_part_bindings:
  "classify_part env part rp = Ok rp' \<Longrightarrow> \<forall>p \<in> set (rp_bindings rp). split_assignment p \<noteq> None \<Longrightarrow>
    \<forall>p \<in> set (rp_bindings rp'). split_assignment p \<noteq> None"
  by (auto simp: classify_part_def Let_def split: option.splits if_splits)

lemma classify_parts_bindings:
  "classify_parts env parts rp = Ok rp' \<Longrightarrow> \<forall>p \<in> set (rp_bindings rp). split_assignment p \<noteq> None \<Longrightarrow>
    \<forall>p \<in> set (rp_bindings rp'). split_assignment p \<noteq> None"
proof (induction parts arbitrary: rp)
  case (Cons part rest)
  then obtain mid where "classify_part env part rp = Ok mid" "classify_parts env rest mid = Ok rp'" by auto
  then show ?case using Cons.IH classify_part_bindings Cons.prems(2) by blast
qed simp

lemma parse_bindings_total: "\<forall>p \<in> set parts. split_assignment p \<noteq> None \<Longrightarrow> parse_bindings env bound parts \<noteq> None"
proof (induction parts arbitrary: bound)
  case (Cons part rest)
  then show ?case by (auto simp: Let_def simp del: not_None_eq split: option.splits)
qed simp

lemma parse_body_total: "parse_body env head head_exprs body_parts \<noteq> None"
proof
  assume "parse_body env head head_exprs body_parts = None"
  then obtain rp bound where
    "classify_parts env body_parts
       \<lparr>rp_body = [], rp_filters = [], rp_aggregates = [], rp_negated = [], rp_bindings = [], rp_anon = 0\<rparr> = Ok rp"
    "parse_bindings env bound (rp_bindings rp) = None"
    by (auto simp: parse_body_def Let_def parse_aggregates_total)
  then show False using classify_parts_bindings [of env body_parts] parse_bindings_total [of "rp_bindings rp" env bound] by fastforce
qed

lemma find_char_Some: "find_char c s = Some i \<Longrightarrow> i < length s \<and> s ! i = c"
  by (induction c s arbitrary: i rule: find_char.induct) (auto split: if_splits)

lemma rfind_char_Some: "rfind_char c s = Some i \<Longrightarrow> i < length s \<and> s ! i = c"
  using find_char_Some [of c "rev s"] by (fastforce simp: rfind_char_def rev_nth)

text \<open>The first opening parenthesis comes after the last closing one.\<close>

definition head_inverted :: "string \<Rightarrow> bool" where
  "head_inverted head_str \<longleftrightarrow>
     (case (find_char CHR ''('' head_str, rfind_char CHR '')'' head_str) of
        (Some opn, Some close) \<Rightarrow> close < opn
      | _ \<Rightarrow> False)"

lemma parse_head_panics: "parse_head env head_str = None \<longleftrightarrow> head_inverted head_str"
proof (cases "find_char CHR ''('' head_str"; cases "rfind_char CHR '')'' head_str")
  fix i j assume *: "find_char CHR ''('' head_str = Some i" "rfind_char CHR '')'' head_str = Some j"
  then have "i < length head_str" "j < length head_str" "i \<noteq> j" using find_char_Some rfind_char_Some by fastforce+
  with * show ?thesis by (auto simp: parse_head_def head_inverted_def get_range_def)
qed (simp_all add: parse_head_def head_inverted_def)

lemma parse_body_safe:
  assumes "parse_body env head head_exprs body_parts = Some (Ok r)"
  shows "rule_safe r"
proof -
  from assms obtain rp :: rule_parts and body aggs anon negated bindings bound where
    aggs: "parse_aggregates env (var_names (at_args head) @ atoms_vars (rp_body rp)) (rp_aggregates rp) (rp_body rp) []
        (rp_anon rp) = Some (Ok (body, aggs, anon))"
    and some: "rp_negated rp = [] \<or> body \<noteq> []" "body \<noteq> [] \<or> aggs \<noteq> []"
    and neg: "parse_negated env (atoms_vars body) (rp_negated rp) anon = Ok negated"
    and bind: "parse_bindings env (atoms_vars body @ map ag_output_var aggs) (rp_bindings rp) = Some (Ok (bindings, bound))"
    and heads: "\<forall>he \<in> set head_exprs. check_head_expr bound he = Ok ()"
    and r: "r = \<lparr>dr_head = head, dr_body = body, dr_filters = rp_filters rp, dr_aggregates = aggs,
         dr_negated = negated, dr_head_exprs = head_exprs, dr_bindings = bindings\<rparr>"
    by (clarsimp simp: parse_body_def Let_def)
  have "atom_vars a \<subseteq> body_vars body" if "a \<in> set negated" for a
    using parse_negated_safe [OF neg that] by (auto simp: atom_vars_eq body_vars_eq)
  moreover have "negated \<noteq> [] \<Longrightarrow> body \<noteq> []" using some(1) neg by auto
  moreover have "set (collect_expr_vars (he_expr he)) \<subseteq> bound_vars r \<union> rb_var ` set bindings" if "he \<in> set head_exprs" for he
    using heads that parse_bindings_scoped [OF bind]
    by (auto simp: check_head_expr_def Let_def filter_empty_conv bound_vars_def r)
  moreover have "set (rp_body rp) \<subseteq> set body"
    "\<forall>agg \<in> set aggs. aggregate_wf (set (var_names (at_args head) @ atoms_vars (rp_body rp))) agg"
    using parse_aggregates_wf [OF aggs] by auto
  ultimately show ?thesis
    using some(2) parse_bindings_scoped [OF bind] unfolding rule_safe_def by (auto simp: r bound_vars_def)
qed

lemma parse_rule_safe: "parse_rule env text = Some (Ok r) \<Longrightarrow> rule_safe r"
  by (auto simp: parse_rule_def dest: parse_body_safe)

text \<open>C40. The rule parser never loses control and lets only safe rules through, whatever the expression grammar does. It
  panics only on a text whose head closes its last parenthesis before it opens its first one; a text it accepts has a
  positive atom or an aggregate, negates only atoms whose named variables a positive atom binds, computes bindings and
  head arguments only from what is bound before them, never rebinds a variable, and gives every aggregate a value
  variable that its own atoms bind and a parameter of the right kind and range.\<close>

theorem parsed_rules_are_safe:
  "case parse_rule env text of
     None \<Rightarrow> (\<exists>head_str body_str. rule_sides text = Ok (head_str, body_str) \<and> head_inverted (trim head_str))
   | Some (Inl e) \<Rightarrow> True
   | Some (Inr r) \<Rightarrow> rule_safe r"
proof (cases "parse_rule env text")
  case None
  then have "\<exists>head_str body_str. rule_sides text = Ok (head_str, body_str) \<and> head_inverted (trim head_str)"
    by (auto simp: parse_rule_def parse_head_panics parse_body_total)
  then show ?thesis using None by simp
next
  case (Some result)
  show ?thesis
  proof (cases result)
    case (Inr r)
    then have "rule_safe r" using Some parse_rule_safe by simp
    then show ?thesis using Some Inr by simp
  qed (simp add: Some)
qed

text \<open>A rule text can make the parser panic.\<close>

lemma inverted_head_panics: "parse_rule env '')p( :- q(X).'' = None"
  by code_simp

section \<open>Plain atoms and the name of a head\<close>

text \<open>An atom whose arguments are all named variables parses to itself and uses no anonymous variable.\<close>

definition plain_atom :: "string \<Rightarrow> atom option" where
  "plain_atom text =
     (let text = trim text in
      case (find_char CHR ''('' text, rfind_char CHR '')'' text) of
        (Some opn, Some close) \<Rightarrow>
          (case split_top_level (take (close - (opn + 1)) (drop (opn + 1) text)) CHR '','' of
             Inr parts \<Rightarrow>
               if opn < close \<and> trim (take opn text) \<noteq> [] \<and>
                  list_all (\<lambda>p. \<not> has_top_level_arith p \<and> starts_with_char is_ascii_uppercase (trim (trim p))) parts
               then Some \<lparr>at_predicate = trim (take opn text), at_args = map (\<lambda>p. Var (trim (trim p))) parts\<rparr> else None
           | Inl _ \<Rightarrow> None)
      | _ \<Rightarrow> None)"

lemma parse_term_var:
  assumes "starts_with_char is_ascii_uppercase (trim s)" "parse_uuid env (trim s) = None"
  shows "parse_term env s anon = (Var (trim s), anon)"
proof -
  obtain c r where s: "trim s = c # r" "is_ascii_uppercase c" using assms(1) by (auto simp: starts_with_char_def split: list.splits)
  have "\<not> is_ascii_uppercase CHR ''_''" "\<not> is_ascii_uppercase CHR ''n''" "\<not> is_ascii_uppercase quote" by code_simp+
  then have "c \<noteq> CHR ''_''" "c \<noteq> CHR ''n''" "c \<noteq> quote" using s(2) by auto
  then show ?thesis using assms s by (simp add: parse_term_def starts_with_char_def)
qed

lemma parse_args_vars:
  "list_all (\<lambda>p. \<not> has_top_level_arith p \<and> starts_with_char is_ascii_uppercase (trim (trim p))) parts \<Longrightarrow>
    \<forall>p \<in> set parts. parse_uuid env (trim (trim p)) = None \<Longrightarrow>
    parse_args env text parts anon = Ok (map (\<lambda>p. Var (trim (trim p))) parts, anon)"
  by (induction parts) (simp_all add: parse_term_var)

lemma parse_plain_atom:
  assumes "plain_atom text = Some a" "\<forall>v. Var v \<in> set (at_args a) \<longrightarrow> parse_uuid env v = None"
  shows "parse_atom env text anon = Ok (a, anon)"
proof -
  let ?text = "trim text"
  from assms(1) obtain opn close parts where shape: "find_char CHR ''('' ?text = Some opn" "rfind_char CHR '')'' ?text = Some close"
    "split_top_level (take (close - (opn + 1)) (drop (opn + 1) ?text)) CHR '','' = Ok parts" "opn < close" "trim (take opn ?text) \<noteq> []"
    "list_all (\<lambda>p. \<not> has_top_level_arith p \<and> starts_with_char is_ascii_uppercase (trim (trim p))) parts"
    "a = \<lparr>at_predicate = trim (take opn ?text), at_args = map (\<lambda>p. Var (trim (trim p))) parts\<rparr>"
    by (auto simp: plain_atom_def Let_def split: option.splits sum.splits if_splits)
  have "parse_args env ?text parts anon = Ok (map (\<lambda>p. Var (trim (trim p))) parts, anon)"
    using shape(6,7) assms(2) by (intro parse_args_vars) auto
  with shape show ?thesis by (simp add: parse_atom_def Let_def ensure_def del: and_then_eq_Ok)
qed

text \<open>The predicate of a head is what its text has before the first parenthesis.\<close>

definition head_name :: "string \<Rightarrow> string" where
  "head_name head_str =
     (case find_char CHR ''('' head_str of
        None \<Rightarrow> []
      | Some opn \<Rightarrow> trim (trim_start (trim (take opn head_str))))"

lemma whitespace_chars: "w \<in> set whitespace \<Longrightarrow> w \<noteq> [] \<and> CHR ''('' \<notin> set w \<and> CHR '')'' \<notin> set w"
  by (auto simp: whitespace_def)

lemma starts_with_stop: "c \<notin> set w \<Longrightarrow> starts_with (s @ c # t) w = starts_with s w"
  by (induction s w rule: starts_with.induct) auto

lemma find_cong: "(\<And>x. x \<in> set xs \<Longrightarrow> P x = Q x) \<Longrightarrow> List.find P xs = List.find Q xs"
  by (induction xs) auto

lemma prefix_len_stop: "\<forall>w \<in> set seqs. c \<notin> set w \<Longrightarrow> prefix_len seqs (s @ c # t) = prefix_len seqs s"
  unfolding prefix_len_def by (rule arg_cong [where f = "case_option 0 length"], rule find_cong) (simp add: starts_with_stop)

lemma prefix_len_bound: "prefix_len seqs s \<le> length s"
  by (auto simp: prefix_len_def find_Some_iff dest: starts_with_length split: option.splits)

lemma strip_seqs_stop:
  assumes "\<forall>w \<in> set seqs. c \<notin> set w"
  shows "strip_seqs seqs (s @ c # t) = strip_seqs seqs s @ c # t"
proof (induction s rule: length_induct)
  case (1 s)
  let ?k = "prefix_len seqs s"
  have k: "?k \<le> length s" by (rule prefix_len_bound)
  show ?case
  proof (cases "?k = 0")
    case True
    then show ?thesis by (subst (1 2) strip_seqs.simps) (simp add: prefix_len_stop [OF assms])
  next
    case False
    then have "strip_seqs seqs (s @ c # t) = strip_seqs seqs (drop ?k s @ c # t)"
      by (subst strip_seqs.simps) (use k in \<open>simp add: prefix_len_stop [OF assms]\<close>)
    also have "\<dots> = strip_seqs seqs (drop ?k s) @ c # t" using 1 False k by simp
    also have "strip_seqs seqs (drop ?k s) = strip_seqs seqs s"
      by (subst (2) strip_seqs.simps) (use False k in auto)
    finally show ?thesis .
  qed
qed

lemma trim_call: "trim (s @ CHR ''('' # t @ '')'') = trim_start s @ CHR ''('' # t @ '')''"
proof -
  have ws: "\<forall>w \<in> set whitespace. CHR ''('' \<notin> set w" "\<forall>w \<in> set (map rev whitespace). CHR '')'' \<notin> set w"
    using whitespace_chars by auto
  have "trim_start (s @ CHR ''('' # t @ '')'') = trim_start s @ CHR ''('' # t @ '')''"
    unfolding trim_start_def by (rule strip_seqs_stop [OF ws(1)])
  moreover have "trim_end (u @ '')'') = u @ '')''" for u
  proof -
    have "strip_seqs (map rev whitespace) ([] @ CHR '')'' # rev u) = strip_seqs (map rev whitespace) [] @ CHR '')'' # rev u"
      by (rule strip_seqs_stop [OF ws(2)])
    then show ?thesis by (simp add: trim_end_def strip_seqs.simps [of _ "[]"])
  qed
  from this [of "trim_start s @ CHR ''('' # t"] have "trim_end (trim_start s @ CHR ''('' # t @ '')'') = trim_start s @ CHR ''('' # t @ '')''"
    by simp
  ultimately show ?thesis by (simp add: trim_def)
qed

lemma strip_seqs_set: "set (strip_seqs seqs s) \<subseteq> set s"
proof (induction seqs s rule: strip_seqs.induct)
  case (1 seqs s)
  then show ?case using set_drop_subset [of "prefix_len seqs s" s] by (subst strip_seqs.simps) auto
qed

lemma trim_start_set: "set (trim_start s) \<subseteq> set s"
  unfolding trim_start_def by (rule strip_seqs_set)

lemma trim_set: "set (trim s) \<subseteq> set s"
  using strip_seqs_set [of "map rev whitespace" "rev (trim_start s)"] trim_start_set [of s] by (auto simp: trim_def trim_end_def)

lemma find_char_take: "find_char c s = Some i \<Longrightarrow> c \<notin> set (take i s)"
  by (induction c s arbitrary: i rule: find_char.induct) (auto split: if_splits)

lemma find_char_append: "c \<notin> set s \<Longrightarrow> find_char c (s @ c # t) = Some (length s)"
  by (induction s) auto

lemma find_char_None: "find_char c s = None \<longleftrightarrow> c \<notin> set s"
  by (induction c s rule: find_char.induct) auto

lemma rfind_char_None: "rfind_char c s = None \<longleftrightarrow> c \<notin> set s"
  by (simp add: rfind_char_def find_char_None)

lemma parse_atom_parens:
  assumes "parse_atom env text anon = Ok r"
  shows "CHR ''('' \<in> set text" "CHR '')'' \<in> set text"
proof -
  from assms have "find_char CHR ''('' (trim text) \<noteq> None" "rfind_char CHR '')'' (trim text) \<noteq> None"
    by (auto simp: parse_atom_def Let_def)
  then show "CHR ''('' \<in> set text" "CHR '')'' \<in> set text"
    using trim_set [of "text"] by (auto simp: find_char_None rfind_char_None simp del: not_None_eq)
qed

lemma parse_head_name:
  assumes "parse_head env head_str = Some (Ok (a, hes))"
  shows "at_predicate a = head_name head_str"
proof -
  have "find_char CHR ''('' head_str \<noteq> None \<and> rfind_char CHR '')'' head_str \<noteq> None"
  proof (rule ccontr)
    assume none: "\<not> ?thesis"
    then obtain n where "parse_atom env head_str 0 = Ok (a, n)"
      using assms by (auto simp: parse_head_def split: option.splits)
    from parse_atom_parens [OF this] none show False
      by (simp add: find_char_None rfind_char_None del: not_None_eq)
  qed
  then obtain opn close where opn: "find_char CHR ''('' head_str = Some opn" and close: "rfind_char CHR '')'' head_str = Some close" by auto
  let ?p = "trim (take opn head_str)"
  have free: "CHR ''('' \<notin> set (trim_start ?p)"
    using find_char_take [OF opn] trim_set trim_start_set by blast
  from assms opn close obtain rewritten n where "parse_atom env (?p @ ''('' @ join_strings '', '' rewritten @ '')'') 0 = Ok (a, n)"
    by (auto simp: parse_head_def split: option.splits)
  then show ?thesis
    using opn free by (auto simp: parse_atom_def Let_def trim_call find_char_append head_name_def)
qed

definition rule_name :: "string \<Rightarrow> string" where
  "rule_name text = (case rule_sides text of Inl _ \<Rightarrow> [] | Inr (head_str, _) \<Rightarrow> head_name (trim head_str))"

lemma parse_rule_name:
  assumes "parse_rule env text = Some (Ok r)"
  shows "at_predicate (dr_head r) = rule_name text"
proof -
  from assms obtain head_str body_str head hes parts where "rule_sides text = Ok (head_str, body_str)"
    and head: "parse_head env (trim head_str) = Some (Ok (head, hes))" and "parse_body env head hes parts = Some (Ok r)"
    by (auto simp: parse_rule_def)
  moreover from this(3) have "dr_head r = head" by (auto simp: parse_body_def Let_def)
  ultimately show ?thesis using parse_head_name [OF head] by (simp add: rule_name_def)
qed

section \<open>Rules made of plain atoms\<close>

text \<open>
  \<open>Uuid::parse_str\<close> reads the simple, hyphenated, braced and URN forms, the shortest of which has 32 characters. A rule
  made of atoms with short arguments therefore parses the same under every environment.
\<close>

definition uuid_texts_long :: "'x parser_env_scheme \<Rightarrow> bool" where
  "uuid_texts_long env \<longleftrightarrow> (\<forall>s. parse_uuid env s \<noteq> None \<longrightarrow> 32 \<le> length s)"

definition no_uuids :: parser_env where
  "no_uuids = \<lparr>parse_uuid = \<lambda>_. None, all_consuming_filter = \<lambda>_. None, all_consuming_expr = \<lambda>_. None\<rparr>"

definition plain_part :: "string \<Rightarrow> bool" where
  "plain_part part \<longleftrightarrow> split_assignment part = None \<and> \<not> is_boolean_filter_part part \<and> \<not> is_reserved_str_part part \<and>
     aggregate_keyword_of part = None \<and> \<not> has_top_level_cmp part"

definition short_args :: "string \<Rightarrow> bool" where
  "short_args text =
     (let text = trim text in
      case (find_char CHR ''('' text, rfind_char CHR '')'' text) of
        (Some opn, Some close) \<Rightarrow>
          (case split_top_level (take (close - (opn + 1)) (drop (opn + 1) text)) CHR '','' of
             Inr parts \<Rightarrow> list_all (\<lambda>p. length (trim (trim p)) < 32) parts
           | Inl _ \<Rightarrow> True)
      | _ \<Rightarrow> True)"

definition plain_head :: "string \<Rightarrow> bool" where
  "plain_head head_str =
     (case (find_char CHR ''('' head_str, rfind_char CHR '')'' head_str) of
        (Some opn, Some close) \<Rightarrow>
          (case get_range (opn + 1) close head_str of
             None \<Rightarrow> False
           | Some inner \<Rightarrow>
               (case split_top_level inner CHR '','' of
                  Inl _ \<Rightarrow> False
                | Inr parts \<Rightarrow> list_all (\<lambda>p. \<not> has_top_level_arith p \<and> \<not> looks_like_call p) parts \<and>
                    short_args (trim (take opn head_str) @ ''('' @ join_strings '', '' (map trim parts) @ '')'')))
      | _ \<Rightarrow> False)"

definition plain_rule :: "string \<Rightarrow> bool" where
  "plain_rule text =
     (case rule_sides text of
        Inl _ \<Rightarrow> False
      | Inr (head_str, body_str) \<Rightarrow> plain_head (trim head_str) \<and>
          (case split_top_level body_str CHR '','' of
             Inl _ \<Rightarrow> False
           | Inr parts \<Rightarrow> list_all (\<lambda>p. strip_not_prefix (trim p) = None \<and> plain_part (trim p) \<and> short_args (trim p)) parts))"

lemma parse_term_short:
  assumes "uuid_texts_long env" "length (trim s) < 32"
  shows "parse_term env s n = parse_term no_uuids s n"
proof -
  have "parse_uuid env (trim s) = None" using assms by (fastforce simp: uuid_texts_long_def)
  then show ?thesis by (simp add: parse_term_def no_uuids_def Let_def)
qed

lemma parse_args_short:
  "uuid_texts_long env \<Longrightarrow> list_all (\<lambda>p. length (trim (trim p)) < 32) parts \<Longrightarrow>
    parse_args env text parts n = parse_args no_uuids text parts n"
  by (induction parts arbitrary: n) (simp_all add: parse_term_short split_beta)

lemma parse_atom_short:
  assumes "uuid_texts_long env" "short_args text"
  shows "parse_atom env text n = parse_atom no_uuids text n"
proof -
  have "parse_args env (trim text) parts = parse_args no_uuids (trim text) parts"
    if "find_char CHR ''('' (trim text) = Some opn" "rfind_char CHR '')'' (trim text) = Some close"
      "split_top_level (take (close - (opn + 1)) (drop (opn + 1) (trim text))) CHR '','' = Ok parts" for opn close parts
    using assms that by (intro ext parse_args_short) (simp_all add: short_args_def)
  then show ?thesis by (auto simp: parse_atom_def Let_def and_then_def ok_or_def ensure_def split: option.splits sum.splits)
qed

lemma rewrite_head_plain:
  "list_all (\<lambda>p. \<not> has_top_level_arith p \<and> \<not> looks_like_call p) parts \<Longrightarrow>
    rewrite_head env k parts = Ok (map trim parts, [])"
  by (induction parts arbitrary: k) simp_all

lemma parse_head_plain:
  assumes "uuid_texts_long env" "plain_head h"
  shows "parse_head env h = parse_head no_uuids h"
proof -
  from assms(2) obtain opn close inner parts where shape: "find_char CHR ''('' h = Some opn" "rfind_char CHR '')'' h = Some close"
    "get_range (opn + 1) close h = Some inner" "split_top_level inner CHR '','' = Ok parts"
    "list_all (\<lambda>p. \<not> has_top_level_arith p \<and> \<not> looks_like_call p) parts"
    "short_args (trim (take opn h) @ ''('' @ join_strings '', '' (map trim parts) @ '')'')"
    by (auto simp: plain_head_def split: option.splits sum.splits)
  show ?thesis
    using shape(1-4) rewrite_head_plain [OF shape(5), of env 0] rewrite_head_plain [OF shape(5), of no_uuids 0]
      parse_atom_short [OF assms(1) shape(6), of 0]
    by (simp add: parse_head_def and_then_def)
qed

lemma classify_part_plain:
  assumes "uuid_texts_long env" "strip_not_prefix (trim p) = None" "plain_part (trim p)" "short_args (trim p)"
  shows "classify_part env p rp = map_ok (\<lambda>(a, n). rp\<lparr>rp_body := rp_body rp @ [a], rp_anon := n\<rparr>)
    (parse_atom no_uuids (trim p) (rp_anon rp))"
  using assms parse_atom_short [of env "trim p"] by (simp add: classify_part_def plain_part_def)

lemma no_uuids_long: "uuid_texts_long no_uuids"
  by (simp add: uuid_texts_long_def no_uuids_def)

lemma classify_parts_plain:
  assumes "uuid_texts_long env"
    and "list_all (\<lambda>p. strip_not_prefix (trim p) = None \<and> plain_part (trim p) \<and> short_args (trim p)) parts"
  shows "classify_parts env parts rp = classify_parts no_uuids parts rp \<and>
    (\<forall>rp'. classify_parts no_uuids parts rp = Ok rp' \<longrightarrow>
       rp_aggregates rp' = rp_aggregates rp \<and> rp_negated rp' = rp_negated rp \<and> rp_bindings rp' = rp_bindings rp)"
  using assms(2)
proof (induction parts arbitrary: rp)
  case (Cons p parts)
  note plain = classify_part_plain [OF assms(1), of p] classify_part_plain [OF no_uuids_long, of p]
  show ?case using Cons by (auto simp: plain and_then_def map_ok_def split: sum.splits)
qed simp

lemma parse_head_no_exprs: "plain_head h \<Longrightarrow> parse_head env h = Some (Ok (a, hes)) \<Longrightarrow> hes = []"
  by (auto simp: plain_head_def parse_head_def and_then_def map_ok_def rewrite_head_plain split: option.splits sum.splits)

lemma parse_body_plain:
  assumes "uuid_texts_long env"
    and "list_all (\<lambda>p. strip_not_prefix (trim p) = None \<and> plain_part (trim p) \<and> short_args (trim p)) parts"
  shows "parse_body env h [] parts = parse_body no_uuids h [] parts"
proof -
  let ?rp = "\<lparr>rp_body = [], rp_filters = [], rp_aggregates = [], rp_negated = [], rp_bindings = [], rp_anon = 0\<rparr>"
  note plain = classify_parts_plain [OF assms, of ?rp]
  show ?thesis
  proof (cases "classify_parts no_uuids parts ?rp")
    case (Inr rp)
    then have "rp_aggregates rp = []" "rp_negated rp = []" "rp_bindings rp = []" using plain by auto
    then show ?thesis using plain Inr by (simp add: parse_body_def)
  qed (use plain in \<open>simp add: parse_body_def\<close>)
qed

lemma parse_plain_rule:
  assumes "uuid_texts_long env" "plain_rule text"
  shows "parse_rule env text = parse_rule no_uuids text"
proof -
  from assms(2) obtain head_str body_str parts where shape: "rule_sides text = Ok (head_str, body_str)"
    "plain_head (trim head_str)" "split_top_level body_str CHR '','' = Ok parts"
    "list_all (\<lambda>p. strip_not_prefix (trim p) = None \<and> plain_part (trim p) \<and> short_args (trim p)) parts"
    by (cases "rule_sides text"; cases "split_top_level (snd (projr (rule_sides text))) CHR '',''")
      (auto simp: plain_rule_def)
  show ?thesis
    using shape(1,3) parse_head_plain [OF assms(1) shape(2)] parse_head_no_exprs [OF shape(2), of no_uuids]
      parse_body_plain [OF assms(1) shape(4)]
    by (auto simp: parse_rule_def then_parse_def split: option.splits sum.splits)
qed

end
