(* ===== verification/Datalog_Query.thy ===== *)
theory Datalog_Query
  imports Query_Store Rule_Parser
begin

text \<open>
  Rule queries over a session (\<open>datalog.rs\<close>: \<open>load_session_facts\<close>, \<open>edge_type_to_predicate\<close>, the built-in rules,
  \<open>load_effective_rule_entries\<close>, \<open>load_effective_rules\<close>, \<open>query_predicate\<close>; \<open>expert_system.rs\<close>: \<open>is_artifact_approved\<close>), over
  any storage with the operations of \<open>query_store_ops\<close>. The instant of the query and the time it took are arguments.
\<close>

section \<open>Runs\<close>

datatype 'e query_error = StorageError 'e | RuleError parse_error

type_synonym ('s, 'e, 'a) query_run = "'s \<Rightarrow> (('e query_error + 'a) \<times> 's) outcome"

definition ask :: "('s, 'e, 'a) store_call \<Rightarrow> ('s, 'e, 'a) query_run" where
  "ask call s = Some (case call s of (r, s') \<Rightarrow> (map_err StorageError r, s'))"

definition finish :: "'a \<Rightarrow> ('s, 'e, 'a) query_run" where
  "finish a s = Some (Ok a, s)"

definition parsed :: "'a parse \<Rightarrow> ('s, 'e, 'a) query_run" where
  "parsed p s = map_option (\<lambda>r. (map_err RuleError r, s)) p"

definition computed :: "'a outcome \<Rightarrow> ('s, 'e, 'a) query_run" where
  "computed r s = map_option (\<lambda>a. (Ok a, s)) r"

definition then_run :: "('s, 'e, 'a) query_run \<Rightarrow> ('a \<Rightarrow> ('s, 'e, 'b) query_run) \<Rightarrow> ('s, 'e, 'b) query_run" where
  "then_run m f s =
     (case m s of
        None \<Rightarrow> None
      | Some (Inl e, s') \<Rightarrow> Some (Inl e, s')
      | Some (Inr a, s') \<Rightarrow> f a s')"

section \<open>Session facts\<close>

definition edge_type_to_predicate :: "'x datalog_env_scheme \<Rightarrow> string \<Rightarrow> string" where
  "edge_type_to_predicate env edge_type =
     (if edge_type \<in> {''CO_OCCURS'', ''co_occurs''} then ''co_occurs''
      else if edge_type \<in> {''MENTIONED_IN'', ''mentioned_in''} then ''mentioned_in''
      else if edge_type \<in> {''FOLDED_INTO'', ''folded_into''} then ''folded_into''
      else if edge_type \<in> {''SUPERSEDES'', ''supersedes''} then ''supersedes''
      else to_lowercase env edge_type)"

type_synonym fact = "string \<times> dl_term list"

definition insert_all :: "fact list \<Rightarrow> fact_set \<Rightarrow> fact_set" where
  "insert_all fs F = fold (\<lambda>(p, args) G. snd (fs_insert G p args)) fs F"

fun state_predicate :: "memory_state \<Rightarrow> string" where
  "state_predicate MemActive = ''active''"
| "state_predicate MemDormant = ''dormant''"
| "state_predicate MemSilent = ''silent''"
| "state_predicate MemUnavailable = ''unavailable''"

definition entity_facts :: "entity_entry \<Rightarrow> fact list" where
  "entity_facts e =
     (let i = Const (ee_entity_id e) in
      [(''node'', [i]), (''confidence'', [i, ConstFloat (f64_of_bits (ee_confidence e))])] @
      map (\<lambda>tag. (''tag'', [i, ConstStr tag])) (ee_tags e) @
      [(state_predicate (ee_state e), [i]),
       (''node_label'', [i, ConstStr (ee_entity_type e)]),
       (''node_name'', [i, ConstStr (ee_entity_name e)]),
       (''instance_of'', [i, ConstStr (ee_entity_type e)])])"

definition edge_facts :: "'x datalog_env_scheme \<Rightarrow> uuid \<times> uuid \<times> string \<Rightarrow> fact list" where
  "edge_facts env e =
     (case e of (src, dst, edge_type) \<Rightarrow>
        let pred = edge_type_to_predicate env edge_type in
        [(pred, [Const src, Const dst]), (''edge'', [Const src, ConstStr pred, Const dst])])"

definition typed_edge_facts :: "typed_edge \<Rightarrow> fact list" where
  "typed_edge_facts e =
     [(ed_edge_type e, [Const (ed_src_id e), Const (ed_dst_id e)]),
      (''edge'', [Const (ed_src_id e), ConstStr (ed_edge_type e), Const (ed_dst_id e)])]"

definition warmth_fact :: "warmth_entry \<Rightarrow> fact" where
  "warmth_fact w = (''warmth'', [Const (we_entity_id w), ConstFloat (we_warmth w)])"

definition load_session_facts ::
  "'x datalog_env_scheme \<Rightarrow> ('s, 'e) query_store_ops \<Rightarrow> uuid \<Rightarrow> uuid \<Rightarrow> ('s, 'e, fact_set) query_run" where
  "load_session_facts env ops tenant sid =
     then_run (ask (entity_list_session ops tenant sid)) (\<lambda>entities.
     then_run (ask (edge_list_session ops tenant sid)) (\<lambda>edges.
     then_run (ask (typed_edge_list_session ops tenant sid)) (\<lambda>typed_edges.
     then_run (ask (warmth_list_session ops tenant sid)) (\<lambda>warmth_entries.
       finish (insert_all
         (concat (map entity_facts entities) @ concat (map (edge_facts env) edges) @
          concat (map typed_edge_facts typed_edges) @ map warmth_fact warmth_entries) fs_new)))))"

section \<open>Rules\<close>

definition BUILTIN_RULES_TEXT :: "string list" where
  \<open>BUILTIN_RULES_TEXT =
    [''related(X, Z) :- co_occurs(X, Y), co_occurs(Y, Z), X != Z.'',
     ''cluster(X, Y) :- related(X, Y), related(Y, X).'',
     ''reachable(X, Z) :- edge(X, _, Z).'',
     ''reachable(X, Z) :- reachable(X, Y), edge(Y, _, Z), X != Z.'',
     ''class_ancestor(C, P) :- subclass_of(C, P).'',
     ''class_ancestor(C, P) :- subclass_of(C, M), class_ancestor(M, P).'',
     ''isa(E, C) :- instance_of(E, C).'',
     ''isa(E, P) :- instance_of(E, C), class_ancestor(C, P).'',
     ''ancestor_part(X, Y) :- part_of(X, Y).'',
     ''ancestor_part(X, Z) :- part_of(X, Y), ancestor_part(Y, Z).'',
     ''current(X, X) :- active(X).'',
     ''stale(X, X) :- dormant(X).'',
     ''stale(X, X) :- silent(X).'',
     ''stale(X, X) :- unavailable(X).'',
     ''authoritative(X, X) :- confidence(X, S), S >= 0.8.'',
     ''authoritative(X, X) :- tag(X, "curated").'',
     ''authoritative(X, X) :- tag(X, "remembered").'',
     ''authoritative(X, X) :- tag(X, "skill").'',
     ''task_relevant(X, Y) :- depends_on(X, Y).'',
     ''task_relevant(X, Y) :- implements(X, Y).'',
     ''task_relevant(X, Y) :- uses(X, Y).'',
     ''task_relevant(X, Y) :- references(X, Y).'',
     ''task_relevant(X, Y) :- related_to(X, Y).'',
     ''bridge_memory(X, Z) :- task_relevant(X, Y), reachable(Y, Z), X != Z.'',
     ''bridge_memory(X, Z) :- task_relevant(X, Y), related(Y, Z), X != Z.'']\<close>

fun parse_builtins :: "'x parser_env_scheme \<Rightarrow> string list \<Rightarrow> datalog_rule list outcome" where
  "parse_builtins env [] = Some []"
| "parse_builtins env (text # rest) =
     (case parse_rule env text of
        None \<Rightarrow> None
      | Some (Inl _) \<Rightarrow> parse_builtins env rest
      | Some (Inr r) \<Rightarrow> map_option (\<lambda>rs. r # rs) (parse_builtins env rest))"

definition builtin_rules :: "'x parser_env_scheme \<Rightarrow> datalog_rule list outcome" where
  "builtin_rules env = parse_builtins env BUILTIN_RULES_TEXT"

fun builtin_entries :: "'x parser_env_scheme \<Rightarrow> uuid \<Rightarrow> instant \<Rightarrow> nat \<Rightarrow> string list \<Rightarrow> rule_entry list outcome" where
  "builtin_entries env tenant now nth_rule [] = Some []"
| "builtin_entries env tenant now nth_rule (rule_body # rest) =
     (case parse_rule env rule_body of
        None \<Rightarrow> None
      | Some (Inl _) \<Rightarrow> builtin_entries env tenant now (nth_rule + 1) rest
      | Some (Inr r) \<Rightarrow>
          let pred = at_predicate (dr_head r) in
          map_option (\<lambda>es.
            \<lparr>re_tenant_id = tenant, re_rule_id = ''builtin:'' @ pred @ '':'' @ decimal (nth_rule + 1), re_version = 0,
             re_name = ''builtin-'' @ pred @ ''-'' @ decimal (nth_rule + 1), re_family = pred, re_state = RuleActive,
             re_rule_body = rule_body, re_rule_weight = Fin 1, re_incremental = False, re_created_at = now,
             re_updated_at = now\<rparr> # es) (builtin_entries env tenant now (nth_rule + 1) rest))"

definition synthetic_builtin_rule_entries :: "'x parser_env_scheme \<Rightarrow> uuid \<Rightarrow> instant \<Rightarrow> rule_entry list outcome" where
  "synthetic_builtin_rule_entries env tenant now = builtin_entries env tenant now 0 BUILTIN_RULES_TEXT"

datatype rule_source = SourceBuiltin | SourceRegistry

record effective_rule_entry =
  er_source :: rule_source
  er_entry :: rule_entry

definition latest_approval ::
  "('s, 'e) query_store_ops \<Rightarrow> uuid \<Rightarrow> artifact_kind \<Rightarrow> string \<Rightarrow> ('s, 'e, approval_entry option) query_run" where
  "latest_approval ops tenant kind ref = ask (approval_latest ops tenant (artifact_kind_text kind) ref)"

definition approval_state ::
  "('s, 'e) query_store_ops \<Rightarrow> uuid \<Rightarrow> artifact_kind \<Rightarrow> string \<Rightarrow> ('s, 'e, approval_decision option) query_run" where
  "approval_state ops tenant kind ref = then_run (latest_approval ops tenant kind ref) (\<lambda>a. finish (map_option ap_decision a))"

definition is_artifact_approved ::
  "('s, 'e) query_store_ops \<Rightarrow> uuid \<Rightarrow> artifact_kind \<Rightarrow> string \<Rightarrow> ('s, 'e, bool) query_run" where
  "is_artifact_approved ops tenant kind ref =
     then_run (approval_state ops tenant kind ref) (\<lambda>st. finish (st = Some Approved))"

fun keep_approved :: "('s, 'e) query_store_ops \<Rightarrow> uuid \<Rightarrow> rule_entry list \<Rightarrow> ('s, 'e, effective_rule_entry list) query_run" where
  "keep_approved ops tenant [] = finish []"
| "keep_approved ops tenant (entry # rest) =
     then_run (is_artifact_approved ops tenant ArtRule (re_rule_id entry)) (\<lambda>approved.
     then_run (keep_approved ops tenant rest) (\<lambda>kept.
       finish (if approved then \<lparr>er_source = SourceRegistry, er_entry = entry\<rparr> # kept else kept)))"

definition load_effective_rule_entries ::
  "'x parser_env_scheme \<Rightarrow> ('s, 'e) query_store_ops \<Rightarrow> uuid \<Rightarrow> string option \<Rightarrow> instant
    \<Rightarrow> ('s, 'e, effective_rule_entry list) query_run" where
  "load_effective_rule_entries env ops tenant family now =
     (let family = (case family of Some v \<Rightarrow> if v \<noteq> [] \<and> v \<noteq> ''*'' then Some v else None | None \<Rightarrow> None) in
      then_run (computed (synthetic_builtin_rule_entries env tenant now)) (\<lambda>entries.
      let builtin = map (\<lambda>e. \<lparr>er_source = SourceBuiltin, er_entry = e\<rparr>)
        (filter (\<lambda>e. case family of None \<Rightarrow> True | Some v \<Rightarrow> re_family e = v) entries) in
      then_run (ask (case family of
          Some v \<Rightarrow> rule_list_family ops tenant v RuleActive
        | None \<Rightarrow> rule_list_active ops tenant RuleActive)) (\<lambda>rows.
      then_run (keep_approved ops tenant rows) (\<lambda>registry. finish (builtin @ registry)))))"

fun parse_entries :: "'x parser_env_scheme \<Rightarrow> effective_rule_entry list \<Rightarrow> datalog_rule list parse" where
  "parse_entries env [] = Some (Ok [])"
| "parse_entries env (entry # rest) =
     then_parse (parse_rules env (re_rule_body (er_entry entry))) (\<lambda>rules.
       then_parse (parse_entries env rest) (\<lambda>more_rules. Some (Ok (rules @ more_rules))))"

definition load_effective_rules ::
  "'x parser_env_scheme \<Rightarrow> ('s, 'e) query_store_ops \<Rightarrow> uuid \<Rightarrow> string option \<Rightarrow> instant
    \<Rightarrow> ('s, 'e, datalog_rule list) query_run" where
  "load_effective_rules env ops tenant family now =
     then_run (load_effective_rule_entries env ops tenant family now) (\<lambda>entries. parsed (parse_entries env entries))"

section \<open>Queries\<close>

record datalog_config =
  dc_max_iterations :: nat
  dc_max_facts :: nat

definition cache_key_of :: "'x datalog_env_scheme \<Rightarrow> string \<Rightarrow> uuid \<Rightarrow> string" where
  "cache_key_of env predicate sid = predicate @ '':'' @ uuid_text env sid"

text \<open>Everything up to the results, once the cache had nothing.\<close>

definition derive_results ::
  "'x datalog_env_scheme \<Rightarrow> 'y parser_env_scheme \<Rightarrow> ('s, 'e) query_store_ops \<Rightarrow> uuid \<Rightarrow> uuid \<Rightarrow> string \<Rightarrow> datalog_config
    \<Rightarrow> instant \<Rightarrow> ('s, 'e, derived_fact list) query_run" where
  "derive_results env penv ops tenant sid predicate config now =
     then_run (load_session_facts env ops tenant sid) (\<lambda>facts.
     then_run (load_effective_rules penv ops tenant (Some predicate) now) (\<lambda>rules.
     then_run (computed (evaluate env now rules facts (dc_max_iterations config) (dc_max_facts config))) (\<lambda>(_, derived).
       finish (filter (\<lambda>d. df_pred d = predicate) derived))))"

definition store_results ::
  "('s, 'e) query_store_ops \<Rightarrow> uuid \<Rightarrow> string \<Rightarrow> string \<Rightarrow> int \<Rightarrow> derived_fact list \<Rightarrow> ('s, 'e, derived_fact list) query_run" where
  "store_results ops tenant key predicate elapsed_ms results =
     (let cacheable = filter (\<lambda>f. \<not> rests_on_absence f) results in
      then_run (if cacheable \<noteq> [] then ask (derived_cache_put ops tenant key cacheable) else finish ()) (\<lambda>_.
      then_run (ask (heat_record ops tenant predicate False (Some elapsed_ms))) (\<lambda>_. finish results)))"

definition query_predicate ::
  "'x datalog_env_scheme \<Rightarrow> 'y parser_env_scheme \<Rightarrow> ('s, 'e) query_store_ops \<Rightarrow> uuid \<Rightarrow> uuid \<Rightarrow> string \<Rightarrow> datalog_config
    \<Rightarrow> instant \<Rightarrow> int \<Rightarrow> ('s, 'e, derived_fact list) query_run" where
  "query_predicate env penv ops tenant sid predicate config now elapsed_ms =
     (let key = cache_key_of env predicate sid in
      then_run (ask (derived_cache_get ops tenant key)) (\<lambda>cached.
        if cached \<noteq> [] then
          then_run (ask (heat_record ops tenant predicate True None)) (\<lambda>_. finish cached)
        else
          then_run (derive_results env penv ops tenant sid predicate config now)
            (store_results ops tenant key predicate elapsed_ms)))"

section \<open>Runs that only read\<close>

definition run_reads :: "('s \<Rightarrow> 'r) \<Rightarrow> ('s \<Rightarrow> string \<Rightarrow> derived_fact list) \<Rightarrow> ('s, 'e, 'a) query_run \<Rightarrow> bool" where
  "run_reads rows cache m \<longleftrightarrow>
     (\<forall>s r s'. m s = Some (r, s') \<longrightarrow> rows s' = rows s \<and> cache s' = cache s) \<and>
     (\<forall>s t. rows s = rows t \<longrightarrow> map_option fst (m s) = map_option fst (m t))"

lemma run_readsD:
  "run_reads rows cache m \<Longrightarrow> m s = Some (r, s') \<Longrightarrow> rows s' = rows s \<and> cache s' = cache s"
  "run_reads rows cache m \<Longrightarrow> rows s = rows t \<Longrightarrow> map_option fst (m s) = map_option fst (m t)"
  unfolding run_reads_def by blast+

named_theorems reading \<open>runs that only read\<close>

lemma ask_eq: "ask call s = Some (map_err StorageError (fst (call s)), snd (call s))"
  by (simp add: ask_def split_beta)

lemma run_reads_ask [reading]:
  assumes "reads_rows rows cache call"
  shows "run_reads rows cache (ask call)"
proof -
  have keep: "rows (snd (call s)) = rows s \<and> cache (snd (call s)) = cache s" for s
    using assms unfolding reads_rows_def by blast
  have same: "fst (call s) = fst (call t)" if "rows s = rows t" for s t
    using assms that unfolding reads_rows_def by blast
  show ?thesis unfolding run_reads_def ask_eq using keep same by (metis (mono_tags, lifting) fst_conv option.inject option.simps(9) snd_conv)
qed

lemma run_reads_finish [reading]: "run_reads rows cache (finish a)"
  by (simp add: run_reads_def finish_def)

lemma run_reads_parsed [reading]: "run_reads rows cache (parsed p)"
  by (auto simp: run_reads_def parsed_def option.map_comp comp_def)

lemma run_reads_computed [reading]: "run_reads rows cache (computed r)"
  by (auto simp: run_reads_def computed_def option.map_comp comp_def)

lemma run_reads_then [reading]:
  assumes m: "run_reads rows cache m" and f: "\<And>a. run_reads rows cache (f a)"
  shows "run_reads rows cache (then_run m f)"
  unfolding run_reads_def
proof (intro conjI allI impI)
  fix s r s' assume run: "then_run m f s = Some (r, s')"
  then obtain q u where q: "m s = Some (q, u)" by (auto simp: then_run_def split: option.splits)
  note run_readsD(1) [OF m q]
  moreover have "rows s' = rows u \<and> cache s' = cache u"
    using run q run_readsD(1) [OF f] by (cases q) (auto simp: then_run_def)
  ultimately show "rows s' = rows s" "cache s' = cache s" by simp_all
next
  fix s t assume rows: "rows s = rows t"
  note same = run_readsD(2) [OF m this]
  show "map_option fst (then_run m f s) = map_option fst (then_run m f t)"
  proof (cases "m s")
    case None
    then show ?thesis using same by (simp add: then_run_def)
  next
    case (Some p)
    obtain q u where p: "p = (q, u)" by (cases p)
    with Some same obtain v where v: "m t = Some (q, v)" by (cases "m t") auto
    have "rows u = rows v" using run_readsD(1) [OF m, of s q u] run_readsD(1) [OF m v] Some p rows by simp
    then show ?thesis using Some p v run_readsD(2) [OF f, of u v] by (cases q) (auto simp: then_run_def)
  qed
qed

lemma run_reads_same:
  assumes "run_reads rows cache m" "m s = Some (r, s')" "rows t = rows s"
  shows "\<exists>t'. m t = Some (r, t') \<and> rows t' = rows t \<and> cache t' = cache t"
proof -
  have same: "map_option fst (m t) = Some r" using assms unfolding run_reads_def by (metis option.simps(9) fst_conv)
  then obtain p where p: "m t = Some p" "fst p = r" by auto
  then have "m t = Some (r, snd p)" by (cases p) simp
  then show ?thesis using assms(1) unfolding run_reads_def by blast
qed

section \<open>What a query returns the second time\<close>

context query_store
begin

lemma load_session_facts_reads [reading]: "run_reads rows cache (load_session_facts env ops tenant sid)"
  unfolding load_session_facts_def by (intro reading lists_read)

lemma is_artifact_approved_reads [reading]: "run_reads rows cache (is_artifact_approved ops tenant kind ref)"
  unfolding is_artifact_approved_def approval_state_def latest_approval_def by (intro reading lists_read)

lemma keep_approved_reads [reading]: "run_reads rows cache (keep_approved ops tenant entries)"
  by (induction entries) (auto intro!: reading)

lemma load_effective_rules_reads [reading]: "run_reads rows cache (load_effective_rules penv ops tenant family now)"
  unfolding load_effective_rules_def load_effective_rule_entries_def Let_def
  by (auto intro!: reading lists_read split: option.splits)

lemma derive_results_reads: "run_reads rows cache (derive_results env penv ops tenant sid predicate config now)"
  unfolding derive_results_def by (auto intro!: reading split: prod.splits)

end

lemma then_run_Ok: "then_run m f s = Some (Ok b, s') \<longleftrightarrow> (\<exists>a u. m s = Some (Ok a, u) \<and> f a u = Some (Ok b, s'))"
  by (auto simp: then_run_def split: option.splits prod.splits sum.splits)

lemma ask_Ok: "ask call s = Some (Ok a, s') \<longleftrightarrow> call s = (Ok a, s')"
  by (auto simp: ask_def split_beta prod_eq_iff)

lemma finish_Ok: "finish a s = Some (r, s') \<longleftrightarrow> r = Ok a \<and> s' = s"
  by (auto simp: finish_def)

lemmas run_Ok = then_run_Ok ask_Ok finish_Ok

text \<open>What the cache holds after a query that found nothing in it.\<close>

definition cached_after :: "(derived_fact \<Rightarrow> derived_fact) \<Rightarrow> derived_fact list \<Rightarrow> derived_fact list" where
  "cached_after stored results = map stored (filter (\<lambda>f. \<not> rests_on_absence f) results)"

context query_store
begin

lemma store_results_cache:
  assumes "store_results ops tenant key predicate ms results s = Some (Ok out, s')" "cache s key = []"
  shows "out = results \<and> rows s' = rows s \<and> cache s' = (cache s)(key := cached_after stored results)"
proof -
  let ?c = "filter (\<lambda>f. \<not> rests_on_absence f) results"
  obtain u where u: "(if ?c \<noteq> [] then ask (derived_cache_put ops tenant key ?c) else finish ()) s = Some (Ok (), u)"
    and heat: "heat_record ops tenant predicate False (Some ms) u = (Ok (), s')" and out: "out = results"
    using assms(1) by (auto simp: store_results_def Let_def run_Ok)
  have "rows u = rows s \<and> cache u = (cache s)(key := cached_after stored results)"
  proof (cases "?c = []")
    case True
    then show ?thesis using u assms(2) by (auto simp: finish_Ok cached_after_def fun_eq_iff)
  next
    case False
    then show ?thesis using u put_cached [OF _ assms(2)] by (auto simp: ask_Ok cached_after_def)
  qed
  with heat_kept [OF heat] out show ?thesis by simp
qed

lemma query_fresh:
  assumes "query_predicate env penv ops tenant sid predicate config now ms s = Some (Ok fs, s')"
    and empty: "cache s (cache_key_of env predicate sid) = []"
  shows "\<exists>t t'. derive_results env penv ops tenant sid predicate config now t = Some (Ok fs, t') \<and> rows t = rows s"
    and "rows s' = rows s"
    and "cache s' = (cache s)(cache_key_of env predicate sid := cached_after stored fs)"
proof -
  let ?key = "cache_key_of env predicate sid"
  obtain cached t where get: "derived_cache_get ops tenant ?key s = (Ok cached, t)"
    using assms(1) by (auto simp: query_predicate_def Let_def run_Ok)
  from get_cached [OF this] empty have t: "cached = []" "rows t = rows s" "cache t = cache s" by auto
  with get assms(1) obtain results t' where
    derive: "derive_results env penv ops tenant sid predicate config now t = Some (Ok results, t')"
    and store: "store_results ops tenant ?key predicate ms results t' = Some (Ok fs, s')"
    by (auto simp: query_predicate_def Let_def run_Ok)
  note t' = run_readsD(1) [OF derive_results_reads derive]
  from store_results_cache [OF store] t t' empty have *: "fs = results" "rows s' = rows s"
    "cache s' = (cache s)(?key := cached_after stored fs)" by auto
  then show "\<exists>t t'. derive_results env penv ops tenant sid predicate config now t = Some (Ok fs, t') \<and> rows t = rows s"
    using derive t by blast
  show "rows s' = rows s" "cache s' = (cache s)(?key := cached_after stored fs)" using * by simp_all
qed

end

text \<open>A store whose cache and telemetry calls never fail.\<close>

locale reliable_store = query_store +
  assumes get_succeeds: "\<exists>fs s'. derived_cache_get ops tenant key s = (Ok fs, s')"
    and heat_succeeds: "\<exists>s'. heat_record ops tenant pred hit ms s = (Ok (), s')"
begin

lemma query_cached:
  assumes "cache s (cache_key_of env predicate sid) \<noteq> []"
  shows "\<exists>s'. query_predicate env penv ops tenant sid predicate config now ms s =
    Some (Ok (cache s (cache_key_of env predicate sid)), s')"
proof -
  obtain fs t where get: "derived_cache_get ops tenant (cache_key_of env predicate sid) s = (Ok fs, t)"
    using get_succeeds by blast
  from get_cached [OF get] have "fs = cache s (cache_key_of env predicate sid)" by simp
  moreover obtain u where "heat_record ops tenant predicate True None t = (Ok (), u)" using heat_succeeds by blast
  ultimately show ?thesis using get assms by (auto simp: query_predicate_def Let_def run_Ok)
qed

lemma query_again:
  assumes "query_predicate env penv ops tenant sid predicate config now ms s = Some (Ok fs, s1)"
    and "cache s (cache_key_of env predicate sid) = []"
  shows "\<exists>s2. query_predicate env penv ops tenant sid predicate config now ms' s1 =
    Some (Ok (if cached_after stored fs = [] then fs else cached_after stored fs), s2)"
proof (cases "cached_after stored fs = []")
  case False
  then show ?thesis using query_cached [of s1 env predicate sid] query_fresh(3) [OF assms] by simp
next
  case True
  let ?key = "cache_key_of env predicate sid"
  obtain t t' where derive: "derive_results env penv ops tenant sid predicate config now t = Some (Ok fs, t')" "rows t = rows s"
    using query_fresh(1) [OF assms] by blast
  obtain cached u where get: "derived_cache_get ops tenant ?key s1 = (Ok cached, u)" using get_succeeds by blast
  from get_cached [OF get] True query_fresh [OF assms] have u: "cached = []" "rows u = rows t" using derive(2) by auto
  from run_reads_same [OF derive_results_reads derive(1) u(2)] obtain u' where
    "derive_results env penv ops tenant sid predicate config now u = Some (Ok fs, u')" by blast
  moreover obtain v where "heat_record ops tenant predicate False (Some ms') u' = (Ok (), v)" using heat_succeeds by blast
  moreover have "filter (\<lambda>f. \<not> rests_on_absence f) fs = []" using True by (simp add: cached_after_def)
  ultimately show ?thesis
    using get u(1) True by (auto simp: query_predicate_def store_results_def Let_def run_Ok)
qed

end

interpretation mock: reliable_store mock_ops tenant mock_rows mock_cache "\<lambda>f. f" for tenant
  by unfold_locales (auto simp: mock_ops_def mock_defs)

section \<open>Where the answers come from\<close>

text \<open>The record of a derived fact keeps its predicate and the rendering of its first two arguments.\<close>

definition describes :: "'x datalog_env_scheme \<Rightarrow> derived_fact \<Rightarrow> fact \<Rightarrow> bool" where
  "describes env d f \<longleftrightarrow> df_pred d = fst f \<and> (df_src_id d, df_dst_id d) = extract_src_dst env (snd f)"

definition all_described :: "'x datalog_env_scheme \<Rightarrow> fact set \<Rightarrow> derived_fact list \<Rightarrow> bool" where
  "all_described env M ds \<longleftrightarrow> (\<forall>d \<in> set ds. \<exists>f \<in> M. describes env d f)"

lemma all_described_simps [simp]:
  "all_described env M []"
  "all_described env M (ds @ es) \<longleftrightarrow> all_described env M ds \<and> all_described env M es"
  by (auto simp: all_described_def)

lemma all_described_mono: "all_described env M ds \<Longrightarrow> M \<subseteq> N \<Longrightarrow> all_described env N ds"
  unfolding all_described_def by blast

lemma derived_of_describes: "describes env (derived_of env rule args steps) (at_predicate (dr_head rule), args)"
  by (simp add: describes_def derived_of_def split_beta Let_def)

lemma absorb_results_described:
  "all_described env M (snd st) \<Longrightarrow> head_facts rule results \<subseteq> M \<Longrightarrow>
    all_described env M (snd (absorb_results env F rule results st))"
proof (induction env F rule results st rule: absorb_results.induct)
  case (2 env F rule args steps rest D ds)
  then show ?case
    using derived_of_describes [of env rule args steps] by (auto simp: Let_def head_facts_def all_described_def)
qed simp

lemma run_rules_described:
  "run_rules env F rules st = Some st' \<Longrightarrow> one_step env rules F \<subseteq> M \<Longrightarrow> all_described env M (snd st) \<Longrightarrow>
    all_described env M (snd st')"
proof (induction rules arbitrary: st)
  case (Cons rule rules)
  then obtain results where results: "evaluate_rule env rule F = Some results"
    "run_rules env F rules (absorb_results env F rule results st) = Some st'" by (auto split: option.splits)
  moreover have "head_facts rule results \<subseteq> M" "one_step env rules F \<subseteq> M"
    using Cons.prems(2) results(1) by (auto simp: one_step_def)
  ultimately show ?case using Cons.IH absorb_results_described Cons.prems(3) by blast
qed simp

lemma stratum_loop_described:
  "stratum_loop env rules bi bf F ds = Some R \<Longrightarrow> plain_stratum rules \<Longrightarrow> within_model env rules N F \<Longrightarrow>
    all_described env (least_model env rules N) ds \<Longrightarrow> all_described env (least_model env rules N) (sr_derived R)"
proof (induction env rules bi bf F ds rule: stratum_loop.induct)
  case (2 env rules bi bf F ds)
  then obtain D ds' where run: "run_rules env F rules (fs_new, ds) = Some (D, ds')" by (auto split: option.splits)
  have "all_described env (least_model env rules N) ds'"
    using run_rules_described [OF run within_model_step(2) [OF "2.prems"(2,3)]] "2.prems"(4) by simp
  then show ?case
    using "2.IH" [OF run] "2.prems" run within_model_merge [OF "2.prems"(2,3) run] by (auto split: if_splits)
qed auto

lemma eval_strata_described:
  assumes "eval_strata env rules strata st = Some st'" "fs_wf (sr_facts st)"
    and "\<forall>idxs \<in> set strata. plain_stratum (map ((!) rules) idxs)"
    and "all_described env (stratified_model env rules strata (facts_of (sr_facts st))) (sr_derived st)"
  shows "all_described env (stratified_model env rules strata (facts_of (sr_facts st))) (sr_derived st')"
  using assms
proof (induction strata arbitrary: st)
  case (Cons idxs strata)
  let ?rs = "map ((!) rules) idxs" and ?L = "least_model env (map ((!) rules) idxs) (facts_of (sr_facts st))"
  let ?M = "stratified_model env rules strata ?L"
  obtain R where R: "evaluate_stratum env ?rs (sr_facts st) (sr_budget_iter st) (sr_budget_facts st) = Some R"
    using Cons.prems(1) by (auto split: option.splits)
  let ?mid = "R\<lparr>sr_derived := sr_derived st @ sr_derived R\<rparr>"
  note loop = R [unfolded evaluate_stratum_def]
  have plain: "plain_stratum ?rs" using Cons.prems(3) by simp
  have within: "within_model env ?rs (facts_of (sr_facts st)) (sr_facts R)"
    using stratum_loop_within [OF loop plain within_model_start [OF Cons.prems(2)]] .
  have "all_described env ?L (sr_derived R)"
    using stratum_loop_described [OF loop plain within_model_start [OF Cons.prems(2)]] by simp
  from all_described_mono [OF this stratified_model_above] have mid: "all_described env ?M (sr_derived ?mid)"
    using Cons.prems(4) by simp
  show ?case
  proof (cases "sr_budget_iter R = 0 \<or> sr_budget_facts R = 0")
    case True
    then show ?thesis using Cons.prems(1) R mid by simp
  next
    case False
    then have rest: "eval_strata env rules strata ?mid = Some st'" using Cons.prems(1) R by simp
    have facts: "facts_of (sr_facts ?mid) = ?L"
      using within_model_closed [OF plain within] stratum_loop_general [OF loop Cons.prems(2)] False by simp
    show ?thesis
      using Cons.IH [OF rest] within Cons.prems(3) mid unfolding facts by (simp add: within_model_def)
  qed
qed simp

lemma evaluate_described:
  assumes "list_all folds_nothing rules" "fs_wf F" "evaluate env now rules F bi bf = Some (F', ds)"
    and "stratify (map (\<lambda>r. stamp_clock r now) rules) = Some (Inr strata)"
  shows "all_described env (stratified_model env (map (\<lambda>r. stamp_clock r now) rules) strata (facts_of F)) ds"
proof -
  let ?rs = "map (\<lambda>r. stamp_clock r now) rules"
  obtain st where st: "eval_strata env ?rs strata (start_state F bi bf) = Some st" "sr_derived st = ds"
    using assms(3,4) by (auto simp: evaluate_def evaluate_at_def Let_def)
  have "\<forall>idxs \<in> set strata. plain_stratum (map ((!) ?rs) idxs)"
    using stratum_plain [OF stratify_well [OF assms(4)] stamped_shape(1) [OF assms(1)]] by blast
  from eval_strata_described [OF st(1) _ this] show ?thesis using assms(2) st(2) by (simp add: start_state_def)
qed

lemma stamp_keeps: "dr_head (stamp_clock r now) = dr_head r" "dr_body (stamp_clock r now) = dr_body r"
  "dr_negated (stamp_clock r now) = dr_negated r" "dr_aggregates (stamp_clock r now) = dr_aggregates r"
  by (simp_all add: stamp_clock_def)

lemma stamp_keeps_id: "format_rule_id (stamp_clock r now) = format_rule_id r"
  by (simp add: format_rule_id_def stamp_keeps)

lemma recorded_mono: "recorded rs d \<Longrightarrow> set rs \<subseteq> set rules \<Longrightarrow> recorded rules d"
  unfolding recorded_def by blast

lemma eval_strata_recorded:
  assumes "eval_strata env rules strata st = Some st'" "\<forall>r \<in> set rules. negation_guarded r"
    and "\<forall>idxs \<in> set strata. set (map ((!) rules) idxs) \<subseteq> set rules" "\<forall>d \<in> set (sr_derived st). recorded rules d"
  shows "\<forall>d \<in> set (sr_derived st'). recorded rules d"
  using assms
proof (induction strata arbitrary: st)
  case (Cons idxs strata)
  let ?rs = "map ((!) rules) idxs"
  obtain R where R: "evaluate_stratum env ?rs (sr_facts st) (sr_budget_iter st) (sr_budget_facts st) = Some R"
    using Cons.prems(1) by (auto split: option.splits)
  let ?mid = "R\<lparr>sr_derived := sr_derived st @ sr_derived R\<rparr>"
  have sub: "set ?rs \<subseteq> set rules" using Cons.prems(3) by simp
  then have "\<forall>r \<in> set ?rs. negation_guarded r" using Cons.prems(2) by blast
  from stratum_loop_recorded [OF R [unfolded evaluate_stratum_def] this]
  have "\<forall>d \<in> set (sr_derived ?mid). recorded rules d" using recorded_mono [OF _ sub] Cons.prems(4) by auto
  then show ?case using Cons R by (auto simp: Let_def split: if_splits)
qed simp

text \<open>
  Every derived fact was recorded for one of the rules as they were given: stamping the clock changes neither the
  identity of a rule nor its negated atoms.
\<close>

lemma evaluate_recorded:
  assumes "evaluate env now rules F bi bf = Some (F', ds)" "\<forall>r \<in> set rules. rule_safe r" "d \<in> set ds"
  shows "\<exists>r \<in> set rules. df_pred d = at_predicate (dr_head r) \<and> df_rule_id d = format_rule_id r \<and>
    rests_on_absence d = (dr_negated r \<noteq> [])"
proof -
  let ?rs = "map (\<lambda>r. stamp_clock r now) rules"
  from assms(1,3) obtain strata st where strata: "stratify ?rs = Some (Inr strata)"
    and st: "eval_strata env ?rs strata (start_state F bi bf) = Some st" "sr_derived st = ds"
    by (auto simp: evaluate_def evaluate_at_def Let_def split: option.splits sum.splits)
  have "\<forall>r \<in> set ?rs. negation_guarded r"
    using assms(2) by (auto simp: negation_guarded_def stamp_keeps rule_safe_def)
  moreover have "\<forall>idxs \<in> set strata. set (map ((!) ?rs) idxs) \<subseteq> set ?rs"
    using stratum_members [OF stratify_well [OF strata]] unfolding set_map [of "(!) ?rs"] by blast
  ultimately have "recorded ?rs d"
    using eval_strata_recorded [OF st(1)] st(2) assms(3) by (auto simp: start_state_def)
  then show ?thesis by (auto simp: recorded_def stamp_keeps stamp_keeps_id)
qed

section \<open>Rules that were loaded are safe\<close>

lemma parse_each_safe: "parse_each env head_str bodies = Some (Ok rules) \<Longrightarrow> \<forall>r \<in> set rules. rule_safe r"
proof (induction bodies arbitrary: rules)
  case (Cons body rest)
  then obtain r rs where "parse_rule env (head_str @ '' :- '' @ body @ ''.'') = Some (Ok r)"
    "parse_each env head_str rest = Some (Ok rs)" "rules = r # rs" by auto
  then show ?case using Cons.IH parse_rule_safe by auto
qed simp

lemma parse_entries_safe: "parse_entries env entries = Some (Ok rules) \<Longrightarrow> \<forall>r \<in> set rules. rule_safe r"
proof (induction entries arbitrary: rules)
  case (Cons entry rest)
  then obtain rs1 rs2 where "parse_rules env (re_rule_body (er_entry entry)) = Some (Ok rs1)"
    "parse_entries env rest = Some (Ok rs2)" "rules = rs1 @ rs2" by auto
  then show ?case using Cons.IH by (auto simp: parse_rules_def dest!: parse_each_safe)
qed simp

lemma parsed_Ok: "parsed p s = Some (Ok a, s') \<longleftrightarrow> p = Some (Ok a) \<and> s' = s"
  by (cases p) (auto simp: parsed_def)

lemma computed_Ok: "computed r s = Some (Ok a, s') \<longleftrightarrow> r = Some a \<and> s' = s"
  by (auto simp: computed_def)

lemma load_effective_rules_safe:
  "load_effective_rules env ops tenant family now s = Some (Ok rules, s') \<Longrightarrow> \<forall>r \<in> set rules. rule_safe r"
  unfolding load_effective_rules_def by (auto simp: run_Ok parsed_Ok dest: parse_entries_safe)

lemma insert_all_facts: "facts_of (insert_all fs F) = facts_of F \<union> set fs"
  by (induction fs arbitrary: F) (auto simp: insert_all_def facts_of_insert)

lemma insert_all_wf: "fs_wf F \<Longrightarrow> fs_wf (insert_all fs F)"
  by (induction fs arbitrary: F) (auto simp: insert_all_def fs_wf_insert)

lemma load_session_facts_wf: "load_session_facts env ops tenant sid s = Some (Ok F, s') \<Longrightarrow> fs_wf F"
  by (auto simp: load_session_facts_def run_Ok insert_all_wf)
context query_store
begin

lemma derive_results_evaluates:
  assumes "derive_results env penv ops tenant sid predicate config now t = Some (Ok fs, t')" "rows t = rows s"
    and "load_session_facts env ops tenant sid s = Some (Ok F, s1)"
    and "load_effective_rules penv ops tenant (Some predicate) now s = Some (Ok rules, s2)"
  shows "\<exists>F' ds. evaluate env now rules F (dc_max_iterations config) (dc_max_facts config) = Some (F', ds) \<and>
    fs = filter (\<lambda>d. df_pred d = predicate) ds"
proof -
  obtain u where u: "load_session_facts env ops tenant sid t = Some (Ok F, u)" "rows u = rows s"
    using run_reads_same [OF load_session_facts_reads assms(3,2)] assms(2) by auto
  obtain v where "load_effective_rules penv ops tenant (Some predicate) now u = Some (Ok rules, v)"
    using run_reads_same [OF load_effective_rules_reads assms(4) u(2)] by auto
  then show ?thesis using assms(1) u(1) by (auto simp: derive_results_def run_Ok computed_Ok)
qed

end

text \<open>C26. A query that finds nothing cached answers only with facts of the model: each answer has the predicate asked for, carries
  the rendered endpoints of a fact in the stratified model of the rules loaded for that predicate over the facts of the
  session, and names a loaded rule for that predicate, which negates something exactly if the answer rests on an absence.\<close>

theorem query_answers_from_the_model:
  assumes "query_predicate env penv mock_ops tenant sid predicate config now ms s = Some (Ok fs, s')"
    and "mock_cache s (cache_key_of env predicate sid) = []"
    and "load_session_facts env mock_ops tenant sid s = Some (Ok F, s1)"
    and "load_effective_rules penv mock_ops tenant (Some predicate) now s = Some (Ok rules, s2)"
    and "list_all folds_nothing rules"
  shows "\<forall>d \<in> set fs. df_pred d = predicate \<and>
    (\<exists>strata args. stratify (map (\<lambda>r. stamp_clock r now) rules) = Some (Inr strata) \<and>
       (predicate, args) \<in> stratified_model env (map (\<lambda>r. stamp_clock r now) rules) strata (facts_of F) \<and>
       (df_src_id d, df_dst_id d) = extract_src_dst env args) \<and>
    (\<exists>r \<in> set rules. predicate = at_predicate (dr_head r) \<and> df_rule_id d = format_rule_id r \<and>
       rests_on_absence d = (dr_negated r \<noteq> []))"
proof
  fix d assume d: "d \<in> set fs"
  obtain t t' where "derive_results env penv mock_ops tenant sid predicate config now t = Some (Ok fs, t')" "mock_rows t = mock_rows s"
    using mock.query_fresh(1) [OF assms(1,2)] by blast
  from mock.derive_results_evaluates [OF this assms(3,4)] obtain F' ds where
    ev: "evaluate env now rules F (dc_max_iterations config) (dc_max_facts config) = Some (F', ds)"
    and fs: "fs = filter (\<lambda>d. df_pred d = predicate) ds" by blast
  then have pred: "df_pred d = predicate" and ds: "d \<in> set ds" using d by auto
  from ev ds obtain strata where strata: "stratify (map (\<lambda>r. stamp_clock r now) rules) = Some (Inr strata)"
    by (auto simp: evaluate_def evaluate_at_def Let_def split: option.splits sum.splits)
  have "fs_wf F" using assms(3) by (rule load_session_facts_wf)
  from evaluate_described [OF assms(5) this ev strata] ds obtain f where
    "f \<in> stratified_model env (map (\<lambda>r. stamp_clock r now) rules) strata (facts_of F)" "describes env d f"
    by (auto simp: all_described_def)
  moreover from this obtain args where "f = (predicate, args)" using pred by (cases f) (auto simp: describes_def)
  moreover note evaluate_recorded [OF ev load_effective_rules_safe [OF assms(4)] ds]
  ultimately show "df_pred d = predicate \<and>
    (\<exists>strata args. stratify (map (\<lambda>r. stamp_clock r now) rules) = Some (Inr strata) \<and>
       (predicate, args) \<in> stratified_model env (map (\<lambda>r. stamp_clock r now) rules) strata (facts_of F) \<and>
       (df_src_id d, df_dst_id d) = extract_src_dst env args) \<and>
    (\<exists>r \<in> set rules. predicate = at_predicate (dr_head r) \<and> df_rule_id d = format_rule_id r \<and>
       rests_on_absence d = (dr_negated r \<noteq> []))"
    using pred strata by (auto simp: describes_def)
qed

text \<open>Asking again at the same instant, with no change to the rows, is answered from what the first query cached, and falls back to deriving only if it
  cached nothing: answers that rest on an absence are never cached, so once the first query had another answer they are
  missing from the second.\<close>

lemma repeated_query:
  assumes "query_predicate env penv mock_ops tenant sid predicate config now ms s = Some (Ok fs, s1)"
    and "mock_cache s (cache_key_of env predicate sid) = []"
    and "cacheable = filter (\<lambda>f. \<not> rests_on_absence f) fs"
  shows "mock_cache s1 = (mock_cache s)(cache_key_of env predicate sid := cacheable) \<and> mock_rows s1 = mock_rows s \<and>
    (\<exists>s2. query_predicate env penv mock_ops tenant sid predicate config now ms' s1 =
       Some (Ok (if cacheable = [] then fs else cacheable), s2))"
proof -
  have eq: "cached_after (\<lambda>f. f) fs = cacheable" by (simp add: cached_after_def assms(3))
  show ?thesis
    using mock.query_again [OF assms(1,2), of ms', unfolded eq] mock.query_fresh(2,3) [OF assms(1,2), unfolded eq] by blast
qed


section \<open>Answers that rest on an absence are never kept\<close>

text \<open>
  The states a store can be in: the cache starts empty; queries of any predicate, session and instant run, also ones that
  fail; in between anything may happen to the rows, cached facts may be removed (\<open>derived_cache_clear\<close>,
  \<open>derived_cache_delete_by_entity\<close>), and the consolidation of \<open>dream.rs\<close> may cache facts, which it filters by \<open>is_cacheable\<close>.
\<close>

inductive store_history :: "'x datalog_env_scheme \<Rightarrow> 'y parser_env_scheme \<Rightarrow> mock_storage \<Rightarrow> bool" for env penv where
  new_store: "(\<And>key. mock_cache s key = []) \<Longrightarrow> store_history env penv s"
| after_query: "store_history env penv s \<Longrightarrow>
    query_predicate env penv mock_ops tenant sid predicate config now ms s = Some (r, s') \<Longrightarrow> store_history env penv s'"
| after_write: "store_history env penv s \<Longrightarrow> 
    (\<And>key. set (mock_cache s' key) \<subseteq> set (mock_cache s key) \<union> {f. is_cacheable is_uuid f}) \<Longrightarrow> store_history env penv s'"

definition keeps_no_absence :: "mock_storage \<Rightarrow> bool" where
  "keeps_no_absence s \<longleftrightarrow> (\<forall>key. \<forall>f \<in> set (mock_cache s key). \<not> rests_on_absence f)"

lemma store_results_no_absence:
  assumes "store_results mock_ops tenant key predicate ms results s = Some (r, s')" "keeps_no_absence s"
  shows "keeps_no_absence s'"
proof -
  let ?c = "filter (\<lambda>f. \<not> rests_on_absence f) results"
  have "mock_cache s' = (if ?c = [] then mock_cache s else (mock_cache s)(key := ?c))"
    using assms(1)
    by (auto simp: store_results_def Let_def then_run_def ask_eq finish_def mock_ops_def mock_derived_cache_put_def mock_heat_record_def
        mock_cache_def fun_eq_iff split: if_splits)
  then show ?thesis using assms(2) by (auto simp: keeps_no_absence_def split: if_splits)
qed

lemma query_no_absence:
  assumes "query_predicate env penv mock_ops tenant sid predicate config now ms s = Some (r, s')" "keeps_no_absence s"
  shows "keeps_no_absence s'"
proof -
  let ?key = "cache_key_of env predicate sid"
  let ?t = "snd (mock_derived_cache_get tenant ?key s)"
  have t: "mock_cache ?t = mock_cache s" by (simp add: mock_derived_cache_get_def mock_cache_def fun_eq_iff)
  have get: "derived_cache_get mock_ops tenant ?key s = (Ok (mock_cache s ?key), ?t)"
    by (simp add: mock_ops_def mock_derived_cache_get_def)
  show ?thesis
  proof (cases "mock_cache s ?key = []")
    case False
    then have "then_run (ask (heat_record mock_ops tenant predicate True None)) (\<lambda>_. finish (mock_cache s ?key)) ?t = Some (r, s')"
      using assms(1) get by (simp add: query_predicate_def Let_def then_run_def ask_eq)
    then have "mock_cache s' = mock_cache ?t"
      by (auto simp: then_run_def ask_eq finish_def mock_ops_def mock_heat_record_def mock_cache_def fun_eq_iff)
    then show ?thesis using assms(2) t by (simp add: keeps_no_absence_def)
  next
    case True
    then have run: "then_run (derive_results env penv mock_ops tenant sid predicate config now)
        (store_results mock_ops tenant ?key predicate ms) ?t = Some (r, s')"
      using assms(1) get by (simp add: query_predicate_def Let_def then_run_def ask_eq)
    then obtain d u where d: "derive_results env penv mock_ops tenant sid predicate config now ?t = Some (d, u)"
      by (auto simp: then_run_def split: option.splits)
    from run_readsD(1) [OF mock.derive_results_reads d] t assms(2) have u: "keeps_no_absence u" by (simp add: keeps_no_absence_def)
    show ?thesis
      using run d u store_results_no_absence by (cases d) (auto simp: then_run_def)
  qed
qed

lemma history_no_absence: "store_history env penv s \<Longrightarrow> keeps_no_absence s"
proof (induction rule: store_history.induct)
  case (after_query s tenant sid predicate config now ms r s')
  then show ?case using query_no_absence by blast
next
  case (after_write s s' is_uuid)
  then show ?case unfolding keeps_no_absence_def is_cacheable_def by blast
qed (simp add: keeps_no_absence_def)

text \<open>C27. An answer that rests on an absence is never served stale: whatever queries and writes the store has seen, its cache holds no such
  fact, before and after a query; if a query returns one, then that query derived its answers itself, at its own instant
  from the rows as they are; and if all its answers are of this kind, nothing is cached for it, so that the next
  query of the same predicate and session derives again. The store is the in-memory one.\<close>

theorem absence_answers_are_live:
  assumes "store_history env penv s"
    and "query_predicate env penv mock_ops tenant sid predicate config now ms s = Some (Ok fs, s')"
  shows "(\<forall>key. \<forall>f \<in> set (mock_cache s' key). \<not> rests_on_absence f) \<and>
    ((\<exists>f \<in> set fs. rests_on_absence f) \<longrightarrow>
       (\<exists>t t'. mock_rows t = mock_rows s \<and> derive_results env penv mock_ops tenant sid predicate config now t = Some (Ok fs, t'))) \<and>
    (list_all rests_on_absence fs \<longrightarrow> mock_cache s' (cache_key_of env predicate sid) = [])"
proof -
  let ?key = "cache_key_of env predicate sid"
  have clean: "keeps_no_absence s" "keeps_no_absence s'"
    using history_no_absence [OF assms(1)] query_no_absence [OF assms(2)] by blast+
  show ?thesis
  proof (cases "mock_cache s ?key = []")
    case True
    note fresh = mock.query_fresh [OF assms(2) True]
    have "list_all rests_on_absence fs \<longrightarrow> mock_cache s' ?key = []"
      by (simp add: fresh(3) cached_after_def list_all_iff filter_empty_conv)
    then show ?thesis using clean(2) fresh(1) unfolding keeps_no_absence_def by blast
  next
    case False
    from mock.query_cached [OF False, where tenant = tenant and penv = penv and config = config and now = now and ms = ms] assms(2)
    have "fs = mock_cache s ?key" by auto
    then have "\<forall>f \<in> set fs. \<not> rests_on_absence f" "fs \<noteq> []" using clean(1) False by (auto simp: keeps_no_absence_def)
    then show ?thesis using clean(2) unfolding keeps_no_absence_def by (cases fs) auto
  qed
qed

end
