(* ===== verification/Query_Sample.thy ===== *)
theory Query_Sample
  imports Datalog_Query
begin

text \<open>
  A concrete session on which the query path is evaluated: two approved registry rules of one family, one of them with a
  negated atom, over two edges. The rule texts use only named variables, so they parse the same under every expression
  grammar.
\<close>

section \<open>The rule texts\<close>

definition direct_text :: string where "direct_text = ''live(X, Y) :- a(X, Y).''"
definition guarded_text :: string where "guarded_text = ''live(X, Y) :- b(X, Y), not c(X, Y).''"

definition xy_atom :: "string \<Rightarrow> atom" where
  "xy_atom p = \<lparr>at_predicate = p, at_args = [Var ''X'', Var ''Y'']\<rparr>"

definition direct_rule :: datalog_rule where
  "direct_rule = \<lparr>dr_head = xy_atom ''live'', dr_body = [xy_atom ''a''], dr_filters = [], dr_aggregates = [],
     dr_negated = [], dr_head_exprs = [], dr_bindings = []\<rparr>"

definition guarded_rule :: datalog_rule where
  "guarded_rule = \<lparr>dr_head = xy_atom ''live'', dr_body = [xy_atom ''b''], dr_filters = [], dr_aggregates = [],
     dr_negated = [xy_atom ''c''], dr_head_exprs = [], dr_bindings = []\<rparr>"

lemma direct_facts:
  "rule_sides direct_text = Ok (''live(X, Y) '', ''a(X, Y)'')"
  "rule_sides ''live(X, Y)  :- a(X, Y).'' = Ok (''live(X, Y)  '', ''a(X, Y)'')"
  "expand_disjunction ''a(X, Y)'' = Ok [''a(X, Y)'']"
  "split_top_level ''a(X, Y)'' CHR '','' = Ok [''a(X, Y)'']"
  "trim ''a(X, Y)'' = ''a(X, Y)''" "strip_not_prefix ''a(X, Y)'' = None" "plain_part ''a(X, Y)''"
  "plain_atom ''a(X, Y)'' = Some (xy_atom ''a'')"
  by code_simp+

lemma guarded_facts:
  "rule_sides guarded_text = Ok (''live(X, Y) '', ''b(X, Y), not c(X, Y)'')"
  "rule_sides ''live(X, Y)  :- b(X, Y), not c(X, Y).'' = Ok (''live(X, Y)  '', ''b(X, Y), not c(X, Y)'')"
  "expand_disjunction ''b(X, Y), not c(X, Y)'' = Ok [''b(X, Y), not c(X, Y)'']"
  "split_top_level ''b(X, Y), not c(X, Y)'' CHR '','' = Ok [''b(X, Y)'', '' not c(X, Y)'']"
  "trim ''b(X, Y)'' = ''b(X, Y)''" "strip_not_prefix ''b(X, Y)'' = None" "plain_part ''b(X, Y)''"
  "plain_atom ''b(X, Y)'' = Some (xy_atom ''b'')"
  "trim '' not c(X, Y)'' = ''not c(X, Y)''" "strip_not_prefix ''not c(X, Y)'' = Some ''c(X, Y)''"
  "plain_atom ''c(X, Y)'' = Some (xy_atom ''c'')"
  by code_simp+

lemma live_facts:
  "trim ''live(X, Y)  '' = ''live(X, Y)''" "trim ''live(X, Y) '' = ''live(X, Y)''"
  "find_char CHR ''('' ''live(X, Y)'' = Some 4" "rfind_char CHR '')'' ''live(X, Y)'' = Some 9"
  "get_range 5 9 ''live(X, Y)'' = Some ''X, Y''" "split_top_level ''X, Y'' CHR '','' = Ok [''X'', '' Y'']"
  "\<not> has_top_level_arith ''X''" "\<not> has_top_level_arith '' Y''" "\<not> looks_like_call ''X''" "\<not> looks_like_call '' Y''"
  "trim ''X'' = ''X''" "trim '' Y'' = ''Y''" "trim ''live'' = ''live''"
  "plain_atom ''live(X, Y)'' = Some (xy_atom ''live'')"
  by code_simp+

text \<open>Neither variable name is the text of an identifier.\<close>

definition names_free :: "'x parser_env_scheme \<Rightarrow> bool" where
  "names_free env \<longleftrightarrow> parse_uuid env ''X'' = None \<and> parse_uuid env ''Y'' = None"

lemma parse_xy: "names_free env \<Longrightarrow> plain_atom t = Some (xy_atom p) \<Longrightarrow> parse_atom env t n = Ok (xy_atom p, n)"
  by (rule parse_plain_atom) (auto simp: names_free_def xy_atom_def)

lemma parse_live_head:
  assumes "names_free env"
  shows "parse_head env ''live(X, Y)'' = Some (Ok (xy_atom ''live'', []))"
proof -
  have "rewrite_head env 0 [''X'', '' Y''] = Ok ([''X'', ''Y''], [])" by (simp add: live_facts)
  then show ?thesis
    using parse_xy [OF assms live_facts(14), of 0] by (simp add: parse_head_def live_facts del: and_then_eq_Ok map_ok_eq_Ok find_char.simps)
qed

lemma classify_plain:
  "trim part = t \<Longrightarrow> strip_not_prefix t = None \<Longrightarrow> plain_part t \<Longrightarrow> parse_atom env t (rp_anon rp) = Ok (a, n) \<Longrightarrow>
    classify_part env part rp = Ok (rp\<lparr>rp_body := rp_body rp @ [a], rp_anon := n\<rparr>)"
  by (simp add: classify_part_def plain_part_def)

lemma classify_negated:
  "trim part = t \<Longrightarrow> strip_not_prefix t = Some u \<Longrightarrow>
    classify_part env part rp = Ok (rp\<lparr>rp_negated := rp_negated rp @ [u]\<rparr>)"
  by (simp add: classify_part_def)

lemma parse_direct:
  assumes "names_free env"
  shows "parse_rules env direct_text = Some (Ok [direct_rule])"
proof -
  note xy = parse_xy [OF assms direct_facts(8)]
  have "parse_body env (xy_atom ''live'') [] [''a(X, Y)''] = Some (Ok direct_rule)"
    by (simp add: parse_body_def classify_plain [OF direct_facts(5-7) xy] direct_rule_def ensure_def)
  then have "parse_rule env ''live(X, Y)  :- a(X, Y).'' = Some (Ok direct_rule)"
    by (simp add: parse_rule_def direct_facts live_facts parse_live_head [OF assms] ensure_def)
  then show ?thesis by (simp add: parse_rules_def direct_facts ensure_def MAX_RULE_ALTERNATIVES_def)
qed

lemma parse_guarded:
  assumes "names_free env"
  shows "parse_rules env guarded_text = Some (Ok [guarded_rule])"
proof -
  note xy = parse_xy [OF assms guarded_facts(8)] parse_xy [OF assms guarded_facts(11)]
  have "filter (\<lambda>n. n \<notin> set (atoms_vars [xy_atom ''b''])) (filter (\<lambda>n. \<not> is_anon n) (var_names (at_args (xy_atom ''c'')))) = []"
    by (simp add: xy_atom_def atoms_vars_def)
  then have "parse_body env (xy_atom ''live'') [] [''b(X, Y)'', '' not c(X, Y)''] = Some (Ok guarded_rule)"
    by (simp add: parse_body_def classify_plain [OF guarded_facts(5-7) xy(1)] classify_negated [OF guarded_facts(9,10)]
        xy(2) guarded_rule_def ensure_def)
  then have "parse_rule env ''live(X, Y)  :- b(X, Y), not c(X, Y).'' = Some (Ok guarded_rule)"
    by (simp add: parse_rule_def guarded_facts live_facts parse_live_head [OF assms] ensure_def)
  then show ?thesis by (simp add: parse_rules_def guarded_facts ensure_def MAX_RULE_ALTERNATIVES_def)
qed

section \<open>The built-in rules by family\<close>

definition well_headed :: "string \<Rightarrow> bool" where
  "well_headed t \<longleftrightarrow> (case rule_sides t of Inl _ \<Rightarrow> True | Inr (head_str, _) \<Rightarrow> \<not> head_inverted (trim head_str))"

lemma well_headed_parses: "well_headed t \<Longrightarrow> parse_rule env t \<noteq> None"
  by (auto simp: well_headed_def parse_rule_def parse_head_panics parse_body_total simp del: not_None_eq)

lemma builtin_entries_total: "list_all well_headed texts \<Longrightarrow> \<exists>es. builtin_entries env tenant now k texts = Some es"
proof (induction texts arbitrary: k)
  case (Cons t texts)
  then have "parse_rule env t \<noteq> None" by (intro well_headed_parses) simp
  then obtain res where "parse_rule env t = Some res" by auto
  then show ?case using Cons.IH [of "k + 1"] Cons.prems by (cases res) (auto simp: Let_def)
qed simp

lemma builtin_entries_family:
  "builtin_entries env tenant now k texts = Some es \<Longrightarrow> \<forall>e \<in> set es. re_rule_body e \<in> set texts \<and> re_family e = rule_name (re_rule_body e)"
proof (induction texts arbitrary: k es)
  case (Cons t texts)
  then obtain res where res: "parse_rule env t = Some res" by (auto split: option.splits)
  show ?case
  proof (cases res)
    case (Inl e)
    then show ?thesis using Cons res by auto
  next
    case (Inr r)
    then show ?thesis using Cons res parse_rule_name [of env t r] by (auto simp: Let_def)
  qed
qed simp

definition outside_live :: "string \<Rightarrow> bool" where
  "outside_live t \<longleftrightarrow> well_headed t \<and> rule_name t \<noteq> ''live''"

lemma outside_live_1: "list_all outside_live (take 5 BUILTIN_RULES_TEXT)" by code_simp
lemma outside_live_2: "list_all outside_live (take 5 (drop 5 BUILTIN_RULES_TEXT))" by code_simp
lemma outside_live_3: "list_all outside_live (take 5 (drop 10 BUILTIN_RULES_TEXT))" by code_simp
lemma outside_live_4: "list_all outside_live (take 5 (drop 15 BUILTIN_RULES_TEXT))" by code_simp
lemma outside_live_5: "list_all outside_live (drop 20 BUILTIN_RULES_TEXT)" by code_simp

lemma builtin_texts:
  "list_all well_headed BUILTIN_RULES_TEXT" "list_all (\<lambda>t. rule_name t \<noteq> ''live'') BUILTIN_RULES_TEXT"
proof -
  have "BUILTIN_RULES_TEXT = take 5 BUILTIN_RULES_TEXT @ take 5 (drop 5 BUILTIN_RULES_TEXT) @ take 5 (drop 10 BUILTIN_RULES_TEXT) @
      take 5 (drop 15 BUILTIN_RULES_TEXT) @ drop 20 BUILTIN_RULES_TEXT"
    by (simp add: BUILTIN_RULES_TEXT_def)
  then have "list_all outside_live BUILTIN_RULES_TEXT"
    using outside_live_1 outside_live_2 outside_live_3 outside_live_4 outside_live_5 list_all_append by metis
  then show "list_all well_headed BUILTIN_RULES_TEXT" "list_all (\<lambda>t. rule_name t \<noteq> ''live'') BUILTIN_RULES_TEXT"
    by (simp_all add: list_all_iff outside_live_def)
qed

lemma no_builtin_live:
  "\<exists>es. synthetic_builtin_rule_entries env tenant now = Some es \<and> filter (\<lambda>e. re_family e = ''live'') es = []"
proof -
  obtain es where es: "synthetic_builtin_rule_entries env tenant now = Some es"
    using builtin_entries_total [OF builtin_texts(1)] unfolding synthetic_builtin_rule_entries_def by blast
  then show ?thesis
    using builtin_entries_family [of env tenant now 0 BUILTIN_RULES_TEXT es] builtin_texts(2)
    by (auto simp: synthetic_builtin_rule_entries_def filter_empty_conv list_all_iff)
qed

section \<open>A session\<close>

definition registry_rule :: "string \<Rightarrow> string \<Rightarrow> rule_entry" where
  "registry_rule rid body = \<lparr>re_tenant_id = 1, re_rule_id = rid, re_version = 1, re_name = rid, re_family = ''live'',
     re_state = RuleActive, re_rule_body = body, re_rule_weight = Fin 1, re_incremental = False, re_created_at = 0,
     re_updated_at = 0\<rparr>"

definition approval_of :: "string \<Rightarrow> approval_entry" where
  "approval_of rid = \<lparr>ap_tenant_id = 1, ap_approval_id = 9, ap_artifact_kind = ArtRule, ap_artifact_ref = rid,
     ap_decision = Approved, ap_review_note = None, ap_reviewer = ''ops'', ap_scope = ''global'', ap_workspace_scope = None,
     ap_session_scope = None, ap_mirror_entity_id = 8, ap_created_at = 0\<rparr>"

definition live_store :: mock_storage where
  "live_store = \<lparr>ms_entities = [],
     ms_edges = [\<lparr>me_source = 1, me_target = 2, me_edge_type = ''a'', me_session_id = 7\<rparr>,
                 \<lparr>me_source = 3, me_target = 4, me_edge_type = ''b'', me_session_id = 7\<rparr>],
     ms_typed_edges = [], ms_warmth_entries = [],
     ms_rules = [registry_rule ''r1'' direct_text, registry_rule ''r2'' guarded_text],
     ms_approvals = [approval_of ''r1'', approval_of ''r2''], ms_derived_cache = Map.empty, ms_heat_records = [],
     ms_edge_list_session_calls = 0, ms_derived_cache_get_calls = 0\<rparr>"

definition live_rows :: fact_set where
  "live_rows = \<lparr>fs_facts = [(''a'', [[Const 1, Const 2]]),
     (''edge'', [[Const 1, ConstStr ''a'', Const 2], [Const 3, ConstStr ''b'', Const 4]]),
     (''b'', [[Const 3, Const 4]])]\<rparr>"

lemma live_loads_facts:
  assumes "mock_rows s = mock_rows live_store"
  shows "\<exists>s'. load_session_facts plain_env mock_ops 1 7 s = Some (Ok live_rows, s')"
proof -
  have rows: "ms_entities s = []" "ms_edges s = ms_edges live_store" "ms_typed_edges s = []" "ms_warmth_entries s = []"
    using assms by (simp_all add: mock_rows_def live_store_def)
  show ?thesis
    by (simp add: load_session_facts_def then_run_def ask_def finish_def mock_ops_def mock_defs rows)
      (simp add: live_store_def edge_facts_def edge_type_to_predicate_def plain_env_def insert_all_def fs_insert_def fs_new_def
        live_rows_def Let_def)
qed

lemma live_loads_rules:
  assumes "names_free penv" "mock_rows s = mock_rows live_store"
  shows "\<exists>s'. load_effective_rules penv mock_ops 1 (Some ''live'') now s = Some (Ok [direct_rule, guarded_rule], s')"
proof -
  obtain es where es: "synthetic_builtin_rule_entries penv 1 now = Some es" "filter (\<lambda>e. re_family e = ''live'') es = []"
    using no_builtin_live by blast
  have rows: "ms_rules s = ms_rules live_store" "ms_approvals s = ms_approvals live_store"
    using assms(2) by (simp_all add: mock_rows_def live_store_def)
  let ?rules = "[registry_rule ''r1'' direct_text, registry_rule ''r2'' guarded_text]"
  let ?kept = "map (\<lambda>e. \<lparr>er_source = SourceRegistry, er_entry = e\<rparr>) ?rules"
  have "is_artifact_approved mock_ops 1 ArtRule rid s = Some (Ok True, s)" if "rid \<in> {''r1'', ''r2''}" for rid
    using that by (auto simp: is_artifact_approved_def approval_state_def latest_approval_def then_run_def ask_def finish_def
        mock_ops_def mock_defs rows live_store_def approval_of_def)
  then have kept: "keep_approved mock_ops 1 ?rules s = Some (Ok ?kept, s)"
    by (simp add: registry_rule_def then_run_def finish_def)
  have listed: "ask (rule_list_family mock_ops 1 ''live'' RuleActive) s = Some (Ok ?rules, s)"
    by (simp add: ask_def mock_ops_def mock_defs rows live_store_def registry_rule_def)
  have "load_effective_rule_entries penv mock_ops 1 (Some ''live'') now s = Some (Ok ?kept, s)"
    using es by (simp add: load_effective_rule_entries_def then_run_def computed_def finish_def listed kept del: keep_approved.simps)
  moreover have "parse_entries penv ?kept = Some (Ok [direct_rule, guarded_rule])"
    by (simp add: registry_rule_def parse_direct [OF assms(1)] parse_guarded [OF assms(1)])
  ultimately show ?thesis by (simp add: load_effective_rules_def then_run_def parsed_def)
qed

section \<open>The query on that session\<close>

definition live_config :: datalog_config where
  "live_config = \<lparr>dc_max_iterations = 5, dc_max_facts = 20\<rparr>"

definition direct_answer :: derived_fact where
  "direct_answer = derived_of plain_env direct_rule [Const 1, Const 2] [make_provenance_step plain_env ''a'' [Const 1, Const 2]]"

definition guarded_answer :: derived_fact where
  "guarded_answer = derived_of plain_env guarded_rule [Const 3, Const 4]
     [make_provenance_step plain_env ''b'' [Const 3, Const 4],
      make_absence_step plain_env (xy_atom ''c'') [''X'' \<mapsto> Const 3, ''Y'' \<mapsto> Const 4]]"

lemma live_strata: "stratify [direct_rule, guarded_rule] = Some (Inr [[0, 1]])"
  by code_simp

lemma live_stamped: "map (\<lambda>r. stamp_clock r now) [direct_rule, guarded_rule] = [direct_rule, guarded_rule]"
  by (simp add: stamp_clock_def rule_reads_the_clock_def direct_rule_def guarded_rule_def)

lemma direct_fires:
  "fs_get F ''a'' = Some [[Const 1, Const 2]] \<Longrightarrow>
    evaluate_rule plain_env direct_rule F =
      Some [([Const 1, Const 2], [make_provenance_step plain_env ''a'' [Const 1, Const 2]])]"
  by (simp add: evaluate_rule_def collect_bindings_def join_body_def extend_by_atom_def extend_by_row_def List.map_filter_simps
      bind_candidate_def check_filters_def instantiate_head_def instantiate_def is_anon_def direct_rule_def xy_atom_def)

lemma guarded_fires:
  "fs_get F ''b'' = Some [[Const 3, Const 4]] \<Longrightarrow> fs_get F ''c'' = None \<Longrightarrow>
    evaluate_rule plain_env guarded_rule F =
      Some [([Const 3, Const 4], [make_provenance_step plain_env ''b'' [Const 3, Const 4],
        make_absence_step plain_env (xy_atom ''c'') [''X'' \<mapsto> Const 3, ''Y'' \<mapsto> Const 4]])]"
  by (simp add: evaluate_rule_def collect_bindings_def join_body_def extend_by_atom_def extend_by_row_def List.map_filter_simps
      bind_candidate_def check_filters_def instantiate_head_def instantiate_def is_anon_def negated_atom_matches_def
      guarded_rule_def xy_atom_def)

lemma live_evaluates:
  "\<exists>F'. evaluate plain_env now [direct_rule, guarded_rule] live_rows 5 20 = Some (F', [direct_answer, guarded_answer])"
proof -
  have heads: "at_predicate (dr_head direct_rule) = ''live''" "at_predicate (dr_head guarded_rule) = ''live''"
    by (simp_all add: direct_rule_def guarded_rule_def xy_atom_def)
  let ?live = "\<lparr>fs_facts = [(''live'', [[Const 1, Const 2], [Const 3, Const 4]])]\<rparr> :: fact_set"
  have get: "fs_get live_rows ''a'' = Some [[Const 1, Const 2]]" "fs_get live_rows ''b'' = Some [[Const 3, Const 4]]"
    "fs_get live_rows ''c'' = None" "fs_get live_rows ''live'' = None"
    by (simp_all add: fs_get_def live_rows_def)
  have first: "run_rules plain_env live_rows [direct_rule, guarded_rule] (fs_new, []) = Some (?live, [direct_answer, guarded_answer])"
    by (simp add: direct_fires [OF get(1)] guarded_fires [OF get(2,3)] heads Let_def fs_contains_def get)
      (simp add: heads Let_def fs_contains_def fs_get_def fs_insert_def fs_new_def live_rows_def direct_answer_def guarded_answer_def)
  let ?all = "merge_delta live_rows ?live"
  have all: "fs_get ?all ''a'' = Some [[Const 1, Const 2]]" "fs_get ?all ''b'' = Some [[Const 3, Const 4]]" "fs_get ?all ''c'' = None"
    "fs_get ?all ''live'' = Some [[Const 1, Const 2], [Const 3, Const 4]]"
    by (simp_all add: merge_delta_def fs_get_def fs_insert_def live_rows_def)
  have second: "run_rules plain_env ?all [direct_rule, guarded_rule] (fs_new, ds) = Some (fs_new, ds)" for ds
    by (simp add: direct_fires [OF all(1)] guarded_fires [OF all(2,3)] heads Let_def fs_contains_def all)
  have len: "fs_len live_rows = 4" "fs_len ?live = 2" "fs_len fs_new = 0"
    by (simp_all add: fs_len_def live_rows_def fs_new_def)
  have "stratum_loop plain_env [direct_rule, guarded_rule] 5 20 live_rows [] =
      Some \<lparr>sr_facts = ?all, sr_derived = [direct_answer, guarded_answer], sr_budget_iter = 3, sr_budget_facts = 18\<rparr>"
    by (simp add: numeral_eq_Suc stratum_loop.simps first second fs_is_empty_def len del: run_rules.simps)
  then show ?thesis
    by (simp add: evaluate_def evaluate_at_def live_stamped [simplified] live_strata start_state_def evaluate_stratum_def)
qed

lemma live_derives:
  assumes "names_free penv" "mock_rows s = mock_rows live_store"
  shows "\<exists>s'. derive_results plain_env penv mock_ops 1 7 ''live'' live_config now s = Some (Ok [direct_answer, guarded_answer], s')"
proof -
  obtain s1 where s1: "load_session_facts plain_env mock_ops 1 7 s = Some (Ok live_rows, s1)"
    using live_loads_facts [OF assms(2)] by blast
  then have "mock_rows s1 = mock_rows live_store"
    using run_readsD(1) [OF mock.load_session_facts_reads] assms(2) by fastforce
  then obtain s2 where s2: "load_effective_rules penv mock_ops 1 (Some ''live'') now s1 = Some (Ok [direct_rule, guarded_rule], s2)"
    using live_loads_rules [OF assms(1)] by blast
  obtain F' where "evaluate plain_env now [direct_rule, guarded_rule] live_rows 5 20 = Some (F', [direct_answer, guarded_answer])"
    using live_evaluates by blast
  moreover have "df_pred direct_answer = ''live''" "df_pred guarded_answer = ''live''"
    by (simp_all add: direct_answer_def guarded_answer_def derived_of_def split_beta Let_def direct_rule_def guarded_rule_def xy_atom_def)
  ultimately show ?thesis
    using s1 s2 by (simp add: derive_results_def then_run_def computed_def finish_def live_config_def)
qed

lemma live_absence: "\<not> rests_on_absence direct_answer" "rests_on_absence guarded_answer"
  by (simp_all add: rests_on_absence_def direct_answer_def guarded_answer_def derived_of_def with_clock_step_def split_beta Let_def
      rule_reads_the_clock_def direct_rule_def guarded_rule_def make_provenance_step_def make_absence_step_def PROVENANCE_KIND_ABSENCE_def)

lemma live_query:
  assumes "names_free penv"
  shows "\<exists>s'. query_predicate plain_env penv mock_ops 1 7 ''live'' live_config now ms live_store =
    Some (Ok [direct_answer, guarded_answer], s')"
proof -
  let ?key = "cache_key_of plain_env ''live'' 7"
  let ?s = "snd (mock_derived_cache_get 1 ?key live_store)"
  have get: "derived_cache_get mock_ops 1 ?key live_store = (Ok [], ?s)"
    by (simp add: mock_ops_def mock_derived_cache_get_def mock_cache_def live_store_def)
  have "mock_rows ?s = mock_rows live_store" by (simp add: mock_derived_cache_get_def mock_rows_def)
  from live_derives [OF assms this] obtain t where
    "derive_results plain_env penv mock_ops 1 7 ''live'' live_config now ?s = Some (Ok [direct_answer, guarded_answer], t)" by blast
  then show ?thesis
    by (simp add: query_predicate_def store_results_def Let_def then_run_def ask_eq get live_absence)
      (simp add: finish_def mock_ops_def mock_derived_cache_put_def mock_heat_record_def then_run_def ask_eq)
qed

definition live_parser :: parser_env where
  "live_parser = \<lparr>parse_uuid = (\<lambda>_. None), all_consuming_filter = (\<lambda>_. None), all_consuming_expr = (\<lambda>_. None)\<rparr>"

lemma live_parser_free: "names_free live_parser"
  by (simp add: names_free_def live_parser_def)

text \<open>The answer that rests on an absence is there the first time and gone the second time.\<close>

lemma absence_answer_vanishes:
  "\<exists>s1 s2. query_predicate plain_env live_parser mock_ops 1 7 ''live'' live_config 0 1 live_store =
       Some (Ok [direct_answer, guarded_answer], s1) \<and>
     query_predicate plain_env live_parser mock_ops 1 7 ''live'' live_config 0 2 s1 = Some (Ok [direct_answer], s2)"
proof -
  obtain s1 where s1: "query_predicate plain_env live_parser mock_ops 1 7 ''live'' live_config 0 1 live_store =
      Some (Ok [direct_answer, guarded_answer], s1)"
    using live_query [OF live_parser_free] by blast
  have "mock_cache live_store (cache_key_of plain_env ''live'' 7) = []" by (simp add: mock_cache_def live_store_def)
  from repeated_query [OF s1 this refl, of 2] s1 show ?thesis by (simp add: live_absence)
qed

theorem absence_answers_are_live_witness:
  "\<exists>s1 t t'. query_predicate plain_env live_parser mock_ops 1 7 ''live'' live_config 0 1 live_store =
       Some (Ok [direct_answer, guarded_answer], s1) \<and> (\<forall>key. guarded_answer \<notin> set (mock_cache s1 key)) \<and>
     mock_rows t = mock_rows live_store \<and>
     derive_results plain_env live_parser mock_ops 1 7 ''live'' live_config 0 t = Some (Ok [direct_answer, guarded_answer], t')"
proof -
  obtain s1 where s1: "query_predicate plain_env live_parser mock_ops 1 7 ''live'' live_config 0 1 live_store =
      Some (Ok [direct_answer, guarded_answer], s1)"
    using live_query [OF live_parser_free] by blast
  have "store_history plain_env live_parser live_store" by (rule new_store) (simp add: mock_cache_def live_store_def)
  from absence_answers_are_live [OF this s1] s1 show ?thesis using live_absence(2) by auto
qed

theorem query_answers_from_the_model_witness:
  "df_pred guarded_answer = ''live'' \<and>
   (\<exists>r \<in> {direct_rule, guarded_rule}. df_rule_id guarded_answer = format_rule_id r \<and> dr_negated r \<noteq> [])"
proof -
  obtain s1 where s1: "query_predicate plain_env live_parser mock_ops 1 7 ''live'' live_config 0 1 live_store =
      Some (Ok [direct_answer, guarded_answer], s1)"
    using live_query [OF live_parser_free] by blast
  obtain s2 where s2: "load_session_facts plain_env mock_ops 1 7 live_store = Some (Ok live_rows, s2)"
    using live_loads_facts by blast
  obtain s3 where s3: "load_effective_rules live_parser mock_ops 1 (Some ''live'') 0 live_store = Some (Ok [direct_rule, guarded_rule], s3)"
    using live_loads_rules [OF live_parser_free] by blast
  have "mock_cache live_store (cache_key_of plain_env ''live'' 7) = []" "list_all folds_nothing [direct_rule, guarded_rule]"
    by (simp_all add: mock_cache_def live_store_def folds_nothing_def direct_rule_def guarded_rule_def)
  from query_answers_from_the_model [OF s1 this(1) s2 s3 this(2)] show ?thesis using live_absence(2) by auto
qed

end
