(* ===== verification/Remote_Policy.thy ===== *)
theory Remote_Policy
  imports Rule_Parser Datalog_Evaluate
begin

text \<open>
  The policy of a remote (\<open>remotes/policy.rs\<close>): policy facts and per-item signals become facts of the rule engine, five
  fixed rules are parsed and evaluated over them with fixed budgets, and each decision combines what was derived with
  explicit denials and the signals of the item. The instant at which the evaluation reads the clock is an argument; a
  panic is \<open>None\<close>.
\<close>

section \<open>Facts, items, decisions\<close>

definition POLICY_RULES :: "string list" where
  "POLICY_RULES =
    [''can_query(Remote, Namespace) :- remote(Remote), grant(Remote, read, Namespace).'',
     ''can_fetch_detail(Remote, Item) :- grant(Remote, detail_fetch, knowledge), safe_item(Item).'',
     ''can_autocommit(Remote, Item) :- grant(Remote, autocommit, knowledge), item_namespace(Item, Namespace), trusted_for(Remote, Namespace), safe_item(Item), no_conflict(Item), no_prompt_injection_risk(Item), no_secret_risk(Item).'',
     ''should_consult(Remote, Query) :- explicit_remote(Query, Remote).'',
     ''should_consult(Remote, Query) :- local_coverage(Query, low), query_namespace(Query, Namespace), fallback_enabled(Remote, Namespace), trusted_for(Remote, Namespace).'']"

datatype policy_action = Read | DetailFetch | Autocommit | RequiresActivation | ShouldConsult

fun as_fact_atom :: "policy_action \<Rightarrow> string" where
  "as_fact_atom Read = ''read''"
| "as_fact_atom DetailFetch = ''detail_fetch''"
| "as_fact_atom Autocommit = ''autocommit''"
| "as_fact_atom RequiresActivation = ''requires_activation''"
| "as_fact_atom ShouldConsult = ''should_consult''"

datatype coverage_level = CoverageLow | CoverageAdequate

fun coverage_atom :: "coverage_level \<Rightarrow> string" where
  "coverage_atom CoverageLow = ''low''"
| "coverage_atom CoverageAdequate = ''adequate''"

datatype policy_fact =
    FactRemote string
  | TrustedFor string string
  | NotTrustedFor string string
  | Grant string policy_action string
  | Deny string policy_action string
  | FallbackEnabled string string
  | ExplicitRemote string string
  | LocalCoverage string coverage_level
  | QueryNamespace string string

fun predicate_and_args :: "policy_fact \<Rightarrow> string \<times> string list" where
  "predicate_and_args (FactRemote remote) = (''remote'', [remote])"
| "predicate_and_args (TrustedFor remote namespace) = (''trusted_for'', [remote, namespace])"
| "predicate_and_args (NotTrustedFor remote namespace) = (''not_trusted_for'', [remote, namespace])"
| "predicate_and_args (Grant remote action namespace) = (''grant'', [remote, as_fact_atom action, namespace])"
| "predicate_and_args (Deny remote action namespace) = (''deny'', [remote, as_fact_atom action, namespace])"
| "predicate_and_args (FallbackEnabled remote namespace) = (''fallback_enabled'', [remote, namespace])"
| "predicate_and_args (ExplicitRemote query remote) = (''explicit_remote'', [query, remote])"
| "predicate_and_args (LocalCoverage query level) = (''local_coverage'', [query, coverage_atom level])"
| "predicate_and_args (QueryNamespace query namespace) = (''query_namespace'', [query, namespace])"

record policy_item =
  pi_item_id :: string
  pi_namespace :: string
  pi_safe :: bool
  pi_conflict :: bool
  pi_prompt_injection_risk :: bool
  pi_secret_risk :: bool

definition new_policy_item :: "string \<Rightarrow> string \<Rightarrow> policy_item" where
  "new_policy_item item_id namespace = \<lparr>pi_item_id = item_id, pi_namespace = namespace, pi_safe = True, pi_conflict = False,
     pi_prompt_injection_risk = False, pi_secret_risk = False\<rparr>"

definition item_facts :: "policy_item \<Rightarrow> (string \<times> string list) list" where
  "item_facts item =
    [(''item_namespace'', [pi_item_id item, pi_namespace item]),
     (if pi_safe item then ''safe_item'' else ''unsafe_item'', [pi_item_id item]),
     (if pi_conflict item then ''conflict'' else ''no_conflict'', [pi_item_id item]),
     (if pi_prompt_injection_risk item then ''prompt_injection_risk'' else ''no_prompt_injection_risk'', [pi_item_id item]),
     (if pi_secret_risk item then ''secret_risk'' else ''no_secret_risk'', [pi_item_id item])]"

record policy_reason =
  pr_code :: string
  pr_fact :: string
  pr_message :: string

definition new_reason :: "string \<Rightarrow> string \<Rightarrow> string \<Rightarrow> policy_reason" where
  "new_reason code fct message = \<lparr>pr_code = code, pr_fact = fct, pr_message = message\<rparr>"

record policy_decision =
  pd_allowed :: bool
  pd_action :: policy_action
  pd_reasons :: "policy_reason list"
  pd_explanation :: string

definition has_fact :: "policy_decision \<Rightarrow> string \<Rightarrow> bool" where
  "has_fact d fct = list_ex (\<lambda>reason. pr_fact reason = fct) (pd_reasons d)"

record remote_policy =
  rp_facts :: "policy_fact list"

definition with_fact :: "remote_policy \<Rightarrow> policy_fact \<Rightarrow> remote_policy" where
  "with_fact self pf = self\<lparr>rp_facts := rp_facts self @ [pf]\<rparr>"

section \<open>The facts the engine sees\<close>

definition insert_fact :: "string \<Rightarrow> string list \<Rightarrow> fact_set \<Rightarrow> fact_set" where
  "insert_fact predicate args F = snd (fs_insert F predicate (map ConstStr args))"

definition insert_item_facts :: "policy_item \<Rightarrow> fact_set \<Rightarrow> fact_set" where
  "insert_item_facts item F = fold (\<lambda>(predicate, args). insert_fact predicate args) (item_facts item) F"

definition policy_fact_set :: "remote_policy \<Rightarrow> fact_set" where
  "policy_fact_set self =
     fold (\<lambda>pf F. let (predicate, args) = predicate_and_args pf in insert_fact predicate args F) (rp_facts self) fs_new"

definition has_policy_fact :: "remote_policy \<Rightarrow> string \<Rightarrow> string list \<Rightarrow> bool" where
  "has_policy_fact self predicate args = list_ex (\<lambda>pf. predicate_and_args pf = (predicate, args)) (rp_facts self)"

definition find_query_namespace :: "remote_policy \<Rightarrow> string \<Rightarrow> string option" where
  "find_query_namespace self query =
     (case List.find (\<lambda>pf. case pf of QueryNamespace fact_query _ \<Rightarrow> fact_query = query | _ \<Rightarrow> False) (rp_facts self) of
        Some (QueryNamespace _ namespace) \<Rightarrow> Some namespace
      | _ \<Rightarrow> None)"

text \<open>The results collected into one: the first error wins.\<close>

fun parse_policy_rules :: "'x parser_env_scheme \<Rightarrow> string list \<Rightarrow> datalog_rule list parse" where
  "parse_policy_rules penv [] = Some (Ok [])"
| "parse_policy_rules penv (text # rest) =
     then_parse (parse_rule penv text) (\<lambda>rule.
       then_parse (parse_policy_rules penv rest) (\<lambda>rules. Some (Ok (rule # rules))))"

definition derived_contains ::
  "'x datalog_env_scheme \<Rightarrow> 'y parser_env_scheme \<Rightarrow> instant \<Rightarrow> remote_policy \<Rightarrow> string \<Rightarrow> string list \<Rightarrow> policy_item list
    \<Rightarrow> bool outcome" where
  "derived_contains env penv now self predicate args items =
     (let facts = fold insert_item_facts items (policy_fact_set self) in
      case parse_policy_rules penv POLICY_RULES of
        None \<Rightarrow> None
      | Some (Inl _) \<Rightarrow> Some False
      | Some (Inr rules) \<Rightarrow>
          map_option (\<lambda>(F, _). fs_contains F predicate (map ConstStr args)) (evaluate env now rules facts 16 1024))"

section \<open>Explanations\<close>

definition reason_for_fact :: "string \<Rightarrow> string list \<Rightarrow> string \<Rightarrow> policy_reason" where
  "reason_for_fact code parts message = new_reason code (code @ ''('' @ join_strings '', '' parts @ '')'') message"

fun deny_reasons_from :: "remote_policy \<Rightarrow> string \<Rightarrow> policy_action \<Rightarrow> string list \<Rightarrow> string list \<Rightarrow> policy_reason list" where
  "deny_reasons_from self remote action seen [] = []"
| "deny_reasons_from self remote action seen (namespace # rest) =
     (if namespace \<notin> set seen \<and> has_policy_fact self ''deny'' [remote, as_fact_atom action, namespace]
      then [reason_for_fact ''deny'' [remote, as_fact_atom action, namespace] ''explicit deny overrides any derived grant'']
      else []) @ deny_reasons_from self remote action (namespace # seen) rest"

definition deny_reasons :: "remote_policy \<Rightarrow> string \<Rightarrow> policy_action \<Rightarrow> string list \<Rightarrow> policy_reason list" where
  "deny_reasons self remote action namespaces = deny_reasons_from self remote action [] namespaces"

definition explain :: "bool \<Rightarrow> policy_action \<Rightarrow> policy_reason list \<Rightarrow> string" where
  "explain allowed action reasons =
     (let verdict = (if allowed then ''Allowed'' else ''Denied''); facts = join_strings '', '' (map pr_fact reasons) in
      if facts = [] then verdict @ '' '' @ as_fact_atom action @ '' with no matching policy facts.''
      else verdict @ '' '' @ as_fact_atom action @ '' because '' @ facts @ ''.'')"

definition decision :: "bool \<Rightarrow> policy_action \<Rightarrow> policy_reason list \<Rightarrow> policy_decision" where
  "decision allowed action reasons =
     \<lparr>pd_allowed = allowed, pd_action = action, pd_reasons = reasons, pd_explanation = explain allowed action reasons\<rparr>"

section \<open>The decisions\<close>

definition can_query ::
  "'x datalog_env_scheme \<Rightarrow> 'y parser_env_scheme \<Rightarrow> instant \<Rightarrow> remote_policy \<Rightarrow> string \<Rightarrow> string \<Rightarrow> policy_decision outcome" where
  "can_query env penv now self remote namespace =
     (let denials = deny_reasons self remote Read [namespace] in
      if denials \<noteq> [] then Some (decision False Read denials)
      else map_option (\<lambda>allowed.
        decision allowed Read
          (if allowed
           then [reason_for_fact ''grant'' [remote, as_fact_atom Read, namespace] ''read grant permits querying this namespace'']
           else [new_reason ''missing_grant'' (''grant('' @ remote @ '', read, '' @ namespace @ '')'')
                   ''no read grant matched this namespace'']))
        (derived_contains env penv now self ''can_query'' [remote, namespace] []))"

definition can_fetch_detail ::
  "'x datalog_env_scheme \<Rightarrow> 'y parser_env_scheme \<Rightarrow> instant \<Rightarrow> remote_policy \<Rightarrow> string \<Rightarrow> policy_item \<Rightarrow> policy_decision outcome" where
  "can_fetch_detail env penv now self remote item =
     (let denials = deny_reasons self remote DetailFetch [''knowledge''] @
            (if \<not> pi_safe item
             then [new_reason ''unsafe_item'' (''unsafe_item('' @ pi_item_id item @ '')'') ''detail fetch denied for unsafe item'']
             else []) in
      if denials \<noteq> [] then Some (decision False DetailFetch denials)
      else map_option (\<lambda>allowed.
        decision allowed DetailFetch
          (if allowed
           then [reason_for_fact ''grant'' [remote, as_fact_atom DetailFetch, ''knowledge'']
                   ''detail fetch grant permits retrieving safe item details'',
                 new_reason ''safe_item'' (''safe_item('' @ pi_item_id item @ '')'') ''item safety classifier permits detail fetch'']
           else []))
        (derived_contains env penv now self ''can_fetch_detail'' [remote, pi_item_id item] [item]))"

definition signal_reason :: "bool \<Rightarrow> string \<Rightarrow> policy_item \<Rightarrow> string \<Rightarrow> policy_reason list" where
  "signal_reason present code item message =
     (if present then [new_reason code (code @ ''('' @ pi_item_id item @ '')'') message] else [])"

definition can_autocommit ::
  "'x datalog_env_scheme \<Rightarrow> 'y parser_env_scheme \<Rightarrow> instant \<Rightarrow> remote_policy \<Rightarrow> string \<Rightarrow> policy_item \<Rightarrow> policy_decision outcome" where
  "can_autocommit env penv now self remote item =
     (let denials = deny_reasons self remote Autocommit [''knowledge'', pi_namespace item] @
            (if has_policy_fact self ''not_trusted_for'' [remote, pi_namespace item]
             then [reason_for_fact ''not_trusted_for'' [remote, pi_namespace item]
                     ''remote is explicitly not trusted for this namespace'']
             else []) @
            signal_reason (\<not> pi_safe item) ''unsafe_item'' item ''unsafe items cannot autocommit'' @
            signal_reason (pi_conflict item) ''conflict'' item ''conflicting items cannot autocommit'' @
            signal_reason (pi_prompt_injection_risk item) ''prompt_injection_risk'' item
              ''prompt-injection risk blocks autocommit'' @
            signal_reason (pi_secret_risk item) ''secret_risk'' item ''secret risk blocks autocommit'' in
      if denials \<noteq> [] then Some (decision False Autocommit denials)
      else map_option (\<lambda>allowed.
        decision allowed Autocommit
          (if allowed
           then [reason_for_fact ''grant'' [remote, as_fact_atom Autocommit, ''knowledge'']
                   ''autocommit grant permits safe knowledge imports'',
                 reason_for_fact ''trusted_for'' [remote, pi_namespace item] ''remote is trusted for the item namespace'',
                 new_reason ''safe_item'' (''safe_item('' @ pi_item_id item @ '')'') ''item safety classifier permits autocommit'',
                 new_reason ''no_conflict'' (''not conflict('' @ pi_item_id item @ '')'')
                   ''no local or higher-trust conflict was reported'']
           else [new_reason ''not_derived'' (''can_autocommit('' @ remote @ '', '' @ pi_item_id item @ '')'')
                   ''policy facts did not derive can_autocommit'']))
        (derived_contains env penv now self ''can_autocommit'' [remote, pi_item_id item] [item]))"

definition can_autocommit_skill :: "remote_policy \<Rightarrow> string \<Rightarrow> policy_item \<Rightarrow> policy_decision" where
  "can_autocommit_skill self remote item =
     (let reasons = deny_reasons self remote Autocommit [''skills'', pi_namespace item] @
            (if pi_namespace item \<noteq> ''skills''
             then [new_reason ''wrong_namespace'' (''item_namespace('' @ pi_item_id item @ '', '' @ pi_namespace item @ '')'')
                     ''skill autocommit only applies to the skills namespace'']
             else []) @
            (if \<not> has_policy_fact self ''grant'' [remote, as_fact_atom Autocommit, ''skills'']
             then [new_reason ''missing_grant'' (''grant('' @ remote @ '', autocommit, skills)'')
                     ''no explicit skill autocommit grant matched'']
             else []) @
            (if \<not> has_policy_fact self ''trusted_for'' [remote, ''skills'']
             then [new_reason ''not_trusted_for_skills'' (''trusted_for('' @ remote @ '', skills)'')
                     ''remote is not trusted for skill teaching'']
             else []) @
            signal_reason (\<not> pi_safe item) ''unsafe_item'' item ''unsafe skills cannot become active candidates'' @
            signal_reason (pi_conflict item) ''conflict'' item ''local skill conflicts require review'' @
            signal_reason (pi_prompt_injection_risk item) ''prompt_injection_risk'' item
              ''prompt-injection risk blocks skill autocommit'' @
            signal_reason (pi_secret_risk item) ''secret_risk'' item ''secret risk blocks skill autocommit'' in
      if reasons = []
      then decision True Autocommit
        [reason_for_fact ''grant'' [remote, as_fact_atom Autocommit, ''skills'']
           ''explicit skill autocommit grant permits an active candidate'',
         reason_for_fact ''trusted_for'' [remote, ''skills''] ''remote is trusted for skill teaching'']
      else decision False Autocommit reasons)"

definition requires_activation ::
  "'x datalog_env_scheme \<Rightarrow> 'y parser_env_scheme \<Rightarrow> instant \<Rightarrow> remote_policy \<Rightarrow> string \<Rightarrow> policy_item \<Rightarrow> policy_decision outcome" where
  "requires_activation env penv now self remote item =
     map_option (\<lambda>autocommit.
       if pd_allowed autocommit
       then decision False RequiresActivation
         [new_reason ''autocommit_allowed'' (''can_autocommit('' @ remote @ '', '' @ pi_item_id item @ '')'')
            ''autocommit is allowed, so activation is not required'']
       else decision True RequiresActivation (pd_reasons autocommit))
     (can_autocommit env penv now self remote item)"

definition consult_reasons :: "remote_policy \<Rightarrow> string \<Rightarrow> string \<Rightarrow> policy_reason list" where
  "consult_reasons self remote query =
     (if has_policy_fact self ''explicit_remote'' [query, remote]
      then [reason_for_fact ''explicit_remote'' [query, remote] ''query explicitly requested this remote''] else []) @
     (case find_query_namespace self query of
        None \<Rightarrow> []
      | Some namespace \<Rightarrow>
          if has_policy_fact self ''local_coverage'' [query, ''low''] \<and>
             has_policy_fact self ''fallback_enabled'' [remote, namespace] \<and>
             has_policy_fact self ''trusted_for'' [remote, namespace]
          then [reason_for_fact ''local_coverage'' [query, ''low''] ''local coverage is low'',
                reason_for_fact ''fallback_enabled'' [remote, namespace] ''remote fallback is enabled for query namespace'',
                reason_for_fact ''trusted_for'' [remote, namespace] ''remote is trusted for fallback namespace'']
          else [])"

definition should_consult ::
  "'x datalog_env_scheme \<Rightarrow> 'y parser_env_scheme \<Rightarrow> instant \<Rightarrow> remote_policy \<Rightarrow> string \<Rightarrow> string \<Rightarrow> policy_decision outcome" where
  "should_consult env penv now self remote query =
     map_option (\<lambda>allowed.
       decision allowed ShouldConsult
         (if allowed then consult_reasons self remote query
          else [new_reason ''not_derived'' (''should_consult('' @ remote @ '', '' @ query @ '')'')
                  ''policy facts did not derive should_consult'']))
     (derived_contains env penv now self ''should_consult'' [remote, query] [])"

section \<open>The rules the texts stand for\<close>

definition plain_body_rule :: "atom \<Rightarrow> atom list \<Rightarrow> datalog_rule" where
  "plain_body_rule h body = \<lparr>dr_head = h, dr_body = body, dr_filters = [], dr_aggregates = [], dr_negated = [],
     dr_head_exprs = [], dr_bindings = []\<rparr>"

definition atom_of :: "string \<Rightarrow> dl_term list \<Rightarrow> atom" where
  "atom_of p args = \<lparr>at_predicate = p, at_args = args\<rparr>"

definition query_rule :: datalog_rule where
  "query_rule = plain_body_rule (atom_of ''can_query'' [Var ''Remote'', Var ''Namespace''])
     [atom_of ''remote'' [Var ''Remote''], atom_of ''grant'' [Var ''Remote'', ConstStr ''read'', Var ''Namespace'']]"

definition detail_rule :: datalog_rule where
  "detail_rule = plain_body_rule (atom_of ''can_fetch_detail'' [Var ''Remote'', Var ''Item''])
     [atom_of ''grant'' [Var ''Remote'', ConstStr ''detail_fetch'', ConstStr ''knowledge''], atom_of ''safe_item'' [Var ''Item'']]"

definition autocommit_rule :: datalog_rule where
  "autocommit_rule = plain_body_rule (atom_of ''can_autocommit'' [Var ''Remote'', Var ''Item''])
     [atom_of ''grant'' [Var ''Remote'', ConstStr ''autocommit'', ConstStr ''knowledge''],
      atom_of ''item_namespace'' [Var ''Item'', Var ''Namespace''], atom_of ''trusted_for'' [Var ''Remote'', Var ''Namespace''],
      atom_of ''safe_item'' [Var ''Item''], atom_of ''no_conflict'' [Var ''Item''],
      atom_of ''no_prompt_injection_risk'' [Var ''Item''], atom_of ''no_secret_risk'' [Var ''Item'']]"

definition explicit_rule :: datalog_rule where
  "explicit_rule = plain_body_rule (atom_of ''should_consult'' [Var ''Remote'', Var ''Query''])
     [atom_of ''explicit_remote'' [Var ''Query'', Var ''Remote'']]"

definition fallback_rule :: datalog_rule where
  "fallback_rule = plain_body_rule (atom_of ''should_consult'' [Var ''Remote'', Var ''Query''])
     [atom_of ''local_coverage'' [Var ''Query'', ConstStr ''low''], atom_of ''query_namespace'' [Var ''Query'', Var ''Namespace''],
      atom_of ''fallback_enabled'' [Var ''Remote'', Var ''Namespace''], atom_of ''trusted_for'' [Var ''Remote'', Var ''Namespace'']]"

definition policy_rules :: "datalog_rule list" where
  "policy_rules = [query_rule, detail_rule, autocommit_rule, explicit_rule, fallback_rule]"

text \<open>Each text is made of plain atoms, so it parses to its rule under every environment.\<close>

lemma query_rule_plain: "plain_rule (POLICY_RULES ! 0)"
  by code_simp

lemma query_rule_text: "parse_rule no_uuids (POLICY_RULES ! 0) = Some (Ok query_rule)"
  by code_simp

lemma detail_rule_plain: "plain_rule (POLICY_RULES ! 1)"
  by code_simp

lemma detail_rule_text: "parse_rule no_uuids (POLICY_RULES ! 1) = Some (Ok detail_rule)"
  by code_simp

lemma autocommit_rule_plain: "plain_rule (POLICY_RULES ! 2)"
  by code_simp

lemma autocommit_rule_text: "parse_rule no_uuids (POLICY_RULES ! 2) = Some (Ok autocommit_rule)"
  by code_simp

lemma explicit_rule_plain: "plain_rule (POLICY_RULES ! 3)"
  by code_simp

lemma explicit_rule_text: "parse_rule no_uuids (POLICY_RULES ! 3) = Some (Ok explicit_rule)"
  by code_simp

lemma fallback_rule_plain: "plain_rule (POLICY_RULES ! 4)"
  by code_simp

lemma fallback_rule_text: "parse_rule no_uuids (POLICY_RULES ! 4) = Some (Ok fallback_rule)"
  by code_simp


lemmas policy_texts_plain = query_rule_plain detail_rule_plain autocommit_rule_plain explicit_rule_plain fallback_rule_plain

lemmas policy_texts = query_rule_text detail_rule_text autocommit_rule_text explicit_rule_text fallback_rule_text

lemma policy_rules_parse:
  assumes "uuid_texts_long penv"
  shows "parse_policy_rules penv POLICY_RULES = Some (Ok policy_rules)"
proof -
  have "POLICY_RULES = map ((!) POLICY_RULES) [0, 1, 2, 3, 4]" by (simp add: POLICY_RULES_def)
  moreover have "parse_policy_rules penv (map ((!) POLICY_RULES) [0, 1, 2, 3, 4]) = Some (Ok policy_rules)"
    using policy_texts policy_texts_plain [THEN parse_plain_rule [OF assms]] by (simp add: policy_rules_def)
  ultimately show ?thesis by simp
qed

lemma policy_rules_stratify: "stratify policy_rules = Some (Inr [[0, 1, 2, 3, 4]])"
  by code_simp

end
