(* ===== verification/Policy_Decisions.thy ===== *)
theory Policy_Decisions
  imports Remote_Policy
begin

text \<open>
  What the decisions of a remote policy require. The five rules read none of the predicates they derive, so the engine
  is done after one round; its result, the explicit denials and the signals of the item give each decision in terms of
  the policy facts alone. The budget of facts is the one way in which the engine can fall short, and then it denies.
\<close>

section \<open>A stratum that reads none of its heads\<close>

lemma one_step_flat:
  assumes "run_rules env F rules (fs_new, ds) = Some (D, ds')" "\<forall>r \<in> set rules. reads r \<inter> heads rules = {}"
  shows "one_step env rules (merge_delta F D) = one_step env rules F"
proof -
  have "evaluate_rule env r (merge_delta F D) = evaluate_rule env r F" if "r \<in> set rules" for r
  proof (rule evaluate_rule_cong)
    have "fst ` set (fs_facts D) \<subseteq> heads rules" using run_rules_keys [OF assms(1)] by (simp add: fs_new_def)
    then show "same_rows (reads r) (merge_delta F D) F"
      using assms(2) that by (force simp: same_rows_def intro!: merge_delta_get)
  qed
  then show ?thesis by (simp add: one_step_def)
qed

lemma flat_stratum:
  assumes "\<forall>r \<in> set rules. dr_aggregates r = [] \<and> reads r \<inter> heads rules = {}" "fs_wf F" "2 \<le> bi"
  shows "\<exists>R. evaluate_stratum env rules F bi bf = Some R \<and>
    facts_of (sr_facts R) =
      (if one_step env rules F \<subseteq> facts_of F \<or> card (facts_of F) + card (one_step env rules F - facts_of F) \<le> bf
       then facts_of F \<union> one_step env rules F else facts_of F)"
proof -
  let ?new = "one_step env rules F - facts_of F"
  obtain D ds where run: "run_rules env F rules (fs_new, []) = Some (D, ds)"
    using run_rules_returns [of rules env F "(fs_new, [])"] assms(1) by auto
  note round = round_facts [OF run]
  have empty: "fs_is_empty D \<longleftrightarrow> one_step env rules F \<subseteq> facts_of F" using round fs_is_empty_iff [of D] by auto
  have len: "fs_len F = card (facts_of F)" "fs_len D = card ?new" using round assms(2) by (simp_all add: fs_len_card)
  let ?F = "merge_delta F D"
  obtain D' ds' where run': "run_rules env ?F rules (fs_new, ds) = Some (D', ds')"
    using run_rules_returns [of rules env ?F "(fs_new, ds)"] assms(1) by auto
  have "one_step env rules ?F = one_step env rules F" using run by (rule one_step_flat) (use assms(1) in blast)
  then have "fs_is_empty D'" using round_facts [OF run'] round(3) fs_is_empty_iff [of D'] by auto
  moreover obtain k where "bi = Suc (Suc k)" using assms(3) by (metis Suc_le_D numeral_2_eq_2 Suc_le_mono)
  ultimately show ?thesis using run run' round(3) empty len by (auto simp: evaluate_stratum_def)
qed

section \<open>What the policy rules conclude\<close>

text \<open>The conclusions of the five rules from a set of facts.\<close>

definition concludes :: "(string \<times> dl_term list) set \<Rightarrow> (string \<times> dl_term list) set" where
  "concludes I =
     {(''can_query'', [r, n]) | r n. (''remote'', [r]) \<in> I \<and> (''grant'', [r, ConstStr ''read'', n]) \<in> I} \<union>
     {(''can_fetch_detail'', [r, i]) | r i.
        (''grant'', [r, ConstStr ''detail_fetch'', ConstStr ''knowledge'']) \<in> I \<and> (''safe_item'', [i]) \<in> I} \<union>
     {(''can_autocommit'', [r, i]) | r i. \<exists>n.
        (''grant'', [r, ConstStr ''autocommit'', ConstStr ''knowledge'']) \<in> I \<and> (''item_namespace'', [i, n]) \<in> I \<and>
        (''trusted_for'', [r, n]) \<in> I \<and> (''safe_item'', [i]) \<in> I \<and> (''no_conflict'', [i]) \<in> I \<and>
        (''no_prompt_injection_risk'', [i]) \<in> I \<and> (''no_secret_risk'', [i]) \<in> I} \<union>
     {(''should_consult'', [r, q]) | r q. (''explicit_remote'', [q, r]) \<in> I \<or>
        (\<exists>n. (''local_coverage'', [q, ConstStr ''low'']) \<in> I \<and> (''query_namespace'', [q, n]) \<in> I \<and>
           (''fallback_enabled'', [r, n]) \<in> I \<and> (''trusted_for'', [r, n]) \<in> I)}"

lemma not_anon [simp]: "\<not> is_anon ''Remote''" "\<not> is_anon ''Namespace''" "\<not> is_anon ''Item''" "\<not> is_anon ''Query''"
  by (simp_all add: is_anon_def)

lemma atom_holds_atom_of [simp]:
  "atom_holds I b (atom_of p args) \<longleftrightarrow> (\<exists>row. (p, row) \<in> I \<and> list_all2 (term_fits b) args row)"
  by (simp add: atom_holds_def atom_of_def)

text \<open>The consequences of a rule without filters, negation and computed values, by the values of its variables.\<close>

lemma consequences_plain:
  "consequences env N I (plain_body_rule (atom_of p args) body) =
     {(p, instantiate args b) | b. dom b = body_vars body \<and> (\<forall>a \<in> set body. atom_holds I b a)}"
  by (auto simp: consequences_def plain_body_rule_def atom_of_def solves_def check_filters_def instantiate_head_def)

lemma fits_row [simp]:
  "list_all2 P [] row \<longleftrightarrow> row = []"
  "list_all2 P (x # xs) row \<longleftrightarrow> (\<exists>y ys. row = y # ys \<and> P x y \<and> list_all2 P xs ys)"
  by (simp_all add: list_all2_Cons1)

lemma vars_atom_of [simp]: "atom_vars (atom_of p args) = \<Union> (named ` set args)"
  by (simp add: atom_vars_def atom_of_def)

lemmas rule_reading = consequences_plain instantiate_def body_vars_def

lemma query_consequences:
  "consequences env N I query_rule =
     {(''can_query'', [r, n]) | r n. (''remote'', [r]) \<in> I \<and> (''grant'', [r, ConstStr ''read'', n]) \<in> I}" (is "?L = ?R")
proof
  show "?L \<subseteq> ?R" by (auto simp: query_rule_def rule_reading)
  show "?R \<subseteq> ?L"
  proof clarify
    fix r n assume "(''remote'', [r]) \<in> I" "(''grant'', [r, ConstStr ''read'', n]) \<in> I"
    then show "(''can_query'', [r, n]) \<in> ?L"
      by (auto simp: query_rule_def rule_reading split: if_splits intro!: exI [of _ "[''Remote'' \<mapsto> r, ''Namespace'' \<mapsto> n]"])
  qed
qed

lemma detail_consequences:
  "consequences env N I detail_rule =
     {(''can_fetch_detail'', [r, i]) | r i.
        (''grant'', [r, ConstStr ''detail_fetch'', ConstStr ''knowledge'']) \<in> I \<and> (''safe_item'', [i]) \<in> I}" (is "?L = ?R")
proof
  show "?L \<subseteq> ?R" by (auto simp: detail_rule_def rule_reading)
  show "?R \<subseteq> ?L"
  proof clarify
    fix r i assume "(''grant'', [r, ConstStr ''detail_fetch'', ConstStr ''knowledge'']) \<in> I" "(''safe_item'', [i]) \<in> I"
    then show "(''can_fetch_detail'', [r, i]) \<in> ?L"
      by (auto simp: detail_rule_def rule_reading split: if_splits intro!: exI [of _ "[''Remote'' \<mapsto> r, ''Item'' \<mapsto> i]"])
  qed
qed

lemma autocommit_consequences:
  "consequences env N I autocommit_rule =
     {(''can_autocommit'', [r, i]) | r i. \<exists>n.
        (''grant'', [r, ConstStr ''autocommit'', ConstStr ''knowledge'']) \<in> I \<and> (''item_namespace'', [i, n]) \<in> I \<and>
        (''trusted_for'', [r, n]) \<in> I \<and> (''safe_item'', [i]) \<in> I \<and> (''no_conflict'', [i]) \<in> I \<and>
        (''no_prompt_injection_risk'', [i]) \<in> I \<and> (''no_secret_risk'', [i]) \<in> I}" (is "?L = ?R")
proof
  show "?L \<subseteq> ?R" by (auto simp: autocommit_rule_def rule_reading)
  show "?R \<subseteq> ?L"
  proof clarify
    fix r i n
    assume "(''grant'', [r, ConstStr ''autocommit'', ConstStr ''knowledge'']) \<in> I" "(''item_namespace'', [i, n]) \<in> I"
      "(''trusted_for'', [r, n]) \<in> I" "(''safe_item'', [i]) \<in> I" "(''no_conflict'', [i]) \<in> I"
      "(''no_prompt_injection_risk'', [i]) \<in> I" "(''no_secret_risk'', [i]) \<in> I"
    then show "(''can_autocommit'', [r, i]) \<in> ?L"
      by (auto simp: autocommit_rule_def rule_reading split: if_splits
          intro!: exI [of _ "[''Remote'' \<mapsto> r, ''Item'' \<mapsto> i, ''Namespace'' \<mapsto> n]"])
  qed
qed

lemma explicit_consequences:
  "consequences env N I explicit_rule = {(''should_consult'', [r, q]) | r q. (''explicit_remote'', [q, r]) \<in> I}" (is "?L = ?R")
proof
  show "?L \<subseteq> ?R" by (auto simp: explicit_rule_def rule_reading)
  show "?R \<subseteq> ?L"
  proof clarify
    fix r q assume "(''explicit_remote'', [q, r]) \<in> I"
    then show "(''should_consult'', [r, q]) \<in> ?L"
      by (auto simp: explicit_rule_def rule_reading split: if_splits intro!: exI [of _ "[''Remote'' \<mapsto> r, ''Query'' \<mapsto> q]"])
  qed
qed

lemma fallback_consequences:
  "consequences env N I fallback_rule =
     {(''should_consult'', [r, q]) | r q. \<exists>n. (''local_coverage'', [q, ConstStr ''low'']) \<in> I \<and>
        (''query_namespace'', [q, n]) \<in> I \<and> (''fallback_enabled'', [r, n]) \<in> I \<and> (''trusted_for'', [r, n]) \<in> I}" (is "?L = ?R")
proof
  show "?L \<subseteq> ?R" by (auto simp: fallback_rule_def rule_reading)
  show "?R \<subseteq> ?L"
  proof clarify
    fix r q n
    assume "(''local_coverage'', [q, ConstStr ''low'']) \<in> I" "(''query_namespace'', [q, n]) \<in> I"
      "(''fallback_enabled'', [r, n]) \<in> I" "(''trusted_for'', [r, n]) \<in> I"
    then show "(''should_consult'', [r, q]) \<in> ?L"
      by (auto simp: fallback_rule_def rule_reading split: if_splits
          intro!: exI [of _ "[''Remote'' \<mapsto> r, ''Query'' \<mapsto> q, ''Namespace'' \<mapsto> n]"])
  qed
qed

lemma policy_rule_parts:
  "\<forall>r \<in> set policy_rules. dr_aggregates r = [] \<and> reads r \<inter> heads policy_rules = {}"
  by (simp add: policy_rules_def query_rule_def detail_rule_def autocommit_rule_def explicit_rule_def fallback_rule_def
      plain_body_rule_def atom_of_def heads_def reads_eq)

lemma policy_one_step: "one_step env policy_rules F = concludes (facts_of F)"
proof -
  have "one_step env policy_rules F = (\<Union>rule \<in> set policy_rules. consequences env (facts_of F) (facts_of F) rule)"
    by (rule one_step_consequences) (use policy_rule_parts in blast)
  then show ?thesis
    unfolding policy_rules_def concludes_def
    by (simp add: query_consequences detail_consequences autocommit_consequences explicit_consequences fallback_consequences)
      blast
qed

lemma policy_rules_stamped: "map (\<lambda>r. stamp_clock r now) policy_rules = policy_rules"
  by (simp add: policy_rules_def query_rule_def detail_rule_def autocommit_rule_def explicit_rule_def fallback_rule_def
      plain_body_rule_def stamp_clock_def rule_reads_the_clock_def)

lemma policy_evaluates:
  assumes "fs_wf F"
  shows "\<exists>F' ds. evaluate env now policy_rules F 16 1024 = Some (F', ds) \<and>
    facts_of F' =
      (if concludes (facts_of F) \<subseteq> facts_of F \<or> card (facts_of F) + card (concludes (facts_of F) - facts_of F) \<le> 1024
       then facts_of F \<union> concludes (facts_of F) else facts_of F)"
proof -
  have "map ((!) policy_rules) [0, 1, 2, 3, 4] = policy_rules" by (simp add: policy_rules_def)
  then show ?thesis
    using flat_stratum [OF policy_rule_parts assms, of 16 env 1024]
    by (auto simp: evaluate_def evaluate_at_def policy_rules_stamped policy_rules_stratify policy_one_step
        start_state_def split: if_splits)
qed

section \<open>The facts the engine sees\<close>

definition engine_facts :: "remote_policy \<Rightarrow> policy_item list \<Rightarrow> (string \<times> dl_term list) set" where
  "engine_facts self items =
     (\<lambda>(p, args). (p, map ConstStr args)) ` (predicate_and_args ` set (rp_facts self) \<union> (\<Union>item \<in> set items. set (item_facts item)))"

text \<open>The budget of facts: what the engine is given and what it concludes from it.\<close>

definition fits_budget :: "remote_policy \<Rightarrow> policy_item list \<Rightarrow> bool" where
  "fits_budget self items \<longleftrightarrow> card (engine_facts self items) + card (concludes (engine_facts self items)) \<le> 1024"

lemma insert_facts_all:
  "facts_of (fold (\<lambda>(p, args). insert_fact p args) fs F) = facts_of F \<union> (\<lambda>(p, args). (p, map ConstStr args)) ` set fs"
  "fs_wf F \<Longrightarrow> fs_wf (fold (\<lambda>(p, args). insert_fact p args) fs F)"
  by (induction fs arbitrary: F) (auto simp: insert_fact_def facts_of_insert fs_wf_insert)

lemma insert_items_all:
  "facts_of (fold insert_item_facts items F) =
     facts_of F \<union> (\<lambda>(p, args). (p, map ConstStr args)) ` (\<Union>item \<in> set items. set (item_facts item))"
  "fs_wf F \<Longrightarrow> fs_wf (fold insert_item_facts items F)"
  by (induction items arbitrary: F) (auto simp: insert_item_facts_def insert_facts_all)

lemma policy_fact_set_fold:
  "policy_fact_set self = fold (\<lambda>(p, args). insert_fact p args) (map predicate_and_args (rp_facts self)) fs_new"
  by (simp add: policy_fact_set_def fold_map comp_def split_beta)

lemma engine_facts_of:
  "facts_of (fold insert_item_facts items (policy_fact_set self)) = engine_facts self items"
  "fs_wf (fold insert_item_facts items (policy_fact_set self))"
  by (simp_all add: insert_items_all insert_facts_all policy_fact_set_fold engine_facts_def image_Un)

lemma engine_facts_given:
  assumes "p \<in> {''can_query'', ''can_fetch_detail'', ''can_autocommit'', ''should_consult''}"
  shows "(p, args) \<notin> engine_facts self items"
proof -
  have "predicate_and_args f \<noteq> (p, as)" for f as using assms by (cases f) auto
  then have "(p, as) \<notin> predicate_and_args ` set (rp_facts self)" for as by (metis imageE)
  moreover have "(p, as) \<notin> set (item_facts item)" for as item using assms by (auto simp: item_facts_def)
  ultimately show ?thesis by (auto simp: engine_facts_def)
qed

lemma concludes_heads: "(p, args) \<in> concludes I \<Longrightarrow> p \<in> {''can_query'', ''can_fetch_detail'', ''can_autocommit'', ''should_consult''}"
  unfolding concludes_def by blast

lemma derived_contains_iff:
  assumes "uuid_texts_long penv" "p \<in> {''can_query'', ''can_fetch_detail'', ''can_autocommit'', ''should_consult''}"
  shows "derived_contains env penv now self p args items =
    Some (fits_budget self items \<and> (p, map ConstStr args) \<in> concludes (engine_facts self items))"
proof -
  let ?I = "engine_facts self items"
  note given = engine_facts_given [OF assms(2)]
  have "concludes ?I \<inter> ?I = {}" using engine_facts_given concludes_heads by fast
  then have diff: "concludes ?I - ?I = concludes ?I" by blast
  show ?thesis
    using policy_evaluates [OF engine_facts_of(2), of env now items self] given [of "map ConstStr args"] diff
    unfolding engine_facts_of(1)
    by (fastforce simp: derived_contains_def policy_rules_parse [OF assms(1)] fs_contains_facts_of fits_budget_def split: if_splits)
qed

section \<open>Facts by their constructors\<close>

lemma as_fact_atom_inject [simp]: "as_fact_atom a = as_fact_atom b \<longleftrightarrow> a = b"
  by (cases a; cases b) simp_all

lemma coverage_atom_inject [simp]: "coverage_atom a = ''low'' \<longleftrightarrow> a = CoverageLow"
  by (cases a) simp_all

lemma predicate_and_args_iff:
  "predicate_and_args f = (''remote'', [r]) \<longleftrightarrow> f = FactRemote r"
  "predicate_and_args f = (''trusted_for'', [r, n]) \<longleftrightarrow> f = TrustedFor r n"
  "predicate_and_args f = (''not_trusted_for'', [r, n]) \<longleftrightarrow> f = NotTrustedFor r n"
  "predicate_and_args f = (''grant'', [r, as_fact_atom a, n]) \<longleftrightarrow> f = Grant r a n"
  "predicate_and_args f = (''deny'', [r, as_fact_atom a, n]) \<longleftrightarrow> f = Deny r a n"
  "predicate_and_args f = (''fallback_enabled'', [r, n]) \<longleftrightarrow> f = FallbackEnabled r n"
  "predicate_and_args f = (''explicit_remote'', [q, r]) \<longleftrightarrow> f = ExplicitRemote q r"
  "predicate_and_args f = (''local_coverage'', [q, ''low'']) \<longleftrightarrow> f = LocalCoverage q CoverageLow"
  "predicate_and_args f = (''query_namespace'', [q, n]) \<longleftrightarrow> f = QueryNamespace q n"
  by (cases f; auto)+

lemma has_policy_fact_iff:
  "has_policy_fact self p args \<longleftrightarrow> (p, args) \<in> predicate_and_args ` set (rp_facts self)"
  by (force simp: has_policy_fact_def list_ex_iff)

lemma policy_fact_image:
  "(p, args) \<in> predicate_and_args ` S \<longleftrightarrow> (\<exists>f \<in> S. predicate_and_args f = (p, args))"
  by (metis image_iff)

lemma has_policy_fact_facts:
  "has_policy_fact self ''trusted_for'' [r, n] \<longleftrightarrow> TrustedFor r n \<in> set (rp_facts self)"
  "has_policy_fact self ''not_trusted_for'' [r, n] \<longleftrightarrow> NotTrustedFor r n \<in> set (rp_facts self)"
  "has_policy_fact self ''grant'' [r, as_fact_atom a, n] \<longleftrightarrow> Grant r a n \<in> set (rp_facts self)"
  "has_policy_fact self ''deny'' [r, as_fact_atom a, n] \<longleftrightarrow> Deny r a n \<in> set (rp_facts self)"
  "has_policy_fact self ''fallback_enabled'' [r, n] \<longleftrightarrow> FallbackEnabled r n \<in> set (rp_facts self)"
  "has_policy_fact self ''explicit_remote'' [q, r] \<longleftrightarrow> ExplicitRemote q r \<in> set (rp_facts self)"
  "has_policy_fact self ''local_coverage'' [q, ''low''] \<longleftrightarrow> LocalCoverage q CoverageLow \<in> set (rp_facts self)"
  by (simp_all only: has_policy_fact_def predicate_and_args_iff list_ex_iff) blast+

lemma engine_fact_iff:
  "(p, args) \<in> engine_facts self items \<longleftrightarrow>
     (\<exists>as. args = map ConstStr as \<and> (has_policy_fact self p as \<or> (\<exists>item \<in> set items. (p, as) \<in> set (item_facts item))))"
  by (force simp: engine_facts_def has_policy_fact_iff)

lemma deny_reasons_empty:
  "deny_reasons self r a ns = [] \<longleftrightarrow> (\<forall>n \<in> set ns. Deny r a n \<notin> set (rp_facts self))"
proof -
  have "deny_reasons_from self r a seen ns = [] \<longleftrightarrow> (\<forall>n \<in> set ns - set seen. Deny r a n \<notin> set (rp_facts self))" for seen
    by (induction ns arbitrary: seen) (auto simp: has_policy_fact_facts)
  then show ?thesis by (simp add: deny_reasons_def)
qed


section \<open>What each decision requires\<close>

lemma query_concluded:
  "(''can_query'', map ConstStr [r, n]) \<in> concludes (engine_facts self []) \<longleftrightarrow>
     FactRemote r \<in> set (rp_facts self) \<and> Grant r Read n \<in> set (rp_facts self)"
proof -
  have "has_policy_fact self ''grant'' [r, ''read'', n] \<longleftrightarrow> Grant r Read n \<in> set (rp_facts self)"
    using has_policy_fact_facts(3) [of self r Read n] by simp
  moreover have "has_policy_fact self ''remote'' [r] \<longleftrightarrow> FactRemote r \<in> set (rp_facts self)"
    by (simp only: has_policy_fact_def predicate_and_args_iff list_ex_iff) blast
  ultimately show ?thesis by (auto simp: concludes_def engine_fact_iff Cons_eq_map_conv)
qed

lemma item_fact_iff:
  "(''safe_item'', as) \<in> set (item_facts item) \<longleftrightarrow> pi_safe item \<and> as = [pi_item_id item]"
  "(''no_conflict'', as) \<in> set (item_facts item) \<longleftrightarrow> \<not> pi_conflict item \<and> as = [pi_item_id item]"
  "(''no_prompt_injection_risk'', as) \<in> set (item_facts item) \<longleftrightarrow> \<not> pi_prompt_injection_risk item \<and> as = [pi_item_id item]"
  "(''no_secret_risk'', as) \<in> set (item_facts item) \<longleftrightarrow> \<not> pi_secret_risk item \<and> as = [pi_item_id item]"
  "(''item_namespace'', as) \<in> set (item_facts item) \<longleftrightarrow> as = [pi_item_id item, pi_namespace item]"
  "(''grant'', as) \<notin> set (item_facts item)" "(''trusted_for'', as) \<notin> set (item_facts item)"
  by (auto simp: item_facts_def)

lemma item_predicates:
  "p \<in> {''safe_item'', ''no_conflict'', ''no_prompt_injection_risk'', ''no_secret_risk'', ''item_namespace''} \<Longrightarrow>
    \<not> has_policy_fact self p as"
  by (auto simp: has_policy_fact_def list_ex_iff elim!: predicate_and_args.elims)

lemma detail_concluded:
  "(''can_fetch_detail'', map ConstStr [r, pi_item_id item]) \<in> concludes (engine_facts self [item]) \<longleftrightarrow>
     Grant r DetailFetch ''knowledge'' \<in> set (rp_facts self) \<and> pi_safe item"
  using has_policy_fact_facts(3) [of self r DetailFetch "''knowledge''"]
  by (auto simp: concludes_def engine_fact_iff Cons_eq_map_conv item_fact_iff item_predicates)

lemma autocommit_concluded:
  "(''can_autocommit'', map ConstStr [r, pi_item_id item]) \<in> concludes (engine_facts self [item]) \<longleftrightarrow>
     Grant r Autocommit ''knowledge'' \<in> set (rp_facts self) \<and> TrustedFor r (pi_namespace item) \<in> set (rp_facts self) \<and>
     pi_safe item \<and> \<not> pi_conflict item \<and> \<not> pi_prompt_injection_risk item \<and> \<not> pi_secret_risk item"
  using has_policy_fact_facts(3) [of self r Autocommit "''knowledge''"]
  by (auto simp: concludes_def engine_fact_iff Cons_eq_map_conv item_fact_iff item_predicates has_policy_fact_facts)

definition fallback_namespace :: "remote_policy \<Rightarrow> string \<Rightarrow> string \<Rightarrow> string \<Rightarrow> bool" where
  "fallback_namespace self r q n \<longleftrightarrow> LocalCoverage q CoverageLow \<in> set (rp_facts self) \<and>
     QueryNamespace q n \<in> set (rp_facts self) \<and> FallbackEnabled r n \<in> set (rp_facts self) \<and> TrustedFor r n \<in> set (rp_facts self)"

lemma consult_concluded:
  "(''should_consult'', map ConstStr [r, q]) \<in> concludes (engine_facts self []) \<longleftrightarrow>
     ExplicitRemote q r \<in> set (rp_facts self) \<or> (\<exists>n. fallback_namespace self r q n)"
proof -
  have "has_policy_fact self ''query_namespace'' [q, n] \<longleftrightarrow> QueryNamespace q n \<in> set (rp_facts self)" for n
    by (simp only: has_policy_fact_def predicate_and_args_iff list_ex_iff) blast
  note facts = this has_policy_fact_facts engine_fact_iff Cons_eq_map_conv fallback_namespace_def
  show ?thesis
  proof
    assume "(''should_consult'', map ConstStr [r, q]) \<in> concludes (engine_facts self [])"
    then show "ExplicitRemote q r \<in> set (rp_facts self) \<or> (\<exists>n. fallback_namespace self r q n)"
      by (auto simp: concludes_def facts)
  next
    assume "ExplicitRemote q r \<in> set (rp_facts self) \<or> (\<exists>n. fallback_namespace self r q n)"
    then have "(''explicit_remote'', [ConstStr q, ConstStr r]) \<in> engine_facts self [] \<or>
      (\<exists>n. (''local_coverage'', [ConstStr q, ConstStr ''low'']) \<in> engine_facts self [] \<and>
         (''query_namespace'', [ConstStr q, n]) \<in> engine_facts self [] \<and>
         (''fallback_enabled'', [ConstStr r, n]) \<in> engine_facts self [] \<and> (''trusted_for'', [ConstStr r, n]) \<in> engine_facts self [])"
      by (auto simp: facts intro!: exI [of _ "ConstStr _"])
    then show "(''should_consult'', map ConstStr [r, q]) \<in> concludes (engine_facts self [])"
      unfolding concludes_def by simp
  qed
qed

lemma skill_allowed:
  "pd_allowed (can_autocommit_skill self r item) =
     (Deny r Autocommit ''skills'' \<notin> set (rp_facts self) \<and> pi_namespace item = ''skills'' \<and>
      Grant r Autocommit ''skills'' \<in> set (rp_facts self) \<and> TrustedFor r ''skills'' \<in> set (rp_facts self) \<and>
      pi_safe item \<and> \<not> pi_conflict item \<and> \<not> pi_prompt_injection_risk item \<and> \<not> pi_secret_risk item)"
  using has_policy_fact_facts(3) [of self r Autocommit "''skills''"]
  by (auto simp: can_autocommit_skill_def Let_def deny_reasons_empty decision_def signal_reason_def has_policy_fact_facts)

definition may_autocommit :: "remote_policy \<Rightarrow> string \<Rightarrow> string \<Rightarrow> bool" where
  "may_autocommit self r n \<longleftrightarrow> Deny r Autocommit ''knowledge'' \<notin> set (rp_facts self) \<and> Deny r Autocommit n \<notin> set (rp_facts self) \<and>
     NotTrustedFor r n \<notin> set (rp_facts self) \<and> Grant r Autocommit ''knowledge'' \<in> set (rp_facts self) \<and>
     TrustedFor r n \<in> set (rp_facts self)"

definition harmless :: "policy_item \<Rightarrow> bool" where
  "harmless item \<longleftrightarrow> pi_safe item \<and> \<not> pi_conflict item \<and> \<not> pi_prompt_injection_risk item \<and> \<not> pi_secret_risk item"

lemma query_allowed:
  assumes "uuid_texts_long penv"
  shows "map_option pd_allowed (can_query env penv now self r n) =
    Some (Deny r Read n \<notin> set (rp_facts self) \<and> FactRemote r \<in> set (rp_facts self) \<and> Grant r Read n \<in> set (rp_facts self) \<and> fits_budget self [])"
  using query_concluded [of r n self]
  by (auto simp: can_query_def derived_contains_iff [OF assms] deny_reasons_empty decision_def)

lemma detail_allowed:
  assumes "uuid_texts_long penv"
  shows "map_option pd_allowed (can_fetch_detail env penv now self r item) =
    Some (Deny r DetailFetch ''knowledge'' \<notin> set (rp_facts self) \<and> Grant r DetailFetch ''knowledge'' \<in> set (rp_facts self) \<and>
      pi_safe item \<and> fits_budget self [item])"
  using detail_concluded [of r item self]
  by (auto simp: can_fetch_detail_def derived_contains_iff [OF assms] deny_reasons_empty decision_def)

lemma autocommit_allowed:
  assumes "uuid_texts_long penv"
  shows "map_option pd_allowed (can_autocommit env penv now self r item) =
    Some (may_autocommit self r (pi_namespace item) \<and> harmless item \<and> fits_budget self [item])"
  using autocommit_concluded [of r item self]
  by (auto simp: can_autocommit_def derived_contains_iff [OF assms] deny_reasons_empty decision_def signal_reason_def
      has_policy_fact_facts may_autocommit_def harmless_def)

lemma activation_required:
  "map_option pd_allowed (requires_activation env penv now self r item) =
    map_option (\<lambda>d. \<not> pd_allowed d) (can_autocommit env penv now self r item)"
  by (cases "can_autocommit env penv now self r item") (simp_all add: requires_activation_def decision_def)

lemma consult_allowed:
  assumes "uuid_texts_long penv"
  shows "map_option pd_allowed (should_consult env penv now self r q) =
    Some ((ExplicitRemote q r \<in> set (rp_facts self) \<or> (\<exists>n. fallback_namespace self r q n)) \<and> fits_budget self [])"
  using consult_concluded [of r q self]
  by (auto simp: should_consult_def derived_contains_iff [OF assms] decision_def)

text \<open>A policy of ordinary size is never cut off by the budget: each conclusion names one policy fact, or two for a fallback.\<close>

lemma engine_facts_split:
  "engine_facts self items = engine_facts self [] \<union>
     (\<lambda>(p, args). (p, map ConstStr args)) ` (\<Union>item \<in> set items. set (item_facts item))"
  by (auto simp: engine_facts_def)

lemma concludes_bound:
  fixes self :: remote_policy and items :: "policy_item list"
  assumes "length items \<le> 1"
  defines "P \<equiv> engine_facts self []" and "i \<equiv> ConstStr (pi_item_id (hd items))"
  shows "concludes (engine_facts self items) \<subseteq>
    (\<lambda>(p, args). (''can_query'', [args ! 0, args ! 2])) ` P \<union> (\<lambda>(p, args). (''can_fetch_detail'', [args ! 0, i])) ` P \<union>
    (\<lambda>(p, args). (''can_autocommit'', [args ! 0, i])) ` P \<union> ((\<lambda>(p, args). (''should_consult'', [args ! 1, args ! 0])) ` P \<union>
    (\<lambda>((p, args), (q, args')). (''should_consult'', [args ! 0, args' ! 0])) ` (P \<times> P))"
proof -
  let ?I = "engine_facts self items"
  have given: "(p, args) \<in> P" if "(p, args) \<in> ?I"
    "p \<in> {''grant'', ''explicit_remote'', ''fallback_enabled'', ''query_namespace''}" for p args
    using that by (auto simp: P_def engine_facts_split [of self items] item_facts_def split: if_splits)
  have item: "x = i" if safe: "(''safe_item'', [x]) \<in> ?I" for x
  proof -
    obtain it where it: "it \<in> set items" "x = ConstStr (pi_item_id it)"
      using safe by (auto simp: engine_fact_iff item_predicates item_fact_iff Cons_eq_map_conv)
    then have "items = [it]" using assms(1) by (cases items) auto
    then show ?thesis using it(2) by (simp add: i_def)
  qed
  let ?Q = "(\<lambda>(p, args). (''can_query'', [args ! 0, args ! 2])) ` P"
    and ?D = "(\<lambda>(p, args). (''can_fetch_detail'', [args ! 0, i])) ` P"
    and ?A = "(\<lambda>(p, args). (''can_autocommit'', [args ! 0, i])) ` P"
    and ?E = "(\<lambda>(p, args). (''should_consult'', [args ! 1, args ! 0])) ` P"
    and ?F = "(\<lambda>((p, args), (q, args')). (''should_consult'', [args ! 0, args' ! 0])) ` (P \<times> P)"
  have grant: "(''grant'', args) \<in> P" if "(''grant'', args) \<in> ?I" for args using given [OF that] by simp
  have query: "(''can_query'', [r, n]) \<in> ?Q" if "(''grant'', [r, a, n]) \<in> ?I" for r a n
    by (rule rev_image_eqI [OF grant [OF that]]) simp
  have detail: "(''can_fetch_detail'', [r, x]) \<in> ?D" if "(''grant'', [r, a, n]) \<in> ?I" "(''safe_item'', [x]) \<in> ?I" for r a n x
    by (rule rev_image_eqI [OF grant [OF that(1)]]) (simp add: item [OF that(2)])
  have commit: "(''can_autocommit'', [r, x]) \<in> ?A" if "(''grant'', [r, a, n]) \<in> ?I" "(''safe_item'', [x]) \<in> ?I" for r a n x
    by (rule rev_image_eqI [OF grant [OF that(1)]]) (simp add: item [OF that(2)])
  have named: "(''should_consult'', [r, q]) \<in> ?E" if "(''explicit_remote'', [q, r]) \<in> ?I" for r q
    by (rule rev_image_eqI [OF given [OF that]]) simp_all
  have fallback: "(''should_consult'', [r, q]) \<in> ?F"
    if "(''fallback_enabled'', [r, n]) \<in> ?I" "(''query_namespace'', [q, n]) \<in> ?I" for r q n
    by (rule rev_image_eqI [OF SigmaI [OF given [OF that(1)] given [OF that(2)]]]) simp_all
  show ?thesis
    unfolding concludes_def
    by (intro Un_mono subsetI; elim CollectE exE conjE disjE; hypsubst)
      (erule query | erule (1) detail | erule (1) commit | (rule UnI1, erule named) | (rule UnI2, erule (1) fallback))+
qed

lemma small_policy_fits:
  assumes "length (rp_facts self) \<le> 29" "length items \<le> 1"
  shows "fits_budget self items"
proof -
  let ?P = "engine_facts self []" and ?items = "\<Union>item \<in> set items. set (item_facts item)"
  have P: "finite ?P" "card ?P \<le> 29"
    using assms(1) card_image_le [of "set (rp_facts self)" "(\<lambda>(p, args). (p, map ConstStr args)) \<circ> predicate_and_args"] card_length [of "rp_facts self"]
    by (simp_all add: engine_facts_def image_image comp_def)
  have "card ?items \<le> 5" using assms(2) card_length [of "item_facts (hd items)"] by (cases items) (auto simp: item_facts_def)
  moreover have "finite ?items" by simp
  ultimately have "card (engine_facts self items) \<le> 34"
    using P card_Un_le [of ?P "(\<lambda>(p, args). (p, map ConstStr args)) ` ?items"]
      card_image_le [of ?items "\<lambda>(p, args). (p, map ConstStr args)"]
    unfolding engine_facts_split [of self items] by linarith
  moreover have "card (concludes (engine_facts self items)) \<le> 29 + 29 + 29 + (29 + 29 * 29)"
  proof -
    have pairs: "card (?P \<times> ?P) \<le> 29 * 29" using mult_le_mono [OF P(2) P(2)] by (simp add: card_cartesian_product)
    have image: "card (f ` ?P) \<le> 29" for f :: "_ \<Rightarrow> string \<times> dl_term list" using card_image_le [OF P(1), of f] P(2) by linarith
    have image2: "card (f ` (?P \<times> ?P)) \<le> 29 * 29" for f :: "_ \<Rightarrow> string \<times> dl_term list"
      using card_image_le [of "?P \<times> ?P" f] P(1) pairs by simp
    note bound = card_mono [OF _ concludes_bound [OF assms(2), of self]]
    show ?thesis
      by (rule order.trans [OF bound], use P(1) in simp, (rule order.trans [OF card_Un_le] add_mono image image2)+)
  qed
  ultimately show ?thesis unfolding fits_budget_def by linarith
qed

section \<open>Properties\<close>

text \<open>C30. The decisions of a remote policy are exactly what its rules say, deny by default, and never panic: a query needs
  a registered remote and a read grant, fetching details a grant and a safe item, an automatic commit the knowledge
  grant, trust for the namespace of the item and an item without risk or conflict; an explicit denial overrides a grant
  for each of them. A remote is consulted if the query names it, or as a trusted fallback for low local coverage. A
  policy too large for the budget of the evaluation allows none of these. Activation is required exactly if the automatic
  commit is not allowed, and a skill needs grant and trust of its own.\<close>

theorem policy_decides:
  assumes "uuid_texts_long penv"
  shows "let facts = set (rp_facts self) in
    map_option pd_allowed (can_query env penv now self r n) =
      Some (Deny r Read n \<notin> facts \<and> FactRemote r \<in> facts \<and> Grant r Read n \<in> facts \<and> fits_budget self []) \<and>
    map_option pd_allowed (can_fetch_detail env penv now self r item) =
      Some (Deny r DetailFetch ''knowledge'' \<notin> facts \<and> Grant r DetailFetch ''knowledge'' \<in> facts \<and> pi_safe item \<and>
        fits_budget self [item]) \<and>
    map_option pd_allowed (can_autocommit env penv now self r item) =
      Some (Deny r Autocommit ''knowledge'' \<notin> facts \<and> Deny r Autocommit (pi_namespace item) \<notin> facts \<and>
        NotTrustedFor r (pi_namespace item) \<notin> facts \<and> Grant r Autocommit ''knowledge'' \<in> facts \<and>
        TrustedFor r (pi_namespace item) \<in> facts \<and> pi_safe item \<and> \<not> pi_conflict item \<and>
        \<not> pi_prompt_injection_risk item \<and> \<not> pi_secret_risk item \<and> fits_budget self [item]) \<and>
    map_option pd_allowed (requires_activation env penv now self r item) =
      map_option (\<lambda>d. \<not> pd_allowed d) (can_autocommit env penv now self r item) \<and>
    map_option pd_allowed (should_consult env penv now self r q) =
      Some ((ExplicitRemote q r \<in> facts \<or> (\<exists>n. fallback_namespace self r q n)) \<and> fits_budget self []) \<and>
    pd_allowed (can_autocommit_skill self r item) =
      (Deny r Autocommit ''skills'' \<notin> facts \<and> pi_namespace item = ''skills'' \<and> Grant r Autocommit ''skills'' \<in> facts \<and>
       TrustedFor r ''skills'' \<in> facts \<and> pi_safe item \<and> \<not> pi_conflict item \<and> \<not> pi_prompt_injection_risk item \<and>
       \<not> pi_secret_risk item)"
  using query_allowed [OF assms, of env now self r n] detail_allowed [OF assms, of env now self r item]
    autocommit_allowed [OF assms, of env now self r item] consult_allowed [OF assms, of env now self r q]
  by (simp add: Let_def activation_required skill_allowed may_autocommit_def harmless_def conj_assoc)

text \<open>A policy that lets the remote \<open>gpu\<close> commit knowledge about builds.\<close>

definition gpu_policy :: remote_policy where
  "gpu_policy = \<lparr>rp_facts = [FactRemote ''gpu'', Grant ''gpu'' Autocommit ''knowledge'', TrustedFor ''gpu'' ''builds'']\<rparr>"

theorem policy_decides_witness:
  "map_option pd_allowed (can_autocommit plain_env no_uuids 0 gpu_policy ''gpu'' (new_policy_item ''i1'' ''builds'')) = Some True \<and>
   map_option pd_allowed (requires_activation plain_env no_uuids 0 gpu_policy ''gpu'' (new_policy_item ''i1'' ''builds'')) = Some False"
proof -
  have "fits_budget gpu_policy [new_policy_item ''i1'' ''builds'']" by (rule small_policy_fits) (simp_all add: gpu_policy_def)
  then show ?thesis
    using policy_decides [OF no_uuids_long, of gpu_policy plain_env 0 "''gpu''" "''builds''" "new_policy_item ''i1'' ''builds''" "''q''"]
    by (auto simp: Let_def gpu_policy_def new_policy_item_def)
qed

section \<open>Two explanations that miss the reason\<close>

text \<open>Without a \<open>remote\<close> fact a query is denied, and the explanation blames a grant that the policy has.\<close>

lemma present_grant_called_missing:
  assumes "uuid_texts_long penv" "FactRemote r \<notin> set (rp_facts self)" "Deny r Read n \<notin> set (rp_facts self)"
  shows "can_query env penv now self r n =
    Some (decision False Read [new_reason ''missing_grant'' (''grant('' @ r @ '', read, '' @ n @ '')'') ''no read grant matched this namespace''])"
  using query_concluded [of r n self] assms by (simp add: can_query_def derived_contains_iff deny_reasons_empty)

text \<open>A fallback through the second namespace of a query is allowed with no reason at all.\<close>

definition two_namespace_policy :: remote_policy where
  "two_namespace_policy = \<lparr>rp_facts = [QueryNamespace ''q'' ''a'', QueryNamespace ''q'' ''b'', LocalCoverage ''q'' CoverageLow,
     FallbackEnabled ''gpu'' ''b'', TrustedFor ''gpu'' ''b'']\<rparr>"

lemma consult_without_reason:
  assumes "uuid_texts_long penv"
  shows "should_consult env penv now two_namespace_policy ''gpu'' ''q'' = Some (decision True ShouldConsult [])"
proof -
  have "fits_budget two_namespace_policy []" by (rule small_policy_fits) (simp_all add: two_namespace_policy_def)
  moreover have "fallback_namespace two_namespace_policy ''gpu'' ''q'' ''b''" by (simp add: fallback_namespace_def two_namespace_policy_def)
  ultimately have "derived_contains env penv now two_namespace_policy ''should_consult'' [''gpu'', ''q''] [] = Some True"
    using consult_concluded [of "''gpu''" "''q''" two_namespace_policy] 
      derived_contains_iff [OF assms, of "''should_consult''" env now two_namespace_policy "[''gpu'', ''q'']" "[]"] by auto
  moreover have "consult_reasons two_namespace_policy ''gpu'' ''q'' = []" by code_simp
  ultimately show ?thesis by (simp add: should_consult_def)
qed

end
