(* ===== verification/Remote_Text.thy ===== *)
theory Remote_Text
  imports Rule_Parser
begin

text \<open>
  The functions of \<open>str\<close> that the remote-teaching code uses beyond those of the rule parser, and the normalisation its
  classifiers share (\<open>remotes/safety.rs\<close>, \<open>remotes/applicability.rs\<close>: \<open>normalize_text\<close>, \<open>contains_any\<close>). A text is its
  UTF-8 bytes. What depends on the Unicode tables of the standard library is a field of \<open>unicode_env\<close>.
\<close>

record unicode_env =
  lowercase_of :: "string \<Rightarrow> string"
  is_alphanumeric :: "string \<Rightarrow> bool"

text \<open>The characters of a text, each as its bytes: a continuation byte belongs to the character before it.\<close>

definition continuation_byte :: "char \<Rightarrow> bool" where
  "continuation_byte c \<longleftrightarrow> 128 \<le> (of_char c :: nat) \<and> (of_char c :: nat) < 192"

fun utf8_chars :: "string \<Rightarrow> string list" where
  "utf8_chars [] = []"
| "utf8_chars (c # cs) =
     (case utf8_chars cs of
        [] \<Rightarrow> [[c]]
      | ch # rest \<Rightarrow> if continuation_byte (hd ch) then (c # ch) # rest else [c] # ch # rest)"

text \<open>\<open>str::split\<close> by a predicate on characters, and \<open>str::split_whitespace\<close>.\<close>

fun split_chars :: "(string \<Rightarrow> bool) \<Rightarrow> string list \<Rightarrow> string list" where
  "split_chars sep [] = [[]]"
| "split_chars sep (ch # rest) =
     (if sep ch then [] # split_chars sep rest
      else case split_chars sep rest of [] \<Rightarrow> [ch] | w # ws \<Rightarrow> (ch @ w) # ws)"

definition is_whitespace :: "string \<Rightarrow> bool" where
  "is_whitespace ch \<longleftrightarrow> ch \<in> set whitespace"

definition split_whitespace :: "string \<Rightarrow> string list" where
  "split_whitespace s = filter (\<lambda>w. w \<noteq> []) (split_chars is_whitespace (utf8_chars s))"

definition ascii_upper :: "char \<Rightarrow> char" where
  "ascii_upper c = (if 97 \<le> (of_char c :: nat) \<and> (of_char c :: nat) \<le> 122 then char_of (of_char c - 32 :: nat) else c)"

text \<open>
  \<open>normalize_text\<close>. Every character that is not an ASCII letter or digit becomes one space; here every byte of it does,
  and splitting by white space removes the difference.
\<close>

definition normalize_text :: "string \<Rightarrow> string" where
  "normalize_text text =
     join_strings '' '' (split_whitespace (map (\<lambda>ch. if is_ascii_alphanumeric ch then ch else CHR '' '') (map ascii_lower text)))"

definition contains_any :: "string \<Rightarrow> string list \<Rightarrow> bool" where
  "contains_any text needles = list_ex (str_contains text) needles"

text \<open>\<open>trim_matches\<close> by a set of ASCII characters.\<close>

definition trim_matches :: "char set \<Rightarrow> string \<Rightarrow> string" where
  "trim_matches cs s = rev (dropWhile (\<lambda>c. c \<in> cs) (rev (dropWhile (\<lambda>c. c \<in> cs) s)))"

lemma utf8_chars_concat: "concat (utf8_chars s) = s"
  by (induction s rule: utf8_chars.induct) (auto split: list.splits)

lemma split_chars_pieces:
  "split_chars sep chs \<noteq> []" "\<not> (\<exists>ch \<in> set chs. sep ch) \<Longrightarrow> split_chars sep chs = [concat chs]"
  by (induction sep chs rule: split_chars.induct) (auto split: list.splits)

end
