(* ===== verification/Remote_Safety.thy ===== *)
theory Remote_Safety
  imports Remote_Text
begin

text \<open>
  The deterministic classifiers of remote content: safety (\<open>remotes/safety.rs\<close>: \<open>classify_safety\<close>) and applicability
  (\<open>remotes/applicability.rs\<close>: \<open>ApplicabilityClassifier::extract\<close>, \<open>compare_applicability\<close>).
\<close>

section \<open>Safety\<close>

fun risk_rank :: "safety_risk \<Rightarrow> nat" where
  "risk_rank RiskNone = 0"
| "risk_rank RiskLow = 1"
| "risk_rank RiskMedium = 2"
| "risk_rank RiskHigh = 3"
| "risk_rank RiskSuspected = 4"
| "risk_rank RiskRedacted = 5"

definition max_risk :: "safety_risk \<Rightarrow> safety_risk \<Rightarrow> safety_risk" where
  "max_risk left right = (if risk_rank left < risk_rank right then right else left)"

definition has_imperative :: "string \<Rightarrow> bool" where
  "has_imperative text = contains_any text
     [''read '', ''reveal '', ''send '', ''print '', ''dump '', ''exfiltrate '', ''show '', ''return '']"

definition has_instruction_like_text :: "string \<Rightarrow> bool" where
  "has_instruction_like_text text = contains_any text
     [''run '', ''execute '', ''copy '', ''paste '', ''curl '', ''cargo '', ''docker '', ''podman '', ''then '', ''set '',
      ''export '', ''install '']"

definition has_injection_phrase :: "string \<Rightarrow> bool" where
  "has_injection_phrase text = contains_any text
     [''ignore previous instructions'', ''disregard previous instructions'', ''forget previous instructions'',
      ''developer message'', ''hidden instructions'']"

definition has_private_key_block :: "string \<Rightarrow> bool" where
  "has_private_key_block text =
     (let upper = map ascii_upper text in str_contains upper ''-----BEGIN'' \<and> str_contains upper ''PRIVATE KEY-----'')"

definition looks_like_secret_token :: "string \<Rightarrow> bool" where
  "looks_like_secret_token token =
     (let trimmed = trim_matches {CHR '':'', CHR ''='', CHR 0x60} token in
      starts_with trimmed ''sk-'' \<and> 24 \<le> length trimmed \<or>
      starts_with trimmed ''ghp_'' \<or> starts_with trimmed ''github_pat_'' \<or>
      starts_with trimmed ''AKIA'' \<and> 16 \<le> length trimmed \<or>
      32 \<le> length (filter is_ascii_alphanumeric trimmed) \<and> list_ex is_ascii_digit trimmed)"

definition secret_separator :: "string \<Rightarrow> bool" where
  "secret_separator ch \<longleftrightarrow> is_whitespace ch \<or> ch \<in> {'','', '';'', [quote], [CHR 0x27]}"

definition has_api_key_shape :: "string \<Rightarrow> bool" where
  "has_api_key_shape text =
     list_ex (\<lambda>token. looks_like_secret_token (trim token)) (split_chars secret_separator (utf8_chars text))"

text \<open>The mutable \<open>risk\<close>, \<open>reasons\<close>, \<open>redacted\<close> and \<open>requires_human\<close> are the fields of the classification built up.\<close>

definition safety_secrets :: "string \<Rightarrow> safety_classification" where
  "safety_secrets text =
     (if has_private_key_block text then
        \<lparr>sc_risk = RiskRedacted, sc_reasons = [''secret-like private key material detected; content must be redacted''],
         sc_redacted = True, sc_requires_human = True\<rparr>
      else if has_api_key_shape text then
        \<lparr>sc_risk = RiskSuspected, sc_reasons = [''secret-like API/private key pattern suspected; content must be reviewed''],
         sc_redacted = True, sc_requires_human = True\<rparr>
      else \<lparr>sc_risk = RiskNone, sc_reasons = [], sc_redacted = False, sc_requires_human = False\<rparr>)"

definition safety_injection :: "string \<Rightarrow> safety_classification \<Rightarrow> safety_classification" where
  "safety_injection normalized c =
     (if has_injection_phrase normalized then
        c\<lparr>sc_reasons := sc_reasons c @ [''prompt injection phrase detected''], sc_risk := max_risk (sc_risk c) RiskHigh,
          sc_requires_human := True\<rparr>
      else c)"

definition safety_system_prompt :: "string \<Rightarrow> safety_classification \<Rightarrow> safety_classification" where
  "safety_system_prompt normalized c =
     (if str_contains normalized ''system prompt'' then
        c\<lparr>sc_reasons := sc_reasons c @ [''system prompt reference detected''],
          sc_risk := max_risk (sc_risk c) (if has_imperative normalized then RiskHigh else RiskMedium),
          sc_requires_human := True\<rparr>
      else c)"

definition safety_instructions :: "string \<Rightarrow> safety_classification \<Rightarrow> safety_classification" where
  "safety_instructions normalized c =
     (if has_instruction_like_text normalized then
        c\<lparr>sc_reasons := sc_reasons c @ [''instruction-like procedure text detected''], sc_risk := max_risk (sc_risk c) RiskLow\<rparr>
      else c)"

definition classify_safety :: "string \<Rightarrow> safety_classification" where
  "classify_safety text =
     (let normalized = normalize_text text;
          c = safety_instructions normalized (safety_system_prompt normalized (safety_injection normalized (safety_secrets text))) in
      if sc_reasons c = [] then c\<lparr>sc_reasons := [''no deterministic safety triggers detected'']\<rparr> else c)"

section \<open>Applicability\<close>

datatype applicability_alias_target =
    HostOs string
  | ContainerRuntime string
  | Hardware string
  | RequiredTag string
  | ExcludedTag string

record applicability_alias =
  aa_phrase :: string
  aa_target :: applicability_alias_target

definition new_alias :: "string \<Rightarrow> applicability_alias_target \<Rightarrow> applicability_alias" where
  "new_alias phrase target = \<lparr>aa_phrase = normalize_text phrase, aa_target = target\<rparr>"

definition detect_host_os :: "string \<Rightarrow> string option" where
  "detect_host_os text =
     (if contains_any text [''mac'', ''macos'', ''osx'', ''darwin''] then Some ''macos''
      else if contains_any text [''linux'', ''ubuntu'', ''debian'', ''fedora'', ''nixos''] then Some ''linux''
      else if contains_any text [''windows'', ''win32'', ''powershell''] then Some ''windows'' else None)"

definition detect_container_runtime :: "string \<Rightarrow> string option" where
  "detect_container_runtime text =
     (if contains_any text [''docker'', ''dockerd''] then Some ''docker''
      else if contains_any text [''podman'', ''podman machine''] then Some ''podman''
      else if contains_any text [''kubernetes'', ''k8s''] then Some ''kubernetes'' else None)"

definition canonical_value :: "string \<Rightarrow> string" where
  "canonical_value s = map (\<lambda>c. if c = CHR ''_'' then CHR ''-'' else c) (map ascii_lower (trim s))"

definition push_unique :: "string list \<Rightarrow> string \<Rightarrow> string list" where
  "push_unique values s = (let canonical = canonical_value s in if canonical \<in> set values then values else values @ [canonical])"

fun apply_alias :: "applicability_alias_target \<Rightarrow> applicability_frame \<Rightarrow> applicability_frame" where
  "apply_alias (HostOs s) frame = frame\<lparr>af_host_os := Some (canonical_value s)\<rparr>"
| "apply_alias (ContainerRuntime s) frame = frame\<lparr>af_container_runtime := Some (canonical_value s)\<rparr>"
| "apply_alias (Hardware s) frame = frame\<lparr>af_hardware := push_unique (af_hardware frame) s\<rparr>"
| "apply_alias (RequiredTag s) frame = frame\<lparr>af_required_tags := push_unique (af_required_tags frame) s\<rparr>"
| "apply_alias (ExcludedTag s) frame = frame\<lparr>af_excluded_tags := push_unique (af_excluded_tags frame) s\<rparr>"

text \<open>Through a \<open>BTreeSet\<close>: sorted, without duplicates.\<close>

definition dedup_sort :: "string list \<Rightarrow> string list" where
  "dedup_sort values = sort (remdups values)"

text \<open>
  The number of signals halved and clamped to the unit interval is 0, one half or 1; the field holds the bit pattern.
\<close>

definition confidence_for :: "applicability_frame \<Rightarrow> 64 word" where
  "confidence_for frame =
     (let signals = (if af_host_os frame \<noteq> None then 1 else 0) + (if af_container_runtime frame \<noteq> None then 1 else 0) +
            length (af_hardware frame) + length (af_required_tags frame) + length (af_excluded_tags frame) in
      if signals = (0 :: nat) then 0 else if signals = 1 then 0x3FE0000000000000 else 0x3FF0000000000000)"

definition push_if :: "bool \<Rightarrow> string \<Rightarrow> string list \<Rightarrow> string list" where
  "push_if hit tag values = (if hit \<and> tag \<notin> set values then values @ [tag] else values)"

definition base_frame :: "string \<Rightarrow> applicability_frame" where
  "base_frame normalized =
     \<lparr>af_namespaces = [], af_host_os = detect_host_os normalized, af_container_runtime = detect_container_runtime normalized,
      af_hardware = push_if (contains_any normalized [''gpu'', ''cuda'', ''nvidia'']) ''gpu'' [],
      af_required_tags =
        push_if (contains_any normalized [''staging'']) ''environment:staging''
          (push_if (contains_any normalized [''production'', ''prod'']) ''environment:prod''
            (push_if (contains_any normalized [''ferrosa memory'', ''ferrosa-memory'', ''fmem'']) ''project:ferrosa-memory'' [])),
      af_excluded_tags = [], af_confidence = 0\<rparr>"

definition extract_frame :: "applicability_alias list \<Rightarrow> string \<Rightarrow> applicability_frame" where
  "extract_frame aliases text =
     (let normalized = normalize_text text;
          frame = fold (\<lambda>a f. if str_contains normalized (aa_phrase a) then apply_alias (aa_target a) f else f) aliases
            (base_frame normalized);
          frame = frame\<lparr>af_hardware := dedup_sort (af_hardware frame), af_required_tags := dedup_sort (af_required_tags frame),
            af_excluded_tags := dedup_sort (af_excluded_tags frame)\<rparr> in
      frame\<lparr>af_confidence := confidence_for frame\<rparr>)"

datatype applicability_match = MatchExact | MatchPartial | MatchDisjoint | MatchUnknown | MatchConflictProne

record applicability_comparison =
  ac_kind :: applicability_match
  ac_reasons :: "string list"
  ac_requires_review :: bool

definition is_unknown :: "applicability_frame \<Rightarrow> bool" where
  "is_unknown frame \<longleftrightarrow> af_host_os frame = None \<and> af_container_runtime frame = None \<and> af_hardware frame = [] \<and>
     af_required_tags frame = [] \<and> af_excluded_tags frame = []"

fun field_conflicts :: "string option \<Rightarrow> string option \<Rightarrow> bool" where
  "field_conflicts (Some left) (Some right) = (left \<noteq> right)"
| "field_conflicts _ _ = False"

fun same_known :: "string option \<Rightarrow> string option \<Rightarrow> bool" where
  "same_known (Some left) (Some right) = (left = right)"
| "same_known _ _ = False"

definition tag_sets_conflict :: "string list \<Rightarrow> string list \<Rightarrow> bool" where
  "tag_sets_conflict required excluded = list_ex (\<lambda>r. list_ex (\<lambda>e. e = r) excluded) required"

definition frames_exactly_match :: "applicability_frame \<Rightarrow> applicability_frame \<Rightarrow> bool" where
  "frames_exactly_match remote current \<longleftrightarrow> af_host_os remote = af_host_os current \<and>
     af_container_runtime remote = af_container_runtime current \<and>
     dedup_sort (af_hardware remote) = dedup_sort (af_hardware current) \<and>
     dedup_sort (af_required_tags remote) = dedup_sort (af_required_tags current) \<and>
     dedup_sort (af_excluded_tags remote) = dedup_sort (af_excluded_tags current)"

definition or_unknown :: "string option \<Rightarrow> string" where
  "or_unknown x = (case x of Some s \<Rightarrow> s | None \<Rightarrow> ''unknown'')"

definition compare_applicability :: "applicability_frame \<Rightarrow> applicability_frame \<Rightarrow> applicability_comparison" where
  "compare_applicability remote current =
     (if is_unknown remote \<or> is_unknown current then
        \<lparr>ac_kind = MatchUnknown, ac_reasons = [''unknown applicability scope requires conservative review''],
         ac_requires_review = True\<rparr>
      else if field_conflicts (af_host_os remote) (af_host_os current) then
        \<lparr>ac_kind = MatchDisjoint, ac_reasons = [''host_os differs: remote='' @ or_unknown (af_host_os remote) @ '' current='' @
           or_unknown (af_host_os current)], ac_requires_review = True\<rparr>
      else if tag_sets_conflict (af_required_tags remote) (af_excluded_tags current) then
        \<lparr>ac_kind = MatchDisjoint, ac_reasons = [''remote required_tags intersect current excluded_tags''], ac_requires_review = True\<rparr>
      else if tag_sets_conflict (af_required_tags current) (af_excluded_tags remote) then
        \<lparr>ac_kind = MatchDisjoint, ac_reasons = [''current required_tags intersect remote excluded_tags''], ac_requires_review = True\<rparr>
      else if same_known (af_host_os remote) (af_host_os current) \<and>
        field_conflicts (af_container_runtime remote) (af_container_runtime current) then
        \<lparr>ac_kind = MatchConflictProne, ac_reasons = [''same host_os but different container runtime: remote='' @
           or_unknown (af_container_runtime remote) @ '' current='' @ or_unknown (af_container_runtime current)],
         ac_requires_review = True\<rparr>
      else if frames_exactly_match remote current then
        \<lparr>ac_kind = MatchExact, ac_reasons = [''all known applicability dimensions match exactly''], ac_requires_review = False\<rparr>
      else
        \<lparr>ac_kind = MatchPartial, ac_reasons = [''some applicability dimensions match but scope is not exact''],
         ac_requires_review = True\<rparr>)"

section \<open>What the classifiers guarantee\<close>

text \<open>The greatest risk among the triggers that fired.\<close>

definition triggered_risks :: "string \<Rightarrow> safety_risk set" where
  "triggered_risks text =
     {r. r = RiskRedacted \<and> has_private_key_block text \<or>
         r = RiskSuspected \<and> has_api_key_shape text \<or>
         r = RiskHigh \<and> (has_injection_phrase (normalize_text text) \<or>
           str_contains (normalize_text text) ''system prompt'' \<and> has_imperative (normalize_text text)) \<or>
         r = RiskMedium \<and> str_contains (normalize_text text) ''system prompt'' \<or>
         r = RiskLow \<and> has_instruction_like_text (normalize_text text)}"

lemma risk_rank_inject [simp]: "risk_rank a = risk_rank b \<longleftrightarrow> a = b"
  by (cases a; cases b) simp_all

text \<open>
  The classification is the greatest triggered risk, whatever the order in which the triggers are tried; content is
  redacted exactly for secret material, and reviewed by a human exactly for secrets, injection phrases and references to
  the system prompt.
\<close>

lemma classify_safety_risk:
  "sc_risk (classify_safety text) =
     (let normalized = normalize_text text;
          r0 = (if has_private_key_block text then RiskRedacted else if has_api_key_shape text then RiskSuspected else RiskNone);
          r1 = (if has_injection_phrase normalized then max_risk r0 RiskHigh else r0);
          r2 = (if str_contains normalized ''system prompt''
                then max_risk r1 (if has_imperative normalized then RiskHigh else RiskMedium) else r1) in
      if has_instruction_like_text normalized then max_risk r2 RiskLow else r2)"
  by (simp add: classify_safety_def safety_instructions_def safety_system_prompt_def safety_injection_def safety_secrets_def Let_def)

lemma classify_safety_exact:
  "if triggered_risks text = {} then sc_risk (classify_safety text) = RiskNone
   else sc_risk (classify_safety text) \<in> triggered_risks text \<and>
     (\<forall>s \<in> triggered_risks text. risk_rank s \<le> risk_rank (sc_risk (classify_safety text)))"
proof -
  let ?p = "has_private_key_block text" and ?a = "has_api_key_shape text" and ?n = "normalize_text text"
  show ?thesis
    unfolding classify_safety_risk triggered_risks_def
    by (cases ?p; cases ?a; cases "has_injection_phrase ?n"; cases "str_contains ?n ''system prompt''";
        cases "has_imperative ?n"; cases "has_instruction_like_text ?n"; force simp: max_risk_def Let_def)
qed

lemma classify_safety_flags:
  "sc_redacted (classify_safety text) = (has_private_key_block text \<or> has_api_key_shape text)"
  "sc_requires_human (classify_safety text) = (has_private_key_block text \<or> has_api_key_shape text \<or>
     has_injection_phrase (normalize_text text) \<or> str_contains (normalize_text text) ''system prompt'')"
  "sc_reasons (classify_safety text) \<noteq> []"
  by (auto simp: classify_safety_def safety_instructions_def safety_system_prompt_def safety_injection_def safety_secrets_def Let_def)

lemma field_conflicts_sym: "field_conflicts a b = field_conflicts b a"
  by (cases a; cases b) auto

lemma same_known_sym: "same_known a b = same_known b a"
  by (cases a; cases b) auto

text \<open>Comparison has the same outcome in both directions, and only an exact match of two known frames needs no review.\<close>

lemma compare_applicability_symmetric:
  "ac_kind (compare_applicability a b) = ac_kind (compare_applicability b a)"
proof -
  have "frames_exactly_match a b = frames_exactly_match b a" by (auto simp: frames_exactly_match_def)
  then show ?thesis
    by (simp add: compare_applicability_def field_conflicts_sym [of "af_host_os a"] field_conflicts_sym [of "af_container_runtime a"]
        same_known_sym [of "af_host_os a"])
qed

lemma dedup_sort_eq: "dedup_sort xs = dedup_sort ys \<longleftrightarrow> set xs = set ys"
proof
  assume "set xs = set ys"
  then show "dedup_sort xs = dedup_sort ys"
    unfolding dedup_sort_def by (intro sorted_distinct_set_unique) simp_all
next
  assume "dedup_sort xs = dedup_sort ys"
  then have "set (dedup_sort xs) = set (dedup_sort ys)" by simp
  then show "set xs = set ys" by (simp add: dedup_sort_def)
qed

lemma no_review_iff:
  "\<not> ac_requires_review (compare_applicability remote current) \<longleftrightarrow>
     \<not> is_unknown remote \<and> af_host_os remote = af_host_os current \<and> af_container_runtime remote = af_container_runtime current \<and>
     set (af_hardware remote) = set (af_hardware current) \<and> set (af_required_tags remote) = set (af_required_tags current) \<and>
     set (af_excluded_tags remote) = set (af_excluded_tags current) \<and> set (af_required_tags remote) \<inter> set (af_excluded_tags remote) = {}"
proof -
  have "\<not> field_conflicts x x" for x by (cases x) simp_all
  moreover have "is_unknown current = is_unknown remote" if "frames_exactly_match remote current"
    using that by (auto simp: frames_exactly_match_def is_unknown_def dedup_sort_eq)
  ultimately show ?thesis
    by (auto simp: compare_applicability_def tag_sets_conflict_def list_ex_iff frames_exactly_match_def dedup_sort_eq)
qed

text \<open>The name of the operating system is looked for inside words, so a Linux machine counts as a Mac.\<close>

lemma linux_machine_is_macos: "af_host_os (extract_frame [] ''Run it on the Linux machine'') = Some ''macos''"
  by code_simp

end
