(* ===== verification/Remote_Pull.thy ===== *)
theory Remote_Pull
  imports Policy_Decisions Remote_Safety Remote_Identity Query_Store
begin

text \<open>
  Pulling memory from a remote (\<open>remotes/pull.rs\<close>): the dry-run preview of a signed packet and the commit of a preview. The
  client that fetches the packet is a function; the storage operations are a record, with the locale \<open>pull_store\<close> for
  what the code relies on and the in-memory backend of \<open>storage.rs\<close> as the instance. Readings of the clock and fresh
  identifiers are arguments.
\<close>

section \<open>Data\<close>

datatype import_state =
  ImpActive | ImpActiveStub | ImpNeedsActivation | ImpConflicting | ImpQuarantined | ImpSuperseded | ImpArchived | ImpRejected

record teaching_packet =
  tp_packet_id :: uuid
  tp_teacher_instance_id :: instance_id
  tp_request_id :: "uuid option"
  tp_source_namespace :: string
  tp_query :: string
  tp_items :: "teaching_item list"
  tp_expires_at :: "instant option"
  tp_created_at :: instant

record remote_stub =
  rs_stub_id :: uuid
  rs_remote_id :: uuid
  rs_packet_id :: uuid
  rs_item_id :: uuid
  rs_local_entity_id :: "uuid option"
  rs_title :: string
  rs_summary :: string
  rs_state :: import_state
  rs_detail_ref :: "detail_ref option"
  rs_created_at :: instant
  rs_updated_at :: instant

record import_batch =
  ib_batch_id :: uuid
  ib_remote_id :: uuid
  ib_packet_id :: uuid
  ib_state :: import_state
  ib_imported_count :: i32
  ib_rejected_count :: i32
  ib_conflict_count :: i32
  ib_explanation :: string
  ib_created_at :: instant
  ib_completed_at :: "instant option"

record pull_preview_request =
  pq_remote_id :: uuid
  pq_remote_name :: string
  pq_query :: string
  pq_policy :: remote_policy
  pq_public_identity :: instance_public_identity
  pq_local_applicability :: "applicability_frame option"
  pq_preview_ttl :: int

datatype candidate_kind = CandNone | ExactDuplicate | NearDuplicate | Conflict

record duplicate_conflict_candidate =
  dc_kind :: candidate_kind
  dc_local_entity_id :: "uuid option"
  dc_reason :: string

definition no_candidate :: duplicate_conflict_candidate where
  "no_candidate = \<lparr>dc_kind = CandNone, dc_local_entity_id = None, dc_reason = ''no local duplicate or conflict candidate''\<rparr>"

record pull_preview_item =
  vi_item :: teaching_item
  vi_state :: import_state
  vi_candidate :: duplicate_conflict_candidate
  vi_reasons :: "string list"

record pull_preview_plan =
  vp_preview_id :: uuid
  vp_remote_id :: uuid
  vp_remote_name :: string
  vp_query :: string
  vp_packet :: "teaching_packet signed_envelope"
  vp_items :: "pull_preview_item list"
  vp_created_at :: instant
  vp_expires_at :: instant
  vp_dry_run :: bool

record import_decision_payload =
  id_preview_id :: uuid
  id_remote_id :: uuid
  id_packet_id :: uuid
  id_active_item_ids :: "uuid list"
  id_stub_item_ids :: "uuid list"
  id_quarantined_item_ids :: "uuid list"
  id_decided_at :: instant

record pull_commit_request =
  cr_preview :: pull_preview_plan
  cr_learner_decision :: "import_decision_payload signed_envelope"

record pull_commit_receipt =
  rc_batch_id :: uuid
  rc_imported_count :: i32
  rc_stub_count :: i32
  rc_quarantined_count :: i32
  rc_decision :: "import_decision_payload signed_envelope"

datatype 'e pull_error =
    ClientError string
  | VerifyError remote_identity_error
  | PacketExpired
  | StoreError 'e
  | DecisionMismatch
  | PreviewExpired
  | SkillItemRefused

text \<open>What the code takes from serde, Ed25519, the rule engine's libraries and the Unicode tables.\<close>

record pull_env = unicode_env +
  pe_sig :: sig_env
  pe_datalog :: datalog_env
  pe_parser :: parser_env
  packet_to_value :: "teaching_packet \<Rightarrow> string + json"
  decision_to_value :: "import_decision_payload \<Rightarrow> string + json"
  frame_from_value :: "json \<Rightarrow> applicability_frame option"
  frame_to_value :: "applicability_frame \<Rightarrow> json"

section \<open>Classification of an item\<close>

definition item_text :: "'x pull_env_scheme \<Rightarrow> teaching_item \<Rightarrow> string" where
  "item_text env item =
     lowercase_of env (ti_title item @ '' '' @ ti_summary item @ '' '' @ (case ti_body item of Some b \<Rightarrow> b | None \<Rightarrow> []))"

definition looks_like_prompt_injection :: "'x pull_env_scheme \<Rightarrow> teaching_item \<Rightarrow> bool" where
  "looks_like_prompt_injection env item =
     (let text = item_text env item in
      str_contains text ''ignore previous instructions'' \<or> str_contains text ''reveal secrets'' \<or> str_contains text ''system prompt'')"

definition looks_like_secret :: "'x pull_env_scheme \<Rightarrow> teaching_item \<Rightarrow> bool" where
  "looks_like_secret env item =
     (let text = item_text env item in
      str_contains text ''secret'' \<or> str_contains text ''private key'' \<or> str_contains text ''api_key'')"

definition is_unsafe :: "'x pull_env_scheme \<Rightarrow> teaching_item \<Rightarrow> bool" where
  "is_unsafe env item \<longleftrightarrow> sc_risk (ti_safety item) \<in> {RiskHigh, RiskSuspected, RiskRedacted} \<or> sc_redacted (ti_safety item) \<or>
     sc_requires_human (ti_safety item) \<or> looks_like_prompt_injection env item \<or> looks_like_secret env item"

definition item_namespace :: "teaching_item \<Rightarrow> string" where
  "item_namespace item = (case af_namespaces (ti_applicability item) of n # _ \<Rightarrow> n | [] \<Rightarrow> ''knowledge'')"

definition policy_item_from_teaching :: "'x pull_env_scheme \<Rightarrow> teaching_item \<Rightarrow> bool \<Rightarrow> policy_item" where
  "policy_item_from_teaching env item conflict =
     \<lparr>pi_item_id = uuid_text (pe_datalog env) (ti_item_id item), pi_namespace = item_namespace item, pi_safe = (\<not> is_unsafe env item),
      pi_conflict = conflict, pi_prompt_injection_risk = looks_like_prompt_injection env item,
      pi_secret_risk = looks_like_secret env item\<rparr>"

fun entity_type_for :: "teaching_kind \<Rightarrow> string" where
  "entity_type_for TkFact = ''concept''"
| "entity_type_for TkDecision = ''decision''"
| "entity_type_for TkPattern = ''pattern''"
| "entity_type_for TkBug = ''bug''"
| "entity_type_for TkSummary = ''document''"
| "entity_type_for TkSkillStub = ''skill''"
| "entity_type_for TkProcedureStub = ''skill''"
| "entity_type_for TkNegative = ''concept''"

section \<open>Duplicates and conflicts\<close>

definition field_disjoint :: "'x pull_env_scheme \<Rightarrow> string option \<Rightarrow> string option \<Rightarrow> bool" where
  "field_disjoint env left right \<longleftrightarrow> left \<noteq> None \<and> right \<noteq> None \<and>
     map_option (lowercase_of env) left \<noteq> map_option (lowercase_of env) right"

definition applicability_is_disjoint :: "'x pull_env_scheme \<Rightarrow> applicability_frame \<Rightarrow> applicability_frame \<Rightarrow> bool" where
  "applicability_is_disjoint env left right \<longleftrightarrow> field_disjoint env (af_host_os left) (af_host_os right) \<or>
     field_disjoint env (af_container_runtime left) (af_container_runtime right)"

text \<open>\<open>Value::get\<close> with a key: only an object has entries.\<close>

fun json_get :: "json \<Rightarrow> string \<Rightarrow> json option" where
  "json_get (JObject m) key = map_of m key"
| "json_get _ key = None"

definition same_applicability_scope :: "'x pull_env_scheme \<Rightarrow> entity_entry \<Rightarrow> teaching_item \<Rightarrow> bool" where
  "same_applicability_scope env entity item =
     (case json_get (ee_properties entity) ''applicability'' of
        None \<Rightarrow> True
      | Some v \<Rightarrow>
          (case frame_from_value env v of
             None \<Rightarrow> True
           | Some local \<Rightarrow> \<not> applicability_is_disjoint env local (ti_applicability item)))"

definition kept_char :: "string \<Rightarrow> bool" where
  "kept_char ch \<longleftrightarrow> length ch = 1 \<and> is_ascii_alphanumeric (hd ch) \<or> is_whitespace ch"

definition normalized :: "'x pull_env_scheme \<Rightarrow> string \<Rightarrow> string" where
  "normalized env s =
     join_strings '' '' (split_whitespace (concat (filter kept_char (utf8_chars (lowercase_of env s)))))"

definition long_words :: "string \<Rightarrow> string list" where
  "long_words s = filter (\<lambda>w. 2 < length w) (split_whitespace s)"

definition title_overlap :: "'x pull_env_scheme \<Rightarrow> string \<Rightarrow> string \<Rightarrow> bool" where
  "title_overlap env left right =
     (let l = normalized env left; r = normalized env right in
      str_contains l r \<or> str_contains r l \<or>
      2 \<le> length (filter (\<lambda>w. w \<in> set (long_words r)) (remdups (long_words l))))"

definition snippet_overlap :: "'x pull_env_scheme \<Rightarrow> string \<Rightarrow> string \<Rightarrow> bool" where
  "snippet_overlap env left right =
     (let l = normalized env left; r = normalized env right in
      list_ex (\<lambda>w. 4 < length w \<and> str_contains r w) (split_whitespace l))"

definition is_exact_duplicate :: "'x pull_env_scheme \<Rightarrow> teaching_item \<Rightarrow> entity_entry \<Rightarrow> bool" where
  "is_exact_duplicate env item entity \<longleftrightarrow>
     same_applicability_scope env entity item \<and> ee_content_hash entity = Some (content_hash_text (ti_content_hash item))"

fun scan_entities :: "'x pull_env_scheme \<Rightarrow> teaching_item \<Rightarrow> entity_entry list \<Rightarrow> duplicate_conflict_candidate" where
  "scan_entities env item [] = no_candidate"
| "scan_entities env item (entity # rest) =
     (if \<not> same_applicability_scope env entity item then scan_entities env item rest
      else if normalized env (ee_entity_name entity) = normalized env (ti_title item) \<and>
        normalized env (ee_context_snippet entity) \<noteq> normalized env (ti_summary item) then
        \<lparr>dc_kind = Conflict, dc_local_entity_id = Some (ee_entity_id entity),
         dc_reason = ''same scoped title carries incompatible fact text''\<rparr>
      else if title_overlap env (ee_entity_name entity) (ti_title item) \<and>
        snippet_overlap env (ee_context_snippet entity) (ti_summary item) then
        \<lparr>dc_kind = NearDuplicate, dc_local_entity_id = Some (ee_entity_id entity),
         dc_reason = ''similar title/summary/scope candidate''\<rparr>
      else scan_entities env item rest)"

definition find_candidate :: "'x pull_env_scheme \<Rightarrow> teaching_item \<Rightarrow> entity_entry list \<Rightarrow> duplicate_conflict_candidate" where
  "find_candidate env item entities =
     (case List.find (is_exact_duplicate env item) entities of
        Some entity \<Rightarrow> \<lparr>dc_kind = ExactDuplicate, dc_local_entity_id = Some (ee_entity_id entity),
          dc_reason = ''same source_content_hash/content_hash already exists locally''\<rparr>
      | None \<Rightarrow> scan_entities env item entities)"

section \<open>Storage\<close>

record ('s, 'e) pull_store_ops =
  entity_list_all :: "uuid \<Rightarrow> ('s, 'e, entity_entry list) store_call"
  entity_put :: "uuid \<Rightarrow> entity_entry \<Rightarrow> ('s, 'e, unit) store_call"
  temporal_put :: "uuid \<Rightarrow> temporal_event \<Rightarrow> ('s, 'e, unit) store_call"
  memory_provenance_put :: "uuid \<Rightarrow> memory_provenance \<Rightarrow> ('s, 'e, unit) store_call"
  remote_stub_put :: "uuid \<Rightarrow> remote_stub \<Rightarrow> ('s, 'e, unit) store_call"
  import_batch_put :: "uuid \<Rightarrow> import_batch \<Rightarrow> ('s, 'e, unit) store_call"

text \<open>The rows a pull reads and writes.\<close>

record pull_rows =
  prw_entities :: "entity_entry list"
  prw_temporal :: "temporal_event list"
  prw_provenance :: "memory_provenance list"
  prw_stubs :: "remote_stub list"
  prw_batches :: "import_batch list"

text \<open>The first match is replaced; without a match the row is pushed.\<close>

fun upsert :: "('a \<Rightarrow> bool) \<Rightarrow> 'a \<Rightarrow> 'a list \<Rightarrow> 'a list" where
  "upsert p x [] = [x]"
| "upsert p x (y # ys) = (if p y then x # ys else y # upsert p x ys)"

definition put_entity :: "entity_entry \<Rightarrow> pull_rows \<Rightarrow> pull_rows" where
  "put_entity entry rows = rows\<lparr>prw_entities :=
     upsert (\<lambda>e. ee_session_id e = ee_session_id entry \<and> ee_entity_id e = ee_entity_id entry) entry (prw_entities rows)\<rparr>"

definition put_temporal :: "temporal_event \<Rightarrow> pull_rows \<Rightarrow> pull_rows" where
  "put_temporal event rows = rows\<lparr>prw_temporal := prw_temporal rows @ [event]\<rparr>"

definition put_provenance :: "memory_provenance \<Rightarrow> pull_rows \<Rightarrow> pull_rows" where
  "put_provenance row rows = rows\<lparr>prw_provenance := prw_provenance rows @ [row]\<rparr>"

definition put_stub :: "remote_stub \<Rightarrow> pull_rows \<Rightarrow> pull_rows" where
  "put_stub stub rows = rows\<lparr>prw_stubs := upsert (\<lambda>s. rs_stub_id s = rs_stub_id stub) stub (prw_stubs rows)\<rparr>"

definition put_batch :: "import_batch \<Rightarrow> pull_rows \<Rightarrow> pull_rows" where
  "put_batch batch rows = rows\<lparr>prw_batches := prw_batches rows @ [batch]\<rparr>"

text \<open>A write that either takes effect or fails without one.\<close>

definition writes :: "('s \<Rightarrow> pull_rows) \<Rightarrow> ('s \<Rightarrow> bool) \<Rightarrow> ('s, 'e, unit) store_call \<Rightarrow> (pull_rows \<Rightarrow> pull_rows) \<Rightarrow> bool" where
  "writes rows ok call f \<longleftrightarrow> (\<forall>s. ok s \<longrightarrow> ok (snd (call s)) \<and>
     rows (snd (call s)) = (case fst (call s) of Inl _ \<Rightarrow> rows s | Inr _ \<Rightarrow> f (rows s)))"

text \<open>What a pull relies on, for one tenant and a store in good order (\<open>ok\<close>).\<close>

locale pull_store =
  fixes ops :: "('s, 'e) pull_store_ops" and tenant :: uuid and rows :: "'s \<Rightarrow> pull_rows" and ok :: "'s \<Rightarrow> bool"
  assumes lists: "entity_list_all ops tenant s = (r, s') \<Longrightarrow>
      rows s' = rows s \<and> ok s' = ok s \<and> (\<forall>es. r = Ok es \<longrightarrow> es = prw_entities (rows s))"
    and puts: "writes rows ok (entity_put ops tenant entity) (put_entity entity)"
      "writes rows ok (temporal_put ops tenant event) (put_temporal event)"
      "writes rows ok (memory_provenance_put ops tenant prov) (put_provenance prov)"
      "writes rows ok (remote_stub_put ops tenant stub) (put_stub stub)"
      "writes rows ok (import_batch_put ops tenant batch) (put_batch batch)"

text \<open>The in-memory backend, with the failures that can be injected into it.\<close>

record mock_pull_store =
  mp_rows :: pull_rows
  mp_force_entity_put_error :: "(string \<times> string) option"
  mp_silently_drop_entity_put_types :: "string list"
  mp_force_entity_list_all_error :: "string option"

definition mock_entity_put :: "uuid \<Rightarrow> entity_entry \<Rightarrow> (mock_pull_store, string, unit) store_call" where
  "mock_entity_put ctx entry s =
     (case mp_force_entity_put_error s of
        Some (target_type, msg) \<Rightarrow>
          if ee_entity_type entry = target_type then (Err msg, s)
          else if ee_entity_type entry \<in> set (mp_silently_drop_entity_put_types s) then (Ok (), s)
          else (Ok (), s\<lparr>mp_rows := put_entity entry (mp_rows s)\<rparr>)
      | None \<Rightarrow>
          if ee_entity_type entry \<in> set (mp_silently_drop_entity_put_types s) then (Ok (), s)
          else (Ok (), s\<lparr>mp_rows := put_entity entry (mp_rows s)\<rparr>))"

definition mock_entity_list_all :: "uuid \<Rightarrow> (mock_pull_store, string, entity_entry list) store_call" where
  "mock_entity_list_all ctx s =
     (case mp_force_entity_list_all_error s of Some message \<Rightarrow> (Err message, s) | None \<Rightarrow> (Ok (prw_entities (mp_rows s)), s))"

definition mock_temporal_put :: "uuid \<Rightarrow> temporal_event \<Rightarrow> (mock_pull_store, string, unit) store_call" where
  "mock_temporal_put ctx event s = (Ok (), s\<lparr>mp_rows := put_temporal event (mp_rows s)\<rparr>)"

definition mock_memory_provenance_put :: "uuid \<Rightarrow> memory_provenance \<Rightarrow> (mock_pull_store, string, unit) store_call" where
  "mock_memory_provenance_put ctx row s = (Ok (), s\<lparr>mp_rows := put_provenance row (mp_rows s)\<rparr>)"

definition mock_remote_stub_put :: "uuid \<Rightarrow> remote_stub \<Rightarrow> (mock_pull_store, string, unit) store_call" where
  "mock_remote_stub_put ctx stub s = (Ok (), s\<lparr>mp_rows := put_stub stub (mp_rows s)\<rparr>)"

definition mock_import_batch_put :: "uuid \<Rightarrow> import_batch \<Rightarrow> (mock_pull_store, string, unit) store_call" where
  "mock_import_batch_put ctx batch s = (Ok (), s\<lparr>mp_rows := put_batch batch (mp_rows s)\<rparr>)"

definition mock_pull_ops :: "(mock_pull_store, string) pull_store_ops" where
  "mock_pull_ops = \<lparr>entity_list_all = mock_entity_list_all, entity_put = mock_entity_put, temporal_put = mock_temporal_put,
     memory_provenance_put = mock_memory_provenance_put, remote_stub_put = mock_remote_stub_put,
     import_batch_put = mock_import_batch_put\<rparr>"

definition keeps_all_types :: "mock_pull_store \<Rightarrow> bool" where
  "keeps_all_types s \<longleftrightarrow> mp_silently_drop_entity_put_types s = []"

interpretation mock_pull: pull_store mock_pull_ops tenant mp_rows keeps_all_types
  by unfold_locales
    (auto simp: mock_pull_ops_def mock_entity_list_all_def mock_entity_put_def mock_temporal_put_def mock_memory_provenance_put_def
      mock_remote_stub_put_def mock_import_batch_put_def writes_def keeps_all_types_def split: option.splits if_splits)

section \<open>Preview\<close>

definition detect_duplicate_or_conflict ::
  "'x pull_env_scheme \<Rightarrow> ('s, 'e) pull_store_ops \<Rightarrow> uuid \<Rightarrow> teaching_item
    \<Rightarrow> ('s, 'e pull_error, duplicate_conflict_candidate) store_call" where
  "detect_duplicate_or_conflict env ops tenant item s =
     (case entity_list_all ops tenant s of
        (Inl e, s') \<Rightarrow> (Err (StoreError e), s')
      | (Inr entities, s') \<Rightarrow> (Ok (find_candidate env item entities), s'))"

definition autocommit_for ::
  "'x pull_env_scheme \<Rightarrow> instant \<Rightarrow> pull_preview_request \<Rightarrow> teaching_item \<Rightarrow> duplicate_conflict_candidate \<Rightarrow> policy_decision outcome" where
  "autocommit_for env now request item candidate =
     can_autocommit (pe_datalog env) (pe_parser env) now (pq_policy request) (pq_remote_name request)
       (policy_item_from_teaching env item (dc_kind candidate = Conflict))"

definition plan_state ::
  "'x pull_env_scheme \<Rightarrow> instant \<Rightarrow> pull_preview_request \<Rightarrow> teaching_item \<Rightarrow> duplicate_conflict_candidate \<Rightarrow> import_state outcome" where
  "plan_state env now request item candidate =
     (if is_unsafe env item then Some ImpQuarantined
      else if dc_kind candidate = ExactDuplicate then Some ImpRejected
      else if dc_kind candidate = Conflict then Some ImpConflicting
      else Option.bind (autocommit_for env now request item candidate) (\<lambda>autocommit.
        if pd_allowed autocommit then Some ImpActive
        else map_option (\<lambda>activation.
          if pd_allowed activation then
            (if list_ex (\<lambda>r. pr_code r = ''not_trusted_for'') (pd_reasons autocommit) then ImpActiveStub else ImpNeedsActivation)
          else ImpActiveStub)
          (requires_activation (pe_datalog env) (pe_parser env) now (pq_policy request) (pq_remote_name request)
            (policy_item_from_teaching env item (dc_kind candidate = Conflict)))))"

fun candidate_kind_text :: "candidate_kind \<Rightarrow> string" where
  "candidate_kind_text CandNone = ''None''"
| "candidate_kind_text ExactDuplicate = ''ExactDuplicate''"
| "candidate_kind_text NearDuplicate = ''NearDuplicate''"
| "candidate_kind_text Conflict = ''Conflict''"

definition state_reasons ::
  "'x pull_env_scheme \<Rightarrow> instant \<Rightarrow> pull_preview_request \<Rightarrow> teaching_item \<Rightarrow> duplicate_conflict_candidate \<Rightarrow> import_state
    \<Rightarrow> string list outcome" where
  "state_reasons env now request item candidate state =
     map_option (\<lambda>d.
       map (\<lambda>r. pr_code r @ '': '' @ pr_message r) (pd_reasons d) @
       (if dc_kind candidate \<noteq> CandNone then [candidate_kind_text (dc_kind candidate) @ '': '' @ dc_reason candidate] else []) @
       (if state = ImpQuarantined then [''safety classifier requires quarantine''] else []))
     (autocommit_for env now request item candidate)"

definition disjoint_reason :: "'x pull_env_scheme \<Rightarrow> pull_preview_request \<Rightarrow> teaching_item \<Rightarrow> string list" where
  "disjoint_reason env request item =
     (case pq_local_applicability request of
        Some local \<Rightarrow> if applicability_is_disjoint env local (ti_applicability item)
          then [''remote item applicability is disjoint from local frame''] else []
      | None \<Rightarrow> [])"

definition preview_item ::
  "'x pull_env_scheme \<Rightarrow> instant \<Rightarrow> pull_preview_request \<Rightarrow> teaching_item \<Rightarrow> duplicate_conflict_candidate \<Rightarrow> pull_preview_item outcome" where
  "preview_item env now request item candidate =
     Option.bind (plan_state env now request item candidate) (\<lambda>state.
       map_option (\<lambda>reasons. \<lparr>vi_item = item, vi_state = state, vi_candidate = candidate,
         vi_reasons = reasons @ disjoint_reason env request item\<rparr>)
         (state_reasons env now request item candidate state))"

type_synonym ('s, 'e, 'a) pull_run = "'s \<Rightarrow> (('e pull_error + 'a) \<times> 's) outcome"

fun preview_items ::
  "'x pull_env_scheme \<Rightarrow> ('s, 'e) pull_store_ops \<Rightarrow> uuid \<Rightarrow> instant \<Rightarrow> pull_preview_request \<Rightarrow> teaching_item list
    \<Rightarrow> ('s, 'e, pull_preview_item list) pull_run" where
  "preview_items env ops tenant now request [] s = Some (Ok [], s)"
| "preview_items env ops tenant now request (item # rest) s =
     (case detect_duplicate_or_conflict env ops tenant item s of
        (Inl e, s') \<Rightarrow> Some (Inl e, s')
      | (Inr candidate, s') \<Rightarrow>
          Option.bind (preview_item env now request item candidate) (\<lambda>v.
            map_option (\<lambda>(r, s''). (map_ok (\<lambda>vs. v # vs) r, s'')) (preview_items env ops tenant now request rest s')))"

definition pull_preview ::
  "'x pull_env_scheme \<Rightarrow> (pull_preview_request \<Rightarrow> string + teaching_packet signed_envelope) \<Rightarrow> ('s, 'e) pull_store_ops \<Rightarrow> uuid
    \<Rightarrow> instant \<Rightarrow> instant \<Rightarrow> uuid \<Rightarrow> pull_preview_request \<Rightarrow> ('s, 'e, pull_preview_plan) pull_run" where
  "pull_preview env client ops tenant now created_at preview_id request s =
     (case client request of
        Inl e \<Rightarrow> Some (Err (ClientError e), s)
      | Inr envelope \<Rightarrow>
          (case verify (pe_sig env) (packet_to_value env) envelope (pq_public_identity request) of
             Inl e \<Rightarrow> Some (Err (VerifyError e), s)
           | Inr _ \<Rightarrow>
               if (case tp_expires_at (se_payload envelope) of Some expires \<Rightarrow> expires \<le> now | None \<Rightarrow> False)
               then Some (Err PacketExpired, s)
               else map_option (\<lambda>(r, s'). (map_ok (\<lambda>items.
                 \<lparr>vp_preview_id = preview_id, vp_remote_id = pq_remote_id request, vp_remote_name = pq_remote_name request,
                  vp_query = pq_query request, vp_packet = envelope, vp_items = items, vp_created_at = created_at,
                  vp_expires_at = created_at + pq_preview_ttl request, vp_dry_run = True\<rparr>) r, s'))
                 (preview_items env ops tenant now request (tp_items (se_payload envelope)) s)))"

section \<open>Commit\<close>

definition from_preview ::
  "'x pull_env_scheme \<Rightarrow> instant \<Rightarrow> instance_signing_identity \<Rightarrow> pull_preview_plan \<Rightarrow> pull_commit_request outcome" where
  "from_preview env decided_at learner preview =
     (let ids = (\<lambda>P. map (ti_item_id \<circ> vi_item) (filter (P \<circ> vi_state) (vp_items preview)));
          payload = \<lparr>id_preview_id = vp_preview_id preview, id_remote_id = vp_remote_id preview,
            id_packet_id = tp_packet_id (se_payload (vp_packet preview)), id_active_item_ids = ids (\<lambda>st. st = ImpActive),
            id_stub_item_ids = ids (\<lambda>st. st = ImpActiveStub \<or> st = ImpNeedsActivation),
            id_quarantined_item_ids = ids (\<lambda>st. st = ImpQuarantined), id_decided_at = decided_at\<rparr> in
      case sign (pe_sig env) (decision_to_value env) learner payload of
        Inl _ \<Rightarrow> None
      | Inr learner_decision \<Rightarrow> Some \<lparr>cr_preview = preview, cr_learner_decision = learner_decision\<rparr>)"

definition then_do :: "('s, 'e, 'a) store_call \<Rightarrow> ('a \<Rightarrow> ('s, 'e, 'b) store_call) \<Rightarrow> ('s, 'e, 'b) store_call" where
  "then_do m f s = (case m s of (Inl e, s') \<Rightarrow> (Inl e, s') | (Inr a, s') \<Rightarrow> f a s')"

record commit_counts =
  cc_imported :: i32
  cc_stubs :: i32
  cc_quarantined :: i32

definition imported_entity ::
  "'x pull_env_scheme \<Rightarrow> uuid \<Rightarrow> pull_preview_plan \<Rightarrow> teaching_item \<Rightarrow> uuid \<Rightarrow> instant \<Rightarrow> entity_entry" where
  "imported_entity env tenant plan item entity_id now =
     \<lparr>ee_tenant_id = tenant, ee_entity_id = entity_id, ee_session_id = vp_preview_id plan, ee_entity_name = ti_title item,
      ee_entity_type = entity_type_for (ti_kind item), ee_source_fold_id = None, ee_context_snippet = ti_summary item,
      ee_entity_embedding = None, ee_confidence = af_confidence (ti_applicability item), ee_state = MemActive, ee_created_at = now,
      ee_description = Some (ti_summary item), ee_description_embedding = None,
      ee_tags = af_required_tags (ti_applicability item),
      ee_properties = JObject
        [(''applicability'', frame_to_value env (ti_applicability item)),
         (''item_id'', JString (uuid_text (pe_datalog env) (ti_item_id item))),
         (''packet_id'', JString (uuid_text (pe_datalog env) (tp_packet_id (se_payload (vp_packet plan))))),
         (''remote_id'', JString (uuid_text (pe_datalog env) (vp_remote_id plan))), (''remote_import'', JBool True)],
      ee_content_hash = Some (content_hash_text (ti_content_hash item)), ee_updated_at = Some now, ee_scope = ScopeSession,
      ee_ingested_by_session = None\<rparr>"

definition imported_event :: "uuid \<Rightarrow> pull_preview_plan \<Rightarrow> teaching_item \<Rightarrow> uuid \<Rightarrow> uuid \<Rightarrow> instant \<Rightarrow> temporal_event" where
  "imported_event tenant plan item entity_id event_id now =
     \<lparr>te_tenant_id = tenant, te_entity_id = entity_id, te_event_time = now, te_event_id = event_id,
      te_fact_text = (case ti_body item of Some b \<Rightarrow> b | None \<Rightarrow> ti_summary item), te_supersedes_id = None, te_valid_until = None,
      te_source_session = vp_preview_id plan, te_confidence = af_confidence (ti_applicability item)\<rparr>"

definition imported_provenance ::
  "'x pull_env_scheme \<Rightarrow> pull_preview_plan \<Rightarrow> teaching_item \<Rightarrow> uuid \<Rightarrow> uuid \<Rightarrow> instant \<Rightarrow> memory_provenance" where
  "imported_provenance env plan item entity_id provenance_id now =
     \<lparr>mp_provenance_id = provenance_id, mp_local_entity_id = entity_id, mp_remote_id = vp_remote_id plan,
      mp_packet_id = tp_packet_id (se_payload (vp_packet plan)), mp_item_id = ti_item_id item,
      mp_content_hash = ti_content_hash item, mp_signature_hash = sha256_bytes (pe_sig env) (se_signature (vp_packet plan)),
      mp_imported_at = now\<rparr>"

definition stub_of :: "pull_preview_plan \<Rightarrow> pull_preview_item \<Rightarrow> uuid \<Rightarrow> instant \<Rightarrow> remote_stub" where
  "stub_of plan v stub_id now =
     \<lparr>rs_stub_id = stub_id, rs_remote_id = vp_remote_id plan, rs_packet_id = tp_packet_id (se_payload (vp_packet plan)),
      rs_item_id = ti_item_id (vi_item v), rs_local_entity_id = None, rs_title = ti_title (vi_item v),
      rs_summary = ti_summary (vi_item v),
      rs_state = (if vi_state v = ImpNeedsActivation then ImpActiveStub else vi_state v),
      rs_detail_ref = ti_detail_ref (vi_item v), rs_created_at = now, rs_updated_at = now\<rparr>"

text \<open>One item of a plan; item \<open>j\<close> takes its fresh identifiers from \<open>3 * j\<close> on and its instant at \<open>j\<close>.\<close>

definition commit_item ::
  "'x pull_env_scheme \<Rightarrow> ('s, 'e) pull_store_ops \<Rightarrow> uuid \<Rightarrow> pull_preview_plan \<Rightarrow> (nat \<Rightarrow> uuid) \<Rightarrow> (nat \<Rightarrow> instant) \<Rightarrow> nat
    \<Rightarrow> pull_preview_item \<Rightarrow> commit_counts \<Rightarrow> ('s, 'e, commit_counts) store_call" where
  "commit_item env ops tenant plan fresh clock j v counts =
     (let item = vi_item v; a = fresh (3 * j); now = clock j in
      case vi_state v of
        ImpActive \<Rightarrow>
          then_do (entity_put ops tenant (imported_entity env tenant plan item a now)) (\<lambda>_.
          then_do (temporal_put ops tenant (imported_event tenant plan item a (fresh (3 * j + 1)) now)) (\<lambda>_.
          then_do (memory_provenance_put ops tenant (imported_provenance env plan item a (fresh (3 * j + 2)) now)) (\<lambda>_.
          Pair (Ok (counts\<lparr>cc_imported := cc_imported counts + 1\<rparr>)))))
      | ImpActiveStub \<Rightarrow>
          then_do (remote_stub_put ops tenant (stub_of plan v a now)) (\<lambda>_. Pair (Ok (counts\<lparr>cc_stubs := cc_stubs counts + 1\<rparr>)))
      | ImpNeedsActivation \<Rightarrow>
          then_do (remote_stub_put ops tenant (stub_of plan v a now)) (\<lambda>_. Pair (Ok (counts\<lparr>cc_stubs := cc_stubs counts + 1\<rparr>)))
      | ImpQuarantined \<Rightarrow>
          then_do (remote_stub_put ops tenant (stub_of plan v a now)) (\<lambda>_.
            Pair (Ok (counts\<lparr>cc_quarantined := cc_quarantined counts + 1\<rparr>)))
      | _ \<Rightarrow> Pair (Ok counts))"

fun commit_items ::
  "'x pull_env_scheme \<Rightarrow> ('s, 'e) pull_store_ops \<Rightarrow> uuid \<Rightarrow> pull_preview_plan \<Rightarrow> (nat \<Rightarrow> uuid) \<Rightarrow> (nat \<Rightarrow> instant) \<Rightarrow> nat
    \<Rightarrow> pull_preview_item list \<Rightarrow> commit_counts \<Rightarrow> ('s, 'e, commit_counts) store_call" where
  "commit_items env ops tenant plan fresh clock j [] counts s = (Ok counts, s)"
| "commit_items env ops tenant plan fresh clock j (v # vs) counts s =
     then_do (commit_item env ops tenant plan fresh clock j v counts) (commit_items env ops tenant plan fresh clock (j + 1) vs) s"

text \<open>\<open>Display\<close> of an \<open>i32\<close>.\<close>

definition i32_text :: "i32 \<Rightarrow> string" where
  "i32_text w = (if sint w < 0 then CHR ''-'' # decimal (nat (- sint w)) else decimal (nat (sint w)))"

definition batch_of :: "pull_preview_plan \<Rightarrow> uuid \<Rightarrow> commit_counts \<Rightarrow> instant \<Rightarrow> instant \<Rightarrow> import_batch" where
  "batch_of plan batch_id counts created_at completed_at =
     \<lparr>ib_batch_id = batch_id, ib_remote_id = vp_remote_id plan, ib_packet_id = tp_packet_id (se_payload (vp_packet plan)),
      ib_state = ImpActive, ib_imported_count = cc_imported counts, ib_rejected_count = cc_quarantined counts,
      ib_conflict_count = of_nat (length (filter (\<lambda>v. dc_kind (vi_candidate v) = Conflict) (vp_items plan))),
      ib_explanation = ''imported '' @ i32_text (cc_imported counts) @ '', stored '' @ i32_text (cc_stubs counts) @
        '' stubs, quarantined '' @ i32_text (cc_quarantined counts),
      ib_created_at = created_at, ib_completed_at = Some completed_at\<rparr>"

definition is_skill_kind :: "teaching_kind \<Rightarrow> bool" where
  "is_skill_kind k \<longleftrightarrow> k \<in> {TkSkillStub, TkProcedureStub}"

definition store_errors :: "('s, 'e, 'a) store_call \<Rightarrow> ('s, 'e pull_error, 'a) store_call" where
  "store_errors m s = (case m s of (r, s') \<Rightarrow> (map_err StoreError r, s'))"

definition pull_commit ::
  "'x pull_env_scheme \<Rightarrow> ('s, 'e) pull_store_ops \<Rightarrow> uuid \<Rightarrow> uuid \<Rightarrow> (nat \<Rightarrow> uuid) \<Rightarrow> instant \<Rightarrow> (nat \<Rightarrow> instant) \<Rightarrow> instant \<Rightarrow> instant
    \<Rightarrow> pull_commit_request \<Rightarrow> ('s, 'e pull_error, pull_commit_receipt) store_call" where
  "pull_commit env ops tenant batch_id fresh now clock created_at completed_at request s =
     (let plan = cr_preview request in
      if vp_preview_id plan \<noteq> id_preview_id (se_payload (cr_learner_decision request)) then (Err DecisionMismatch, s)
      else if vp_expires_at plan \<le> now then (Err PreviewExpired, s)
      else if list_ex (\<lambda>v. is_skill_kind (ti_kind (vi_item v))) (vp_items plan) then (Err SkillItemRefused, s)
      else then_do (store_errors (commit_items env ops tenant plan fresh clock 0 (vp_items plan)
             \<lparr>cc_imported = 0, cc_stubs = 0, cc_quarantined = 0\<rparr>)) (\<lambda>counts.
        then_do (store_errors (import_batch_put ops tenant (batch_of plan batch_id counts created_at completed_at))) (\<lambda>_.
          Pair (Ok \<lparr>rc_batch_id = batch_id, rc_imported_count = cc_imported counts, rc_stub_count = cc_stubs counts,
            rc_quarantined_count = cc_quarantined counts, rc_decision = cr_learner_decision request\<rparr>))) s)"

section \<open>What a commit writes\<close>

text \<open>The rows of one item, and of a plan.\<close>

definition item_rows ::
  "'x pull_env_scheme \<Rightarrow> uuid \<Rightarrow> pull_preview_plan \<Rightarrow> (nat \<Rightarrow> uuid) \<Rightarrow> (nat \<Rightarrow> instant) \<Rightarrow> nat \<times> pull_preview_item \<Rightarrow> pull_rows \<Rightarrow> pull_rows" where
  "item_rows env tenant plan fresh clock = (\<lambda>(j, v) rows.
     if vi_state v = ImpActive then
       put_provenance (imported_provenance env plan (vi_item v) (fresh (3 * j)) (fresh (3 * j + 2)) (clock j))
         (put_temporal (imported_event tenant plan (vi_item v) (fresh (3 * j)) (fresh (3 * j + 1)) (clock j))
           (put_entity (imported_entity env tenant plan (vi_item v) (fresh (3 * j)) (clock j)) rows))
     else if vi_state v \<in> {ImpActiveStub, ImpNeedsActivation, ImpQuarantined} then put_stub (stub_of plan v (fresh (3 * j)) (clock j)) rows
     else rows)"

definition count_states :: "import_state set \<Rightarrow> pull_preview_item list \<Rightarrow> i32" where
  "count_states S vs = of_nat (length (filter (\<lambda>v. vi_state v \<in> S) vs))"

definition planned_counts :: "pull_preview_item list \<Rightarrow> commit_counts" where
  "planned_counts vs = \<lparr>cc_imported = count_states {ImpActive} vs, cc_stubs = count_states {ImpActiveStub, ImpNeedsActivation} vs,
     cc_quarantined = count_states {ImpQuarantined} vs\<rparr>"

lemma then_do_Ok: "then_do m f s = (Ok b, s') \<longleftrightarrow> (\<exists>a t. m s = (Ok a, t) \<and> f a t = (Ok b, s'))"
  by (auto simp: then_do_def split: prod.splits sum.splits)

lemma store_errors_Ok: "store_errors m s = (Ok a, s') \<longleftrightarrow> m s = (Ok a, s')"
  by (auto simp: store_errors_def map_err_def split: prod.splits sum.splits)

lemma writes_Ok: "writes rows ok call f \<Longrightarrow> call s = (Ok (), s') \<Longrightarrow> ok s \<Longrightarrow> rows s' = f (rows s) \<and> ok s'"
  unfolding writes_def by (metis fst_conv old.sum.simps(6) snd_conv)

context pull_store
begin

lemma commit_item_rows:
  assumes "commit_item env ops tenant plan fresh clock j v counts s = (Ok counts', s')" "ok s"
  shows "rows s' = item_rows env tenant plan fresh clock (j, v) (rows s) \<and> ok s' \<and>
    cc_imported counts' = cc_imported counts + count_states {ImpActive} [v] \<and>
    cc_stubs counts' = cc_stubs counts + count_states {ImpActiveStub, ImpNeedsActivation} [v] \<and>
    cc_quarantined counts' = cc_quarantined counts + count_states {ImpQuarantined} [v]"
  using assms
  by (cases "vi_state v")
    (auto simp: commit_item_def Let_def then_do_Ok item_rows_def count_states_def dest!: writes_Ok [OF puts(1)] writes_Ok [OF puts(2)]
      writes_Ok [OF puts(3)] writes_Ok [OF puts(4)])

lemma commit_items_rows:
  "commit_items env ops tenant plan fresh clock j vs counts s = (Ok counts', s') \<Longrightarrow> ok s \<Longrightarrow>
    rows s' = fold (item_rows env tenant plan fresh clock) (List.enumerate j vs) (rows s) \<and> ok s' \<and>
    cc_imported counts' = cc_imported counts + count_states {ImpActive} vs \<and>
    cc_stubs counts' = cc_stubs counts + count_states {ImpActiveStub, ImpNeedsActivation} vs \<and>
    cc_quarantined counts' = cc_quarantined counts + count_states {ImpQuarantined} vs"
proof (induction vs arbitrary: j counts s)
  case Nil
  then show ?case by (simp add: count_states_def)
next
  case (Cons v vs)
  from Cons.prems(1) obtain c t where step: "commit_item env ops tenant plan fresh clock j v counts s = (Ok c, t)"
    "commit_items env ops tenant plan fresh clock (j + 1) vs c t = (Ok counts', s')" by (auto simp: then_do_Ok)
  have count: "count_states S (v # vs) = count_states S [v] + count_states S vs" for S by (simp add: count_states_def)
  note one = commit_item_rows [OF step(1) Cons.prems(2)]
  show ?case using one Cons.IH [OF step(2)] by (simp add: count [of _] add.assoc)
qed

lemma pull_commit_rows:
  assumes "pull_commit env ops tenant batch_id fresh now clock created_at completed_at request s = (Ok receipt, s')" "ok s"
  defines "plan \<equiv> cr_preview request"
  shows "rows s' = put_batch (batch_of plan batch_id (planned_counts (vp_items plan)) created_at completed_at)
      (fold (item_rows env tenant plan fresh clock) (List.enumerate 0 (vp_items plan)) (rows s))"
    "receipt = \<lparr>rc_batch_id = batch_id, rc_imported_count = count_states {ImpActive} (vp_items plan),
       rc_stub_count = count_states {ImpActiveStub, ImpNeedsActivation} (vp_items plan),
       rc_quarantined_count = count_states {ImpQuarantined} (vp_items plan), rc_decision = cr_learner_decision request\<rparr>"
    "now < vp_expires_at plan" "list_all (\<lambda>v. \<not> is_skill_kind (ti_kind (vi_item v))) (vp_items plan)"
proof -
  let ?zero = "\<lparr>cc_imported = 0, cc_stubs = 0, cc_quarantined = 0\<rparr>"
  from assms(1) obtain counts t where run: "commit_items env ops tenant plan fresh clock 0 (vp_items plan) ?zero s = (Ok counts, t)"
    "import_batch_put ops tenant (batch_of plan batch_id counts created_at completed_at) t = (Ok (), s')"
    and receipt: "receipt = \<lparr>rc_batch_id = batch_id, rc_imported_count = cc_imported counts, rc_stub_count = cc_stubs counts,
      rc_quarantined_count = cc_quarantined counts, rc_decision = cr_learner_decision request\<rparr>"
    and guards: "now < vp_expires_at plan" "list_all (\<lambda>v. \<not> is_skill_kind (ti_kind (vi_item v))) (vp_items plan)"
    by (auto simp: pull_commit_def plan_def Let_def then_do_Ok store_errors_Ok list_all_iff list_ex_iff split: if_splits)
  note items = commit_items_rows [OF run(1) assms(2)]
  have "counts = planned_counts (vp_items plan)" using items by (simp add: planned_counts_def)
  then show "rows s' = put_batch (batch_of plan batch_id (planned_counts (vp_items plan)) created_at completed_at)
      (fold (item_rows env tenant plan fresh clock) (List.enumerate 0 (vp_items plan)) (rows s))"
    using writes_Ok [OF puts(5) run(2)] items by simp
  show "receipt = \<lparr>rc_batch_id = batch_id, rc_imported_count = count_states {ImpActive} (vp_items plan),
       rc_stub_count = count_states {ImpActiveStub, ImpNeedsActivation} (vp_items plan),
       rc_quarantined_count = count_states {ImpQuarantined} (vp_items plan), rc_decision = cr_learner_decision request\<rparr>"
    using items receipt by simp
  show "now < vp_expires_at plan" "list_all (\<lambda>v. \<not> is_skill_kind (ti_kind (vi_item v))) (vp_items plan)" by (fact guards)+
qed

lemma preview_items_plan:
  "preview_items env ops tenant now request items s = Some (r, s') \<Longrightarrow>
    rows s' = rows s \<and>
    (\<forall>vs. r = Ok vs \<longrightarrow> list_all2 (\<lambda>item v. preview_item env now request item (find_candidate env item (prw_entities (rows s))) = Some v) items vs)"
proof (induction items arbitrary: s r)
  case (Cons item items)
  obtain r0 t where list: "entity_list_all ops tenant s = (r0, t)" by (cases "entity_list_all ops tenant s")
  note read = lists [OF list]
  show ?case
  proof (cases r0)
    case (Inl e)
    then show ?thesis using Cons.prems list read by (auto simp: detect_duplicate_or_conflict_def)
  next
    case (Inr es)
    then obtain v r1 where step: "preview_item env now request item (find_candidate env item es) = Some v"
      "preview_items env ops tenant now request items t = Some (r1, s')" "r = map_ok (\<lambda>vs. v # vs) r1"
      using Cons.prems list by (auto simp: detect_duplicate_or_conflict_def bind_eq_Some_conv)
    have "es = prw_entities (rows s)" using read Inr by auto
    then show ?thesis using Cons.IH [OF step(2)] step(1,3) read by (auto simp: map_ok_def split: sum.splits)
  qed
qed simp

lemma pull_preview_plan:
  assumes "pull_preview env client ops tenant now created_at preview_id request s = Some (r, s')"
  shows "rows s' = rows s \<and> (\<forall>plan. r = Ok plan \<longrightarrow>
    client request = Ok (vp_packet plan) \<and>
    verify (pe_sig env) (packet_to_value env) (vp_packet plan) (pq_public_identity request) = Ok () \<and>
    (\<forall>expires. tp_expires_at (se_payload (vp_packet plan)) = Some expires \<longrightarrow> now < expires) \<and>
    vp_dry_run plan \<and> vp_expires_at plan = created_at + pq_preview_ttl request \<and>
    list_all2 (\<lambda>item v. preview_item env now request item (find_candidate env item (prw_entities (rows s))) = Some v)
      (tp_items (se_payload (vp_packet plan))) (vp_items plan))"
proof (cases "client request")
  case (Inr envelope)
  show ?thesis
  proof (cases "verify (pe_sig env) (packet_to_value env) envelope (pq_public_identity request)")
    case (Inr u)
    let ?expired = "case tp_expires_at (se_payload envelope) of Some expires \<Rightarrow> expires \<le> now | None \<Rightarrow> False"
    note found = \<open>client request = Inr envelope\<close> Inr
    show ?thesis
    proof (cases ?expired)
      case False
      then obtain r1 where run: "preview_items env ops tenant now request (tp_items (se_payload envelope)) s = Some (r1, s')"
        "r = map_ok (\<lambda>items. \<lparr>vp_preview_id = preview_id, vp_remote_id = pq_remote_id request, vp_remote_name = pq_remote_name request,
           vp_query = pq_query request, vp_packet = envelope, vp_items = items, vp_created_at = created_at,
           vp_expires_at = created_at + pq_preview_ttl request, vp_dry_run = True\<rparr>) r1"
        using assms found by (auto simp: pull_preview_def)
      from preview_items_plan [OF run(1)] run(2) False found show ?thesis by (auto simp: not_le)
    qed (use assms found in \<open>auto simp: pull_preview_def\<close>)
  qed (use assms Inr in \<open>auto simp: pull_preview_def\<close>)
qed (use assms in \<open>auto simp: pull_preview_def\<close>)

end

section \<open>What a plan is based on\<close>

lemma preview_item_active:
  assumes "uuid_texts_long (pe_parser env)" "preview_item env now request item candidate = Some v"
  shows "vi_item v = item \<and> vi_candidate v = candidate \<and>
    (vi_state v = ImpActive \<longrightarrow> \<not> is_unsafe env item \<and> dc_kind candidate \<notin> {ExactDuplicate, Conflict} \<and>
       may_autocommit (pq_policy request) (pq_remote_name request) (item_namespace item))"
proof -
  let ?pi = "policy_item_from_teaching env item (dc_kind candidate = Conflict)"
  obtain d where d: "autocommit_for env now request item candidate = Some d"
    "pd_allowed d \<Longrightarrow> may_autocommit (pq_policy request) (pq_remote_name request) (item_namespace item)"
    using autocommit_allowed [OF assms(1), of "pe_datalog env" now "pq_policy request" "pq_remote_name request" ?pi]
    by (auto simp: autocommit_for_def policy_item_from_teaching_def)
  show ?thesis using assms(2) d by (auto simp: preview_item_def plan_state_def bind_eq_Some_conv split: if_splits)
qed

lemma list_all2_source: "list_all2 P xs ys \<Longrightarrow> y \<in> set ys \<Longrightarrow> \<exists>x \<in> set xs. P x y"
  by (induction rule: list_all2_induct) auto

lemma no_exact_duplicate:
  assumes "dc_kind (find_candidate env item entities) \<noteq> ExactDuplicate" "entity \<in> set entities"
  shows "\<not> is_exact_duplicate env item entity"
  using assms by (auto simp: find_candidate_def find_None_iff split: option.splits)

lemma item_rows_provenance:
  "prw_provenance (item_rows env tenant plan fresh clock (j, v) rows) =
     prw_provenance rows @ (if vi_state v = ImpActive
       then [imported_provenance env plan (vi_item v) (fresh (3 * j)) (fresh (3 * j + 2)) (clock j)] else [])"
  by (simp add: item_rows_def put_provenance_def put_temporal_def put_entity_def put_stub_def)

lemma item_rows_temporal:
  "prw_temporal (item_rows env tenant plan fresh clock (j, v) rows) =
     prw_temporal rows @ (if vi_state v = ImpActive
       then [imported_event tenant plan (vi_item v) (fresh (3 * j)) (fresh (3 * j + 1)) (clock j)] else [])"
  by (simp add: item_rows_def put_provenance_def put_temporal_def put_entity_def put_stub_def)

lemma set_upsert: "set (upsert p x ys) \<subseteq> insert x (set ys)"
  by (induction ys) auto

lemma item_rows_entities:
  "set (prw_entities (item_rows env tenant plan fresh clock (j, v) rows)) \<subseteq> set (prw_entities rows) \<union>
     (if vi_state v = ImpActive then {imported_entity env tenant plan (vi_item v) (fresh (3 * j)) (clock j)} else {})"
  by (auto simp: item_rows_def put_provenance_def put_temporal_def put_entity_def put_stub_def dest: subsetD [OF set_upsert])

text \<open>A table to which only active items append, and one in which only they replace or append.\<close>

lemma fold_rows_appended:
  assumes "\<And>j v rows. table (item_rows env tenant plan fresh clock (j, v) rows) = table rows @ (if vi_state v = ImpActive then [made j v] else [])"
  shows "\<exists>new. table (fold (item_rows env tenant plan fresh clock) (List.enumerate j vs) rows) = table rows @ new \<and>
    (\<forall>row \<in> set new. \<exists>v \<in> set vs. vi_state v = ImpActive \<and> (\<exists>i. row = made i v))"
proof (induction vs arbitrary: j rows)
  case (Cons v vs)
  obtain new where
    "table (fold (item_rows env tenant plan fresh clock) (List.enumerate (Suc j) vs) (item_rows env tenant plan fresh clock (j, v) rows)) =
       table (item_rows env tenant plan fresh clock (j, v) rows) @ new"
    "\<forall>row \<in> set new. \<exists>v \<in> set vs. vi_state v = ImpActive \<and> (\<exists>i. row = made i v)" using Cons.IH by blast
  then show ?case by (intro exI [of _ "(if vi_state v = ImpActive then [made j v] else []) @ new"]) (auto simp: assms)
qed simp

lemma fold_rows_entities:
  "entity \<in> set (prw_entities (fold (item_rows env tenant plan fresh clock) (List.enumerate j vs) rows)) \<Longrightarrow>
    entity \<in> set (prw_entities rows) \<or>
    (\<exists>v \<in> set vs. vi_state v = ImpActive \<and> (\<exists>a t. entity = imported_entity env tenant plan (vi_item v) a t))"
proof (induction vs arbitrary: j rows)
  case (Cons v vs)
  from Cons.IH [of "Suc j" "item_rows env tenant plan fresh clock (j, v) rows"] Cons.prems
    item_rows_entities [of env tenant plan fresh clock j v rows]
  show ?case by (auto split: if_splits)
qed simp

text \<open>What an item of a preview must satisfy to become active memory, given the local entities the preview saw.\<close>

definition item_authorised :: "'x pull_env_scheme \<Rightarrow> pull_preview_request \<Rightarrow> entity_entry list \<Rightarrow> teaching_item \<Rightarrow> bool" where
  "item_authorised env request entities item \<longleftrightarrow> \<not> is_unsafe env item \<and> \<not> is_skill_kind (ti_kind item) \<and>
     (\<forall>entity \<in> set entities. \<not> is_exact_duplicate env item entity) \<and> dc_kind (find_candidate env item entities) \<noteq> Conflict \<and>
     may_autocommit (pq_policy request) (pq_remote_name request) (item_namespace item)"

section \<open>Properties\<close>

text \<open>C29. A successful commit writes exactly its plan: an entity, a fact and a provenance row for each active item in order, a stub for
  each item that waits for activation, is kept as a stub or is quarantined, nothing for rejected or conflicting ones,
  and one batch row whose counts, like those of the receipt, are the numbers of these items. It had not expired and
  holds no skill.\<close>

theorem commit_writes_the_plan:
  assumes "pull_commit env mock_pull_ops tenant batch_id fresh now clock created_at completed_at request s = (Ok receipt, s')"
    and "keeps_all_types s"
  shows "let plan = cr_preview request; vs = vp_items plan in
    mp_rows s' = put_batch (batch_of plan batch_id (planned_counts vs) created_at completed_at)
      (fold (item_rows env tenant plan fresh clock) (List.enumerate 0 vs) (mp_rows s)) \<and>
    rc_imported_count receipt = count_states {ImpActive} vs \<and>
    rc_stub_count receipt = count_states {ImpActiveStub, ImpNeedsActivation} vs \<and>
    rc_quarantined_count receipt = count_states {ImpQuarantined} vs \<and>
    now < vp_expires_at plan \<and> list_all (\<lambda>v. \<not> is_skill_kind (ti_kind (vi_item v))) vs"
  using mock_pull.pull_commit_rows [OF assms] by (simp add: Let_def)

text \<open>C28. Pulled memory is authorised. When a preview is committed as it was returned, every entity, every fact and every provenance
  row that is in the store afterwards was there before or was made from an item of the previewed packet, which carries a
  valid signature of the configured remote and had not expired; and that item is neither unsafe nor a skill, repeats no
  local content of its scope, was not found to conflict with a local memory, and the policy of the request lets the
  remote commit to its namespace. The preview itself changes no row. The store is the in-memory one.\<close>

theorem pulled_memory_is_authorised:
  assumes "uuid_texts_long (pe_parser env)"
    and "pull_preview env client mock_pull_ops tenant now t0 preview_id request s0 = Some (Ok plan, s1)"
    and "pull_commit env mock_pull_ops tenant batch_id fresh now' clock t1 t2
      \<lparr>cr_preview = plan, cr_learner_decision = learner_decision\<rparr> s2 = (Ok receipt, s3)"
    and "keeps_all_types s2"
  shows "let authorised = {item \<in> set (tp_items (se_payload (vp_packet plan))).
        item_authorised env request (prw_entities (mp_rows s0)) item} in
    mp_rows s1 = mp_rows s0 \<and>
    verify (pe_sig env) (packet_to_value env) (vp_packet plan) (pq_public_identity request) = Ok () \<and>
    (\<forall>expires. tp_expires_at (se_payload (vp_packet plan)) = Some expires \<longrightarrow> now < expires) \<and>
    (\<forall>entity \<in> set (prw_entities (mp_rows s3)). entity \<in> set (prw_entities (mp_rows s2)) \<or>
      (\<exists>item \<in> authorised. \<exists>a t. entity = imported_entity env tenant plan item a t)) \<and>
    (\<exists>events rows. prw_temporal (mp_rows s3) = prw_temporal (mp_rows s2) @ events \<and>
      prw_provenance (mp_rows s3) = prw_provenance (mp_rows s2) @ rows \<and>
      (\<forall>event \<in> set events. \<exists>item \<in> authorised. \<exists>a b t. event = imported_event tenant plan item a b t) \<and>
      (\<forall>row \<in> set rows. \<exists>item \<in> authorised. \<exists>a b t. row = imported_provenance env plan item a b t))"
proof -
  note preview = mock_pull.pull_preview_plan [OF assms(2)] and commit = mock_pull.pull_commit_rows [OF assms(3,4)]
  let ?entities = "prw_entities (mp_rows s0)" and ?packet = "set (tp_items (se_payload (vp_packet plan)))"
  let ?fold = "fold (item_rows env tenant plan fresh clock) (List.enumerate 0 (vp_items plan)) (mp_rows s2)"
  have active: "vi_item v \<in> {item \<in> ?packet. item_authorised env request ?entities item}"
    if v: "v \<in> set (vp_items plan)" "vi_state v = ImpActive" for v
  proof -
    obtain item where item: "item \<in> ?packet" "preview_item env now request item (find_candidate env item ?entities) = Some v"
      using preview list_all2_source [OF _ v(1)] by blast
    note facts = preview_item_active [OF assms(1) item(2)]
    have "\<not> is_skill_kind (ti_kind item)" using commit(4) v(1) facts by (auto simp: list_all_iff)
    moreover have "\<forall>entity \<in> set ?entities. \<not> is_exact_duplicate env item entity"
      using facts v(2) no_exact_duplicate [of env item] by auto
    ultimately show ?thesis using item(1) facts v(2) by (simp add: item_authorised_def)
  qed
  have rows: "prw_entities (mp_rows s3) = prw_entities ?fold" "prw_temporal (mp_rows s3) = prw_temporal ?fold"
    "prw_provenance (mp_rows s3) = prw_provenance ?fold" using commit(1) by (simp_all add: put_batch_def)
  obtain events where events: "prw_temporal ?fold = prw_temporal (mp_rows s2) @ events"
    "\<forall>event \<in> set events. \<exists>v \<in> set (vp_items plan). vi_state v = ImpActive \<and> (\<exists>a b t. event = imported_event tenant plan (vi_item v) a b t)"
    using fold_rows_appended [OF item_rows_temporal] by metis
  obtain new where new: "prw_provenance ?fold = prw_provenance (mp_rows s2) @ new"
    "\<forall>row \<in> set new. \<exists>v \<in> set (vp_items plan). vi_state v = ImpActive \<and> (\<exists>a b t. row = imported_provenance env plan (vi_item v) a b t)"
    using fold_rows_appended [OF item_rows_provenance] by metis
  have "\<forall>entity \<in> set (prw_entities ?fold). entity \<in> set (prw_entities (mp_rows s2)) \<or>
      (\<exists>item \<in> {item \<in> ?packet. item_authorised env request ?entities item}. \<exists>a t. entity = imported_entity env tenant plan item a t)"
    using fold_rows_entities active by blast
  moreover have "\<forall>event \<in> set events. \<exists>item \<in> {item \<in> ?packet. item_authorised env request ?entities item}.
      \<exists>a b t. event = imported_event tenant plan item a b t" using events(2) active by blast
  moreover have "\<forall>row \<in> set new. \<exists>item \<in> {item \<in> ?packet. item_authorised env request ?entities item}.
      \<exists>a b t. row = imported_provenance env plan item a b t" using new(2) active by blast
  ultimately show ?thesis using preview events(1) new(1) unfolding rows Let_def by blast
qed

section \<open>What a commit does not look at\<close>

text \<open>The decision of the learner is only asked for the identifier of the preview.\<close>

lemma commit_ignores_decision:
  assumes "id_preview_id (se_payload d) = id_preview_id (se_payload d')"
  shows "snd (pull_commit env ops tenant batch_id fresh now clock t1 t2 \<lparr>cr_preview = plan, cr_learner_decision = d\<rparr> s) =
    snd (pull_commit env ops tenant batch_id fresh now clock t1 t2 \<lparr>cr_preview = plan, cr_learner_decision = d'\<rparr> s)"
  using assms by (auto simp: pull_commit_def Let_def then_do_def split: prod.splits sum.splits)

text \<open>Nor does it verify the packet again: every unexpired plan without skills is written, whatever its items and signature are.\<close>

lemma mock_commit_items:
  "mp_force_entity_put_error s = None \<Longrightarrow> \<exists>counts' s'. commit_items env mock_pull_ops tenant plan fresh clock j vs counts s = (Ok counts', s')"
proof (induction vs arbitrary: j counts s)
  case (Cons v vs)
  have "\<exists>c t. commit_item env mock_pull_ops tenant plan fresh clock j v counts s = (Ok c, t) \<and> mp_force_entity_put_error t = None"
    using Cons.prems
    by (cases "vi_state v") (simp_all add: commit_item_def Let_def then_do_def mock_pull_ops_def mock_entity_put_def mock_temporal_put_def
        mock_memory_provenance_put_def mock_remote_stub_put_def)
  then show ?case using Cons.IH by (auto simp: then_do_Ok)
qed simp

lemma forged_plan_is_written:
  assumes "mp_force_entity_put_error s = None" "vp_preview_id plan = id_preview_id (se_payload d)" "now < vp_expires_at plan"
    and "list_all (\<lambda>v. \<not> is_skill_kind (ti_kind (vi_item v))) (vp_items plan)"
  shows "\<exists>receipt s'. pull_commit env mock_pull_ops tenant batch_id fresh now clock t1 t2
    \<lparr>cr_preview = plan, cr_learner_decision = d\<rparr> s = (Ok receipt, s')"
proof -
  obtain c t where "commit_items env mock_pull_ops tenant plan fresh clock 0 (vp_items plan) \<lparr>cc_imported = 0, cc_stubs = 0, cc_quarantined = 0\<rparr> s = (Ok c, t)"
    using mock_commit_items [OF assms(1)] by blast
  then show ?thesis
    using assms(2-4) by (simp add: pull_commit_def Let_def then_do_def store_errors_def mock_pull_ops_def mock_import_batch_put_def
        list_all_iff list_ex_iff map_err_def)
qed

section \<open>A pull on concrete rows\<close>

definition toy_pull_env :: pull_env where
  "toy_pull_env = \<lparr>lowercase_of = map ascii_lower, is_alphanumeric = (\<lambda>ch. list_all is_ascii_alphanumeric ch), pe_sig = toy_sig_env,
     pe_datalog = plain_env, pe_parser = no_uuids, packet_to_value = (\<lambda>_. Ok JNull), decision_to_value = (\<lambda>_. Ok JNull),
     frame_from_value = (\<lambda>_. None), frame_to_value = (\<lambda>_. JNull)\<rparr>"

definition build_frame :: applicability_frame where
  "build_frame = \<lparr>af_namespaces = [''builds''], af_host_os = None, af_container_runtime = None, af_hardware = [], af_required_tags = [],
     af_excluded_tags = [], af_confidence = 0\<rparr>"

definition build_item :: teaching_item where
  "build_item = \<lparr>ti_item_id = 11, ti_packet_id = 7, ti_kind = TkFact, ti_title = ''cache the toolchain'', ti_summary = ''builds need the toolchain cache'',
     ti_body = None, ti_content_hash = ContentHash ''aa'', ti_applicability = build_frame,
     ti_safety = \<lparr>sc_risk = RiskNone, sc_reasons = [], sc_redacted = False, sc_requires_human = False\<rparr>, ti_detail_ref = None,
     ti_metadata = JNull, ti_created_at = 0\<rparr>"

definition build_packet :: "teaching_packet signed_envelope" where
  "build_packet = \<lparr>se_payload = \<lparr>tp_packet_id = 7, tp_teacher_instance_id = InstanceId 3, tp_request_id = None, tp_source_namespace = ''builds'',
       tp_query = ''q'', tp_items = [build_item], tp_expires_at = Some 100, tp_created_at = 0\<rparr>,
     se_content_hash = ContentHash ''01'', se_signer = InstanceId 3,
     se_fingerprint = PublicKeyFingerprint (hex_encode (replicate 32 5)), se_signature = replicate 64 0\<rparr>"

definition build_request :: pull_preview_request where
  "build_request = \<lparr>pq_remote_id = 5, pq_remote_name = ''gpu'', pq_query = ''q'', pq_policy = gpu_policy,
     pq_public_identity = public_identity toy_sig_env \<lparr>isi_instance_id = InstanceId 3, isi_signing_key = [2]\<rparr>,
     pq_local_applicability = None, pq_preview_ttl = 900\<rparr>"

definition empty_pull_store :: mock_pull_store where
  "empty_pull_store = \<lparr>mp_rows = \<lparr>prw_entities = [], prw_temporal = [], prw_provenance = [], prw_stubs = [], prw_batches = []\<rparr>,
     mp_force_entity_put_error = None, mp_silently_drop_entity_put_types = [], mp_force_entity_list_all_error = None\<rparr>"

definition build_decision :: policy_decision where
  "build_decision = decision True Autocommit
     [reason_for_fact ''grant'' [''gpu'', ''autocommit'', ''knowledge''] ''autocommit grant permits safe knowledge imports'',
      reason_for_fact ''trusted_for'' [''gpu'', ''builds''] ''remote is trusted for the item namespace'',
      new_reason ''safe_item'' (''safe_item('' @ uuid_text plain_env 11 @ '')'') ''item safety classifier permits autocommit'',
      new_reason ''no_conflict'' (''not conflict('' @ uuid_text plain_env 11 @ '')'') ''no local or higher-trust conflict was reported'']"

definition build_plan :: pull_preview_plan where
  "build_plan = \<lparr>vp_preview_id = 21, vp_remote_id = 5, vp_remote_name = ''gpu'', vp_query = ''q'', vp_packet = build_packet,
     vp_items = [\<lparr>vi_item = build_item, vi_state = ImpActive, vi_candidate = no_candidate,
       vi_reasons = map (\<lambda>r. pr_code r @ '': '' @ pr_message r) (pd_reasons build_decision)\<rparr>],
     vp_created_at = 2, vp_expires_at = 902, vp_dry_run = True\<rparr>"

definition build_learner_decision :: "import_decision_payload signed_envelope" where
  "build_learner_decision = \<lparr>se_payload = \<lparr>id_preview_id = 21, id_remote_id = 5, id_packet_id = 7, id_active_item_ids = [11],
       id_stub_item_ids = [], id_quarantined_item_ids = [], id_decided_at = 3\<rparr>,
     se_content_hash = ContentHash ''01'', se_signer = InstanceId 4, se_fingerprint = PublicKeyFingerprint [], se_signature = []\<rparr>"

lemma build_item_safe: "\<not> is_unsafe toy_pull_env build_item" "\<not> looks_like_prompt_injection toy_pull_env build_item"
  "\<not> looks_like_secret toy_pull_env build_item"
  by code_simp+

lemma build_autocommit: "autocommit_for toy_pull_env now build_request build_item no_candidate = Some build_decision"
proof -
  let ?pi = "policy_item_from_teaching toy_pull_env build_item False"
  have pi: "?pi = new_policy_item (uuid_text plain_env 11) ''builds''"
    using build_item_safe
    by (simp add: policy_item_from_teaching_def new_policy_item_def item_namespace_def build_frame_def [symmetric])
      (simp add: toy_pull_env_def build_item_def build_frame_def)
  have "fits_budget gpu_policy [?pi]" by (rule small_policy_fits) (simp_all add: gpu_policy_def)
  then have "derived_contains plain_env no_uuids now gpu_policy ''can_autocommit'' [''gpu'', pi_item_id ?pi] [?pi] = Some True"
    using derived_contains_iff [OF no_uuids_long, of "''can_autocommit''" plain_env now gpu_policy "[''gpu'', pi_item_id ?pi]" "[?pi]"]
      autocommit_concluded [of "''gpu''" ?pi gpu_policy] pi by (simp add: gpu_policy_def new_policy_item_def)
  then show ?thesis
    using pi by (simp add: autocommit_for_def no_candidate_def toy_pull_env_def build_request_def can_autocommit_def deny_reasons_empty
        gpu_policy_def new_policy_item_def signal_reason_def has_policy_fact_def build_decision_def)
qed

lemma build_verified: "verify toy_sig_env (\<lambda>_. Ok JNull) build_packet (pq_public_identity build_request) = Ok ()"
  by (simp add: verify_def build_packet_def build_request_def public_identity_def from_verifying_key_def toy_sig_env_def
      canonical_payload_bytes_def sha256_bytes_def hex_encode_def hex_byte_def hex_chars_def verifying_key_def ensure_def Let_def)

lemma build_preview:
  "pull_preview toy_pull_env (\<lambda>_. Ok build_packet) mock_pull_ops 9 1 2 21 build_request empty_pull_store = Some (Ok build_plan, empty_pull_store)"
proof -
  have state: "plan_state toy_pull_env 1 build_request build_item no_candidate = Some ImpActive"
    using build_item_safe(1) build_autocommit [of 1] by (simp add: plan_state_def no_candidate_def build_decision_def decision_def)
  have "state_reasons toy_pull_env 1 build_request build_item no_candidate ImpActive =
      Some (map (\<lambda>r. pr_code r @ '': '' @ pr_message r) (pd_reasons build_decision))"
    using build_autocommit [of 1] by (simp add: state_reasons_def no_candidate_def)
  with state have item: "preview_item toy_pull_env 1 build_request build_item no_candidate =
      Some \<lparr>vi_item = build_item, vi_state = ImpActive, vi_candidate = no_candidate,
        vi_reasons = map (\<lambda>r. pr_code r @ '': '' @ pr_message r) (pd_reasons build_decision)\<rparr>"
    by (simp add: preview_item_def disjoint_reason_def build_request_def)
  have "preview_items toy_pull_env mock_pull_ops 9 1 build_request [build_item] empty_pull_store = Some (Ok (vp_items build_plan), empty_pull_store)"
    using item by (simp add: detect_duplicate_or_conflict_def mock_pull_ops_def mock_entity_list_all_def empty_pull_store_def find_candidate_def
        build_plan_def)
  moreover have "tp_items (se_payload build_packet) = [build_item]" "tp_expires_at (se_payload build_packet) = Some 100"
    by (simp_all add: build_packet_def)
  moreover have "pe_sig toy_pull_env = toy_sig_env" "packet_to_value toy_pull_env = (\<lambda>_. Ok JNull)" by (simp_all add: toy_pull_env_def)
  ultimately show ?thesis using build_verified by (simp add: pull_preview_def) (simp add: build_plan_def build_request_def)
qed

lemma build_commit:
  "\<exists>receipt s'. pull_commit toy_pull_env mock_pull_ops 9 31 (\<lambda>n. of_nat n) 4 (\<lambda>_. 4) 5 6
    \<lparr>cr_preview = build_plan, cr_learner_decision = build_learner_decision\<rparr> empty_pull_store = (Ok receipt, s')"
  by (rule forged_plan_is_written)
    (simp_all add: empty_pull_store_def build_plan_def build_learner_decision_def build_item_def is_skill_kind_def)

theorem pulled_memory_is_authorised_witness:
  "\<exists>receipt s3. pull_commit toy_pull_env mock_pull_ops 9 31 (\<lambda>n. of_nat n) 4 (\<lambda>_. 4) 5 6
      \<lparr>cr_preview = build_plan, cr_learner_decision = build_learner_decision\<rparr> empty_pull_store = (Ok receipt, s3) \<and>
    (\<forall>entity \<in> set (prw_entities (mp_rows s3)). ee_entity_name entity = ti_title build_item \<and> may_autocommit gpu_policy ''gpu'' ''builds'')"
proof -
  obtain receipt s3 where run: "pull_commit toy_pull_env mock_pull_ops 9 31 (\<lambda>n. of_nat n) 4 (\<lambda>_. 4) 5 6
    \<lparr>cr_preview = build_plan, cr_learner_decision = build_learner_decision\<rparr> empty_pull_store = (Ok receipt, s3)" using build_commit by blast
  have parts: "tp_items (se_payload (vp_packet build_plan)) = [build_item]" "pq_policy build_request = gpu_policy"
    "pq_remote_name build_request = ''gpu''" "item_namespace build_item = ''builds''" "prw_entities (mp_rows empty_pull_store) = []"
    by (simp_all add: build_plan_def build_packet_def build_request_def item_namespace_def build_item_def build_frame_def empty_pull_store_def)
  have "uuid_texts_long (pe_parser toy_pull_env)" "keeps_all_types empty_pull_store"
    by (simp_all add: toy_pull_env_def no_uuids_long keeps_all_types_def empty_pull_store_def)
  from pulled_memory_is_authorised [OF this(1) build_preview run this(2)]
  have "\<forall>entity \<in> set (prw_entities (mp_rows s3)). \<exists>a t. item_authorised toy_pull_env build_request [] build_item \<and>
      entity = imported_entity toy_pull_env 9 build_plan build_item a t"
    by (auto simp: Let_def parts)
  then have "\<forall>entity \<in> set (prw_entities (mp_rows s3)). ee_entity_name entity = ti_title build_item \<and> may_autocommit gpu_policy ''gpu'' ''builds''"
    by (auto simp: item_authorised_def imported_entity_def parts)
  with run show ?thesis by blast
qed

theorem commit_writes_the_plan_witness:
  "\<exists>receipt s'. pull_commit toy_pull_env mock_pull_ops 9 31 (\<lambda>n. of_nat n) 4 (\<lambda>_. 4) 5 6
      \<lparr>cr_preview = build_plan, cr_learner_decision = build_learner_decision\<rparr> empty_pull_store = (Ok receipt, s') \<and>
    rc_imported_count receipt = 1 \<and> rc_stub_count receipt = 0"
proof -
  obtain receipt s' where run: "pull_commit toy_pull_env mock_pull_ops 9 31 (\<lambda>n. of_nat n) 4 (\<lambda>_. 4) 5 6
    \<lparr>cr_preview = build_plan, cr_learner_decision = build_learner_decision\<rparr> empty_pull_store = (Ok receipt, s')" using build_commit by blast
  have "keeps_all_types empty_pull_store" by (simp add: keeps_all_types_def empty_pull_store_def)
  from commit_writes_the_plan [OF run this] have "rc_imported_count receipt = 1" "rc_stub_count receipt = 0"
    by (simp_all add: Let_def count_states_def build_plan_def)
  with run show ?thesis by blast
qed

text \<open>A near duplicate that is listed first hides a conflict behind it.\<close>

definition local_entity :: "uuid \<Rightarrow> string \<Rightarrow> string \<Rightarrow> entity_entry" where
  "local_entity i title snippet = imported_entity toy_pull_env 9 build_plan
     (build_item\<lparr>ti_title := title, ti_summary := snippet, ti_content_hash := ContentHash ''bb''\<rparr>) i 0"

lemma near_duplicate_hides_conflict:
  "dc_kind (find_candidate toy_pull_env build_item
     [local_entity 1 ''cache'' ''toolchain'', local_entity 2 ''Cache the toolchain'' ''never cache it'']) = NearDuplicate"
  "dc_kind (find_candidate toy_pull_env build_item [local_entity 2 ''Cache the toolchain'' ''never cache it'']) = Conflict"
  by code_simp+

end
