(* ===== verification/Skill_Import.thy ===== *)
theory Skill_Import
  imports Remote_Pull
begin

text \<open>
  Skill teaching (\<open>remotes/skills.rs\<close>): the review-first preview of a signed skill packet and the commit of a preview into
  import candidates. The client is a function; readings of the clock and fresh identifiers are arguments.
\<close>

section \<open>Data\<close>

datatype remote_trust_class = TrustPersonal | TrustTeam | TrustPartner | TrustPublic | TrustArchive

record skill_teaching_step =
  sts_phase :: "string option"
  sts_instruction :: string

record skill_teaching_item =
  sk_skill_name :: string
  sk_category :: string
  sk_description :: string
  sk_steps :: "skill_teaching_step list"
  sk_prerequisites :: "string list"
  sk_triggers :: "string list"
  sk_verification :: "string list"
  sk_pitfalls :: "string list"
  sk_content_hash :: content_hash
  sk_applicability :: applicability_frame
  sk_safety :: safety_classification
  sk_metadata :: json
  sk_created_at :: instant

record skill_teaching_packet =
  skp_packet_id :: uuid
  skp_teacher_instance_id :: instance_id
  skp_request_id :: "uuid option"
  skp_source_namespace :: string
  skp_query :: string
  skp_skills :: "skill_teaching_item list"
  skp_expires_at :: "instant option"
  skp_created_at :: instant

record skill_pull_preview_request =
  sq_remote_id :: uuid
  sq_remote_name :: string
  sq_query :: string
  sq_trust_class :: remote_trust_class
  sq_policy :: remote_policy
  sq_public_identity :: instance_public_identity
  sq_preview_ttl :: int
  sq_local_skill_names :: "string list"
  sq_allow_local_overwrite :: bool

datatype skill_review_state = ActiveCandidate | NeedsReview | SkillQuarantined | SkillRejected

record skill_preview_item =
  svi_skill :: skill_teaching_item
  svi_review_state :: skill_review_state
  svi_requires_explicit_overwrite_approval :: bool
  svi_reasons :: "string list"

record skill_pull_preview_plan =
  svp_preview_id :: uuid
  svp_remote_id :: uuid
  svp_remote_name :: string
  svp_query :: string
  svp_packet :: "skill_teaching_packet signed_envelope"
  svp_items :: "skill_preview_item list"
  svp_created_at :: instant
  svp_expires_at :: instant
  svp_dry_run :: bool

record skill_import_provenance =
  sip_remote_id :: uuid
  sip_packet_id :: uuid
  sip_source_namespace :: string
  sip_teacher_instance_id :: instance_id
  sip_content_hash :: content_hash
  sip_signature_hash :: content_hash
  sip_imported_at :: instant

record skill_import_candidate =
  sic_candidate_id :: uuid
  sic_skill :: skill_teaching_item
  sic_proposed_doc :: string
  sic_review_state :: skill_review_state
  sic_requires_explicit_overwrite_approval :: bool
  sic_provenance :: skill_import_provenance

record skill_commit_receipt =
  scr_candidate_count :: nat
  scr_candidates :: "skill_import_candidate list"

datatype skill_error =
    ReadGrantRequired string
  | SkillClientError string
  | SkillVerifyError remote_identity_error
  | SkillPacketExpired
  | SkillPreviewExpired

record skill_env = pull_env +
  skill_packet_to_value :: "skill_teaching_packet \<Rightarrow> string + json"

section \<open>Classification of a skill\<close>

definition skill_text :: "skill_teaching_item \<Rightarrow> string" where
  "skill_text skill =
     sk_skill_name skill @ '' '' @ sk_category skill @ '' '' @ sk_description skill @
     concat (map (\<lambda>step. '' '' @ sts_instruction step) (sk_steps skill)) @
     concat (map (\<lambda>s. '' '' @ s) (sk_prerequisites skill @ sk_triggers skill @ sk_verification skill @ sk_pitfalls skill))"

definition skill_looks_like_prompt_injection :: "'x skill_env_scheme \<Rightarrow> skill_teaching_item \<Rightarrow> bool" where
  "skill_looks_like_prompt_injection env skill =
     (let text = lowercase_of env (skill_text skill) in
      str_contains text ''ignore previous instructions'' \<or> str_contains text ''reveal secrets'' \<or> str_contains text ''system prompt'')"

definition skill_looks_like_secret :: "'x skill_env_scheme \<Rightarrow> skill_teaching_item \<Rightarrow> bool" where
  "skill_looks_like_secret env skill =
     (let text = lowercase_of env (skill_text skill) in str_contains text ''private key'' \<or> str_contains text ''api_key'')"

definition skill_is_unsafe :: "'x skill_env_scheme \<Rightarrow> skill_teaching_item \<Rightarrow> bool" where
  "skill_is_unsafe env skill \<longleftrightarrow> sc_risk (sk_safety skill) \<in> {RiskHigh, RiskSuspected, RiskRedacted} \<or> sc_redacted (sk_safety skill) \<or>
     sc_requires_human (sk_safety skill) \<or> skill_looks_like_prompt_injection env skill \<or> skill_looks_like_secret env skill"

definition normalize_name :: "'x skill_env_scheme \<Rightarrow> string \<Rightarrow> string" where
  "normalize_name env name = lowercase_of env (trim name)"

definition with_local_skill_names :: "'x skill_env_scheme \<Rightarrow> skill_pull_preview_request \<Rightarrow> string list \<Rightarrow> skill_pull_preview_request" where
  "with_local_skill_names env request names = request\<lparr>sq_local_skill_names := map (normalize_name env) names\<rparr>"

section \<open>Preview\<close>

definition skill_policy_item :: "'x skill_env_scheme \<Rightarrow> skill_pull_preview_request \<Rightarrow> skill_teaching_item \<Rightarrow> policy_item" where
  "skill_policy_item env request skill =
     (new_policy_item (sk_skill_name skill) ''skills'')\<lparr>pi_safe := \<not> skill_is_unsafe env skill,
       pi_prompt_injection_risk := skill_looks_like_prompt_injection env skill, pi_secret_risk := skill_looks_like_secret env skill,
       pi_conflict := (normalize_name env (sk_skill_name skill) \<in> set (sq_local_skill_names request) \<and> \<not> sq_allow_local_overwrite request)\<rparr>"

definition needs_overwrite_approval :: "'x skill_env_scheme \<Rightarrow> skill_pull_preview_request \<Rightarrow> skill_teaching_item \<Rightarrow> bool" where
  "needs_overwrite_approval env request skill \<longleftrightarrow>
     normalize_name env (sk_skill_name skill) \<in> set (sq_local_skill_names request) \<and> \<not> sq_allow_local_overwrite request"

definition review_state_of ::
  "'x skill_env_scheme \<Rightarrow> skill_pull_preview_request \<Rightarrow> skill_teaching_item \<Rightarrow> bool \<Rightarrow> skill_review_state \<times> string list" where
  "review_state_of env request skill autocommit_allowed =
     (if skill_is_unsafe env skill then (SkillQuarantined, [''safety classifier requires quarantine''])
      else if sq_trust_class request = TrustTeam then (NeedsReview, [''team skill imports are review-first''])
      else if needs_overwrite_approval env request skill then (NeedsReview, [])
      else if sq_trust_class request = TrustPersonal \<and> autocommit_allowed then (ActiveCandidate, [])
      else (NeedsReview, [''skill autocommit denied by default'']))"

definition plan_skill_item :: "'x skill_env_scheme \<Rightarrow> skill_pull_preview_request \<Rightarrow> skill_teaching_item \<Rightarrow> skill_preview_item" where
  "plan_skill_item env request skill =
     (let autocommit = can_autocommit_skill (sq_policy request) (sq_remote_name request) (skill_policy_item env request skill);
          approval = needs_overwrite_approval env request skill;
          (state, notes) = review_state_of env request skill (pd_allowed autocommit) in
      \<lparr>svi_skill = skill, svi_review_state = state, svi_requires_explicit_overwrite_approval = approval,
       svi_reasons = map (\<lambda>r. pr_code r @ '': '' @ pr_message r) (pd_reasons autocommit) @
         (if approval then [''local skill exists; explicit approval required before overwrite''] else []) @ notes\<rparr>)"

definition skill_pull_preview ::
  "'x skill_env_scheme \<Rightarrow> (skill_pull_preview_request \<Rightarrow> string + skill_teaching_packet signed_envelope) \<Rightarrow> instant \<Rightarrow> instant \<Rightarrow> instant
    \<Rightarrow> uuid \<Rightarrow> skill_pull_preview_request \<Rightarrow> (skill_error + skill_pull_preview_plan) outcome" where
  "skill_pull_preview env client policy_now now created_at preview_id request =
     map_option (\<lambda>read.
       and_then (ensure (pd_allowed read) (ReadGrantRequired (pd_explanation read))) (\<lambda>_.
       and_then (map_err SkillClientError (client request)) (\<lambda>envelope.
       and_then (map_err SkillVerifyError (verify (pe_sig env) (skill_packet_to_value env) envelope (sq_public_identity request))) (\<lambda>_.
       and_then (ensure (\<not> (case skp_expires_at (se_payload envelope) of Some expires \<Rightarrow> expires \<le> now | None \<Rightarrow> False)) SkillPacketExpired) (\<lambda>_.
       Ok \<lparr>svp_preview_id = preview_id, svp_remote_id = sq_remote_id request, svp_remote_name = sq_remote_name request,
          svp_query = sq_query request, svp_packet = envelope,
          svp_items = map (plan_skill_item env request) (skp_skills (se_payload envelope)), svp_created_at = created_at,
          svp_expires_at = created_at + sq_preview_ttl request, svp_dry_run = True\<rparr>)))))
     (can_query (pe_datalog env) (pe_parser env) policy_now (sq_policy request) (sq_remote_name request) ''skills'')"

section \<open>Commit\<close>

definition newline :: string where
  "newline = [CHR 0x0A]"

definition bullet_list :: "string list \<Rightarrow> string" where
  "bullet_list items = join_strings newline (map (\<lambda>item. ''- '' @ item) items)"

definition render_step :: "skill_teaching_step \<Rightarrow> string" where
  "render_step step = (case sts_phase step of
      Some phase \<Rightarrow> ''- ['' @ phase @ ''] '' @ sts_instruction step
    | None \<Rightarrow> ''- '' @ sts_instruction step)"

definition render_skill_doc :: "skill_teaching_item \<Rightarrow> string" where
  "render_skill_doc skill =
     ''---'' @ newline @ ''name: '' @ sk_skill_name skill @ newline @ ''category: '' @ sk_category skill @ newline @ ''---'' @
     newline @ newline @ ''# '' @ sk_skill_name skill @ newline @ newline @ sk_description skill @ newline @ newline @
     ''## Steps'' @ newline @ join_strings newline (map render_step (sk_steps skill)) @ newline @ newline @
     ''## Prerequisites'' @ newline @ bullet_list (sk_prerequisites skill) @ newline @ newline @
     ''## Triggers'' @ newline @ bullet_list (sk_triggers skill) @ newline @ newline @
     ''## Verification'' @ newline @ bullet_list (sk_verification skill) @ newline @ newline @
     ''## Pitfalls'' @ newline @ bullet_list (sk_pitfalls skill) @ newline"

definition skill_candidate ::
  "'x skill_env_scheme \<Rightarrow> skill_pull_preview_plan \<Rightarrow> uuid \<Rightarrow> instant \<Rightarrow> skill_preview_item \<Rightarrow> skill_import_candidate" where
  "skill_candidate env preview candidate_id imported_at item =
     (let packet = se_payload (svp_packet preview) in
      \<lparr>sic_candidate_id = candidate_id, sic_skill = svi_skill item, sic_proposed_doc = render_skill_doc (svi_skill item),
       sic_review_state = svi_review_state item,
       sic_requires_explicit_overwrite_approval = svi_requires_explicit_overwrite_approval item,
       sic_provenance = \<lparr>sip_remote_id = svp_remote_id preview, sip_packet_id = skp_packet_id packet,
         sip_source_namespace = skp_source_namespace packet, sip_teacher_instance_id = skp_teacher_instance_id packet,
         sip_content_hash = sk_content_hash (svi_skill item),
         sip_signature_hash = sha256_bytes (pe_sig env) (se_signature (svp_packet preview)), sip_imported_at = imported_at\<rparr>\<rparr>)"

definition skill_commit ::
  "'x skill_env_scheme \<Rightarrow> instant \<Rightarrow> (nat \<Rightarrow> uuid) \<Rightarrow> (nat \<Rightarrow> instant) \<Rightarrow> skill_pull_preview_plan \<Rightarrow> skill_error + skill_commit_receipt" where
  "skill_commit env now fresh clock preview =
     and_then (ensure (\<not> svp_expires_at preview \<le> now) SkillPreviewExpired) (\<lambda>_.
       let candidates = map (\<lambda>(j, item). skill_candidate env preview (fresh j) (clock j) item) (List.enumerate 0 (svp_items preview)) in
       Ok \<lparr>scr_candidate_count = length candidates, scr_candidates = candidates\<rparr>)"

section \<open>Properties\<close>

text \<open>What makes a skill of a packet an active candidate.\<close>

definition skill_authorised :: "'x skill_env_scheme \<Rightarrow> skill_pull_preview_request \<Rightarrow> skill_teaching_item \<Rightarrow> bool" where
  "skill_authorised env request skill \<longleftrightarrow> \<not> skill_is_unsafe env skill \<and> sq_trust_class request = TrustPersonal \<and>
     \<not> needs_overwrite_approval env request skill \<and>
     (let facts = set (rp_facts (sq_policy request)); r = sq_remote_name request in
      Deny r Autocommit ''skills'' \<notin> facts \<and> Grant r Autocommit ''skills'' \<in> facts \<and> TrustedFor r ''skills'' \<in> facts)"

lemma plan_skill_item_state:
  "svi_skill (plan_skill_item env request skill) = skill"
  "svi_review_state (plan_skill_item env request skill) = ActiveCandidate \<longleftrightarrow> skill_authorised env request skill"
  "svi_review_state (plan_skill_item env request skill) = SkillQuarantined \<longleftrightarrow> skill_is_unsafe env skill"
proof -
  have item: "pi_namespace (skill_policy_item env request skill) = ''skills''"
    "pi_safe (skill_policy_item env request skill) = (\<not> skill_is_unsafe env skill)"
    "pi_conflict (skill_policy_item env request skill) = needs_overwrite_approval env request skill"
    "pi_prompt_injection_risk (skill_policy_item env request skill) = skill_looks_like_prompt_injection env skill"
    "pi_secret_risk (skill_policy_item env request skill) = skill_looks_like_secret env skill"
    by (simp_all add: skill_policy_item_def new_policy_item_def needs_overwrite_approval_def)
  have "\<not> skill_is_unsafe env skill \<Longrightarrow> \<not> skill_looks_like_prompt_injection env skill \<and> \<not> skill_looks_like_secret env skill"
    by (simp add: skill_is_unsafe_def)
  then show "svi_skill (plan_skill_item env request skill) = skill"
    "svi_review_state (plan_skill_item env request skill) = ActiveCandidate \<longleftrightarrow> skill_authorised env request skill"
    "svi_review_state (plan_skill_item env request skill) = SkillQuarantined \<longleftrightarrow> skill_is_unsafe env skill"
    by (auto simp: plan_skill_item_def Let_def review_state_of_def skill_allowed item skill_authorised_def split: prod.splits if_splits)
qed

text \<open>C31. Skills are imported review first. A committed preview yields one candidate per skill of the packet, with the hashes of
  the skill and of the signature; the packet was signed by the configured remote, was not expired and was fetched under a
  read grant for skills. A candidate is active exactly if its skill is safe, comes from a personal remote with grant
  and trust for skills and no denial, and would not overwrite a local skill without approval; an unsafe skill is always
  quarantined. The commit happened before the preview expired.\<close>

theorem skills_are_reviewed_first:
  assumes "uuid_texts_long (pe_parser env)"
    and "skill_pull_preview env client policy_now now created_at preview_id request = Some (Ok plan)"
    and "skill_commit env now' fresh clock plan = Ok receipt"
  shows "verify (pe_sig env) (skill_packet_to_value env) (svp_packet plan) (sq_public_identity request) = Ok () \<and>
    Grant (sq_remote_name request) Read ''skills'' \<in> set (rp_facts (sq_policy request)) \<and>
    (\<forall>expires. skp_expires_at (se_payload (svp_packet plan)) = Some expires \<longrightarrow> now < expires) \<and>
    now' < created_at + sq_preview_ttl request \<and>
    map sic_skill (scr_candidates receipt) = skp_skills (se_payload (svp_packet plan)) \<and>
    scr_candidate_count receipt = length (scr_candidates receipt) \<and>
    (\<forall>c \<in> set (scr_candidates receipt).
       sip_content_hash (sic_provenance c) = sk_content_hash (sic_skill c) \<and>
       sip_signature_hash (sic_provenance c) = sha256_bytes (pe_sig env) (se_signature (svp_packet plan)) \<and>
       sic_proposed_doc c = render_skill_doc (sic_skill c) \<and>
       (sic_review_state c = ActiveCandidate) = skill_authorised env request (sic_skill c) \<and>
       (sic_review_state c = SkillQuarantined) = skill_is_unsafe env (sic_skill c))"
proof -
  obtain read where read: "can_query (pe_datalog env) (pe_parser env) policy_now (sq_policy request) (sq_remote_name request) ''skills'' = Some read"
    "pd_allowed read" and packet: "verify (pe_sig env) (skill_packet_to_value env) (svp_packet plan) (sq_public_identity request) = Ok ()"
    "\<forall>expires. skp_expires_at (se_payload (svp_packet plan)) = Some expires \<longrightarrow> now < expires"
    and plan: "svp_items plan = map (plan_skill_item env request) (skp_skills (se_payload (svp_packet plan)))"
    "svp_expires_at plan = created_at + sq_preview_ttl request"
    using assms(2) by (auto simp: skill_pull_preview_def not_le split: option.splits)
  have grant: "Grant (sq_remote_name request) Read ''skills'' \<in> set (rp_facts (sq_policy request))"
    using query_allowed [OF assms(1), of "pe_datalog env" policy_now "sq_policy request" "sq_remote_name request" "''skills''"] read by simp
  have receipt: "scr_candidates receipt = map (\<lambda>(j, item). skill_candidate env plan (fresh j) (clock j) item) (List.enumerate 0 (svp_items plan))"
    "scr_candidate_count receipt = length (scr_candidates receipt)" "now' < svp_expires_at plan"
    using assms(3) by (auto simp: skill_commit_def Let_def)
  have "map sic_skill (scr_candidates receipt) = map svi_skill (map snd (List.enumerate 0 (svp_items plan)))"
    unfolding receipt(1) map_map by (rule map_cong) (auto simp: skill_candidate_def Let_def)
  then have skills: "map sic_skill (scr_candidates receipt) = skp_skills (se_payload (svp_packet plan))"
    by (simp add: plan(1) plan_skill_item_state comp_def)
  have "sip_content_hash (sic_provenance c) = sk_content_hash (sic_skill c) \<and>
       sip_signature_hash (sic_provenance c) = sha256_bytes (pe_sig env) (se_signature (svp_packet plan)) \<and>
       sic_proposed_doc c = render_skill_doc (sic_skill c) \<and>
       (sic_review_state c = ActiveCandidate) = skill_authorised env request (sic_skill c) \<and>
       (sic_review_state c = SkillQuarantined) = skill_is_unsafe env (sic_skill c)" if "c \<in> set (scr_candidates receipt)" for c
  proof -
    obtain j item where c: "c = skill_candidate env plan (fresh j) (clock j) item" "item \<in> set (svp_items plan)"
      using \<open>c \<in> set (scr_candidates receipt)\<close> by (auto simp: receipt(1) in_set_enumerate_eq)
    then obtain skill where "item = plan_skill_item env request skill" by (auto simp: plan(1))
    then show ?thesis using c(1) by (simp add: skill_candidate_def Let_def plan_skill_item_state)
  qed
  then show ?thesis using packet grant skills receipt(2,3) plan(2) by simp
qed

text \<open>A personal remote teaches one skill.\<close>

definition toy_skill_env :: skill_env where
  "toy_skill_env = \<lparr>lowercase_of = map ascii_lower, is_alphanumeric = (\<lambda>ch. list_all is_ascii_alphanumeric ch), pe_sig = toy_sig_env,
     pe_datalog = plain_env, pe_parser = no_uuids, packet_to_value = (\<lambda>_. Ok JNull), decision_to_value = (\<lambda>_. Ok JNull),
     frame_from_value = (\<lambda>_. None), frame_to_value = (\<lambda>_. JNull), skill_packet_to_value = (\<lambda>_. Ok JNull)\<rparr>"

definition release_skill :: skill_teaching_item where
  "release_skill = \<lparr>sk_skill_name = ''Release'', sk_category = ''ops'', sk_description = ''cut a release'',
     sk_steps = [\<lparr>sts_phase = None, sts_instruction = ''tag the commit''\<rparr>], sk_prerequisites = [], sk_triggers = [], sk_verification = [],
     sk_pitfalls = [], sk_content_hash = ContentHash ''cc'', sk_applicability = build_frame,
     sk_safety = \<lparr>sc_risk = RiskNone, sc_reasons = [], sc_redacted = False, sc_requires_human = False\<rparr>, sk_metadata = JNull,
     sk_created_at = 0\<rparr>"

definition skill_packet :: "skill_teaching_packet signed_envelope" where
  "skill_packet = \<lparr>se_payload = \<lparr>skp_packet_id = 8, skp_teacher_instance_id = InstanceId 3, skp_request_id = None,
       skp_source_namespace = ''skills'', skp_query = ''q'', skp_skills = [release_skill], skp_expires_at = None, skp_created_at = 0\<rparr>,
     se_content_hash = ContentHash ''01'', se_signer = InstanceId 3,
     se_fingerprint = PublicKeyFingerprint (hex_encode (replicate 32 5)), se_signature = replicate 64 0\<rparr>"

definition skill_request :: skill_pull_preview_request where
  "skill_request = \<lparr>sq_remote_id = 5, sq_remote_name = ''gpu'', sq_query = ''q'', sq_trust_class = TrustPersonal,
     sq_policy = \<lparr>rp_facts = [FactRemote ''gpu'', Grant ''gpu'' Read ''skills'', Grant ''gpu'' Autocommit ''skills'', TrustedFor ''gpu'' ''skills'']\<rparr>,
     sq_public_identity = public_identity toy_sig_env \<lparr>isi_instance_id = InstanceId 3, isi_signing_key = [2]\<rparr>,
     sq_preview_ttl = 900, sq_local_skill_names = [''deploy''], sq_allow_local_overwrite = False\<rparr>"

definition skill_plan :: skill_pull_preview_plan where
  "skill_plan = \<lparr>svp_preview_id = 22, svp_remote_id = 5, svp_remote_name = ''gpu'', svp_query = ''q'', svp_packet = skill_packet,
     svp_items = [plan_skill_item toy_skill_env skill_request release_skill], svp_created_at = 2, svp_expires_at = 902, svp_dry_run = True\<rparr>"

lemma skill_preview: "skill_pull_preview toy_skill_env (\<lambda>_. Ok skill_packet) 1 1 2 22 skill_request = Some (Ok skill_plan)"
proof -
  have "fits_budget (sq_policy skill_request) []" by (rule small_policy_fits) (simp_all add: skill_request_def)
  then obtain read where "can_query plain_env no_uuids 1 (sq_policy skill_request) ''gpu'' ''skills'' = Some read" "pd_allowed read"
    using query_allowed [OF no_uuids_long, of plain_env 1 "sq_policy skill_request" "''gpu''" "''skills''"] by (auto simp: skill_request_def)
  moreover have "verify toy_sig_env (\<lambda>_. Ok JNull) skill_packet (sq_public_identity skill_request) = Ok ()"
    by (simp add: verify_def skill_packet_def skill_request_def public_identity_def from_verifying_key_def toy_sig_env_def
        canonical_payload_bytes_def sha256_bytes_def hex_encode_def hex_byte_def hex_chars_def verifying_key_def ensure_def Let_def)
  moreover have "pe_datalog toy_skill_env = plain_env" "pe_parser toy_skill_env = no_uuids" "pe_sig toy_skill_env = toy_sig_env"
    "skill_packet_to_value toy_skill_env = (\<lambda>_. Ok JNull)" by (simp_all add: toy_skill_env_def)
  moreover have "sq_remote_name skill_request = ''gpu''" "skp_expires_at (se_payload skill_packet) = None"
    "skp_skills (se_payload skill_packet) = [release_skill]" by (simp_all add: skill_request_def skill_packet_def)
  ultimately show ?thesis by (simp add: skill_pull_preview_def ensure_def) (simp add: skill_plan_def skill_request_def)
qed

theorem skills_are_reviewed_first_witness:
  "\<exists>receipt c. skill_commit toy_skill_env 3 (\<lambda>n. of_nat n) (\<lambda>_. 3) skill_plan = Ok receipt \<and> scr_candidates receipt = [c] \<and>
    sic_skill c = release_skill \<and> sic_review_state c = ActiveCandidate"
proof -
  obtain receipt where run: "skill_commit toy_skill_env 3 (\<lambda>n. of_nat n) (\<lambda>_. 3) skill_plan = Ok receipt"
    by (simp add: skill_commit_def skill_plan_def ensure_def)
  have "uuid_texts_long (pe_parser toy_skill_env)" by (simp add: toy_skill_env_def no_uuids_long)
  note facts = skills_are_reviewed_first [OF this skill_preview run]
  have "skp_skills (se_payload (svp_packet skill_plan)) = [release_skill]" by (simp add: skill_plan_def skill_packet_def)
  then obtain c where c: "scr_candidates receipt = [c]" "sic_skill c = release_skill" using facts by auto
  have "skill_authorised toy_skill_env skill_request release_skill" by code_simp
  then have "sic_review_state c = ActiveCandidate" using facts c by simp
  then show ?thesis using run c by blast
qed

end
