(* ===== verification/Trust_Ledger.thy ===== *)
theory Trust_Ledger
  imports Remote_Text Datalog_Fixpoint
begin

text \<open>
  Feedback on remote memory and the trust it changes (\<open>remotes/feedback.rs\<close>): the classification of a terse text, and the
  ledger of scores per remote, namespace and scope. Scores are binary64 numbers; the ledger refines one that counts in
  exact twentieths.
\<close>

section \<open>Feedback signals\<close>

datatype feedback_type =
  FbIrrelevant | FbWrongScope | FbWrongFact | FbBadSourceNamespace | FbBadProcedure | FbStopSignal | FbPromptInjection

record feedback_signal =
  fs_feedback_type :: feedback_type
  fs_weight :: f64
  fs_requires_review :: bool
  fs_applicability_correction :: "string option"
  fs_explanation :: string
  fs_halt_current_chain :: bool

definition feedback_tokens :: "'x unicode_env_scheme \<Rightarrow> string \<Rightarrow> string list" where
  "feedback_tokens env normalized =
     filter (\<lambda>s. s \<noteq> []) (split_chars (\<lambda>ch. \<not> is_alphanumeric env ch \<and> ch \<noteq> ''-'') (utf8_chars normalized))"

definition classify :: "'x unicode_env_scheme \<Rightarrow> string \<Rightarrow> feedback_signal" where
  "classify env text =
     (let normalized = lowercase_of env (trim text);
          has = (\<lambda>needle. needle \<in> set (feedback_tokens env normalized)) in
      if has ''stop'' then
        \<lparr>fs_feedback_type = FbStopSignal, fs_weight = Fin (- 1), fs_requires_review = True, fs_applicability_correction = None,
         fs_explanation = ''user stop signal; halt the current remote-memory chain'', fs_halt_current_chain = True\<rparr>
      else if str_contains normalized ''wtf'' then
        \<lparr>fs_feedback_type = FbWrongFact, fs_weight = f64_neg (round64 (9 / 10)), fs_requires_review = True,
         fs_applicability_correction = None,
         fs_explanation = ''strong negative feedback; mark candidate for human review'', fs_halt_current_chain = False\<rparr>
      else if str_contains normalized ''mac-only'' \<or> str_contains normalized ''mac only'' \<or>
        str_contains normalized ''macos only'' \<or> str_contains normalized ''mac os only'' then
        \<lparr>fs_feedback_type = FbWrongScope, fs_weight = f64_neg (round64 (65 / 100)), fs_requires_review = False,
         fs_applicability_correction = Some ''macos'',
         fs_explanation = ''feedback says the item only applies to macOS scope'', fs_halt_current_chain = False\<rparr>
      else if has ''no'' \<or> has ''nope'' \<or> has ''wrong'' then
        \<lparr>fs_feedback_type = FbIrrelevant, fs_weight = f64_neg (round64 (35 / 100)), fs_requires_review = False,
         fs_applicability_correction = None, fs_explanation = ''negative feedback candidate'', fs_halt_current_chain = False\<rparr>
      else
        \<lparr>fs_feedback_type = FbIrrelevant, fs_weight = f64_neg (round64 (1 / 10)), fs_requires_review = False,
         fs_applicability_correction = None,
         fs_explanation = ''unclassified feedback; record as low-weight relevance signal'', fs_halt_current_chain = False\<rparr>)"

section \<open>The ledger\<close>

record trust_key =
  tk_remote_id :: uuid
  tk_source_namespace :: string
  tk_scope :: string

datatype reinforcement = PolicyChosen | UserConfirmed | WrongScope | StrongNegative

fun delta :: "reinforcement \<Rightarrow> f64" where
  "delta PolicyChosen = round64 (5 / 100)"
| "delta UserConfirmed = round64 (25 / 100)"
| "delta WrongScope = f64_neg (round64 (45 / 100))"
| "delta StrongNegative = f64_neg (round64 (60 / 100))"

fun is_strong_negative :: "reinforcement \<Rightarrow> bool" where
  "is_strong_negative WrongScope = True"
| "is_strong_negative StrongNegative = True"
| "is_strong_negative _ = False"

record trust_update =
  tu_key :: trust_key
  tu_delta :: f64
  tu_score :: f64
  tu_strong_negative_count :: nat
  tu_derived_not_trusted_for :: bool

record trust_entry =
  en_score :: f64
  en_strong_negative_count :: nat

definition default_entry :: trust_entry where
  "default_entry = \<lparr>en_score = Fin 0, en_strong_negative_count = 0\<rparr>"

record trust_ledger =
  tl_entries :: "trust_key \<rightharpoonup> trust_entry"

definition clamp_score :: "f64 \<Rightarrow> f64" where
  "clamp_score v = f64_div (f64_round (f64_mul (f64_clamp v (Fin (- 1)) (Fin 1)) (Fin 100))) (Fin 100)"

text \<open>The counter of strong negatives is a \<open>u32\<close> and saturates.\<close>

definition u32_saturating_inc :: "nat \<Rightarrow> nat" where
  "u32_saturating_inc n = min (n + 1) (2 ^ 32 - 1)"

definition apply_reinforcement :: "trust_ledger \<Rightarrow> trust_key \<Rightarrow> reinforcement \<Rightarrow> trust_update \<times> trust_ledger" where
  "apply_reinforcement self key r =
     (let entry = (case tl_entries self key of Some e \<Rightarrow> e | None \<Rightarrow> default_entry);
          score = clamp_score (f64_add (en_score entry) (delta r));
          count = (if is_strong_negative r then u32_saturating_inc (en_strong_negative_count entry)
                   else en_strong_negative_count entry) in
      (\<lparr>tu_key = key, tu_delta = delta r, tu_score = score, tu_strong_negative_count = count,
        tu_derived_not_trusted_for = (2 \<le> count \<or> partial_cmp score (Fin (- 1)) \<in> {Some Less, Some Equal})\<rparr>,
       self\<lparr>tl_entries := (tl_entries self)(key \<mapsto> \<lparr>en_score = score, en_strong_negative_count = count\<rparr>)\<rparr>))"

definition trust_score :: "trust_ledger \<Rightarrow> trust_key \<Rightarrow> f64" where
  "trust_score self key = (case tl_entries self key of Some e \<Rightarrow> en_score e | None \<Rightarrow> Fin 0)"

record remote_grant =
  rg_namespace :: string
  rg_grant :: string

record remote_deny =
  rd_namespace :: string
  rd_deny :: string

datatype remote_policy_kind = KindGrant remote_grant | KindDeny remote_deny

record remote_policy_fact =
  rpf_fact_id :: uuid
  rpf_remote_id :: uuid
  rpf_kind :: remote_policy_kind
  rpf_created_at :: instant
  rpf_expires_at :: "instant option"

text \<open>The fresh identifier and the instant are arguments.\<close>

definition not_trusted_for_fact :: "uuid \<Rightarrow> instant \<Rightarrow> trust_ledger \<Rightarrow> trust_key \<Rightarrow> remote_policy_fact option" where
  "not_trusted_for_fact fact_id now self key =
     (case tl_entries self key of
        None \<Rightarrow> None
      | Some entry \<Rightarrow>
          if en_strong_negative_count entry < 2 \<and> partial_cmp (en_score entry) (Fin (- 1)) = Some Greater then None
          else Some \<lparr>rpf_fact_id = fact_id, rpf_remote_id = tk_remote_id key,
            rpf_kind = KindDeny \<lparr>rd_namespace = tk_source_namespace key, rd_deny = ''not_trusted_for:'' @ tk_scope key\<rparr>,
            rpf_created_at = now, rpf_expires_at = None\<rparr>)"

section \<open>The exact ledger\<close>

text \<open>Scores in exact twentieths, as the deltas are written.\<close>

fun twentieths :: "reinforcement \<Rightarrow> int" where
  "twentieths PolicyChosen = 1"
| "twentieths UserConfirmed = 5"
| "twentieths WrongScope = - 9"
| "twentieths StrongNegative = - 12"

definition score_of :: "int \<Rightarrow> f64" where
  "score_of k = round64 (of_int k / 20)"

definition exact_step :: "reinforcement \<Rightarrow> int \<Rightarrow> int" where
  "exact_step r k = max (- 20) (min 20 (k + twentieths r))"

lemma rounded_close:
  assumes "\<bar>r\<bar> < 128"
  obtains v where "round64 r = Fin v" "\<bar>v - r\<bar> \<le> 1 / 10000"
proof -
  have "two_power (int 7 - 53) / 2 \<le> 1 / 10000" by (simp add: two_power_def)
  moreover obtain v where "round64 r = Fin v" "\<bar>v - r\<bar> \<le> two_power (int 7 - 53) / 2"
    by (rule round64_near [of r 7]) (use assms in simp_all)
  ultimately show ?thesis using that by force
qed

lemma delta_close: obtains w where "delta r = Fin w" "\<bar>w - of_int (twentieths r) / 20\<bar> \<le> 1 / 10000"
proof -
  have close: "\<exists>v. round64 x = Fin v \<and> \<bar>v - x\<bar> \<le> 1 / 10000" if "\<bar>x\<bar> < 128" for x
    by (rule rounded_close [OF that]) blast
  have "\<exists>w. delta r = Fin w \<and> \<bar>w - of_int (twentieths r) / 20\<bar> \<le> 1 / 10000"
  proof (cases r)
    case PolicyChosen
    then show ?thesis using close [of "1 / 20"] by simp
  next
    case UserConfirmed
    then show ?thesis using close [of "1 / 4"] by simp
  next
    case WrongScope
    obtain v where v: "round64 (9 / 20) = Fin v" "\<bar>v - 9 / 20\<bar> \<le> 1 / 10000" using close [of "9 / 20"] by auto
    then have "\<bar>- v - (- 9) / 20\<bar> \<le> 1 / 10000" unfolding abs_le_iff by linarith
    then show ?thesis using WrongScope v(1) by simp
  next
    case StrongNegative
    obtain v where v: "round64 (3 / 5) = Fin v" "\<bar>v - 3 / 5\<bar> \<le> 1 / 10000" using close [of "3 / 5"] by auto
    then have "\<bar>- v - (- 12) / 20\<bar> \<le> 1 / 10000" unfolding abs_le_iff by linarith
    then show ?thesis using StrongNegative v(1) by simp
  qed
  then show ?thesis using that by blast
qed

lemma round_to_int:
  assumes "\<bar>m - of_int n\<bar> < 1 / 2"
  shows "f64_round (Fin m) = Fin (of_int n)"
proof -
  have "\<lfloor>m + 1 / 2\<rfloor> = n" "\<lceil>m - 1 / 2\<rceil> = n" using assms by (intro floor_unique ceiling_unique; linarith)+
  then show ?thesis by simp
qed

definition clip :: "rat \<Rightarrow> rat" where
  "clip x = (if x < - 1 then - 1 else if 1 < x then 1 else x)"

lemma clip_near: "\<bar>u - x\<bar> \<le> e \<Longrightarrow> \<bar>clip u - clip x\<bar> \<le> e" "\<bar>clip u\<bar> \<le> 1"
  unfolding clip_def abs_le_iff by (simp_all split: if_splits)

text \<open>One step of the ledger, computed in floating point, is the exact step: rounding to cents removes the error.\<close>

lemma step_exact:
  assumes "\<bar>k\<bar> \<le> 20"
  shows "clamp_score (f64_add (score_of k) (delta r)) = score_of (exact_step r k)"
proof -
  let ?k = "exact_step r k" and ?x = "of_int (k + twentieths r) / 20 :: rat"
  have tw: "\<bar>twentieths r\<bar> \<le> 12" by (cases r) simp_all
  have k: "\<bar>of_int k / 20 :: rat\<bar> \<le> 1" "\<bar>of_int (twentieths r) / 20 :: rat\<bar> \<le> 1"
    using assms tw by (simp_all add: abs_le_iff flip: of_int_minus)
  obtain v where v: "score_of k = Fin v" "\<bar>v - of_int k / 20\<bar> \<le> 1 / 10000"
    using rounded_close [of "of_int k / 20"] k(1) unfolding score_of_def by force
  obtain w where w: "delta r = Fin w" "\<bar>w - of_int (twentieths r) / 20\<bar> \<le> 1 / 10000" by (rule delta_close)
  obtain u where u: "round64 (v + w) = Fin u" "\<bar>u - (v + w)\<bar> \<le> 1 / 10000"
    by (rule rounded_close [of "v + w"]) (use k v(2) w(2) in linarith)
  have sum: "\<bar>u - ?x\<bar> \<le> 3 / 10000" 
    using u(2) v(2) w(2) unfolding abs_le_iff of_int_add add_divide_distrib by linarith
  let ?c = "clip u"
  have clamp: "f64_clamp (Fin u) (Fin (- 1)) (Fin 1) = Fin ?c" by (simp add: f64_clamp_def cmp_of_def clip_def)
  have "of_int ?k / 20 = clip ?x"
    by (auto simp: exact_step_def clip_def field_simps of_int_less_iff simp flip: of_int_add)
  then have c: "\<bar>?c - of_int ?k / 20\<bar> \<le> 3 / 10000" "\<bar>?c\<bar> \<le> 1" using clip_near(1) [OF sum] clip_near(2) [of u] by simp_all
  obtain m where m: "round64 (?c * 100) = Fin m" "\<bar>m - ?c * 100\<bar> \<le> 1 / 10000"
    by (rule rounded_close [of "?c * 100"]) (use c(2) in linarith)
  have "\<bar>m - of_int (5 * ?k)\<bar> < 1 / 2" using m(2) c(1) unfolding abs_le_iff abs_less_iff of_int_mult of_int_numeral by linarith
  note rounded = round_to_int [OF this]
  have "clamp_score (f64_add (score_of k) (delta r)) = f64_div (Fin (of_int (5 * ?k))) (Fin 100)"
    using clamp rounded m(1) u(1) v(1) w(1) by (simp only: clamp_score_def f64_add.simps f64_mul.simps)
  also have "\<dots> = score_of ?k" by (simp add: score_of_def)
  finally show ?thesis .
qed

lemma exact_steps_bounded: "\<bar>k\<bar> \<le> 20 \<Longrightarrow> \<bar>fold exact_step rs k\<bar> \<le> 20"
proof (induction rs arbitrary: k)
  case (Cons r rs)
  have "\<bar>exact_step r k\<bar> \<le> 20" by (simp add: exact_step_def)
  from Cons.IH [OF this] show ?case by simp
qed simp

lemma score_at_bottom:
  assumes "\<bar>k\<bar> \<le> 20"
  shows "partial_cmp (score_of k) (Fin (- 1)) = Some (if k = - 20 then Equal else Greater)"
proof (cases "k = - 20")
  case True
  have "quotient_of 1 = (1, 1)" using quotient_of_int [of 1] by (simp add: of_int_def)
  then have "exponent 1 = 0" by (simp add: exponent_def ilog.simps two_power_def)
  then have "score_of (- 20) = Fin (- 1)" by (simp add: score_of_def round64_def two_power_def round_half_even_def)
  then show ?thesis using True by (simp add: cmp_of_def)
next
  case False
  then have "- 19 \<le> k" using assms by linarith
  then have "- (19 / 20) \<le> (of_int k / 20 :: rat)" "(of_int k / 20 :: rat) \<le> 1" using assms by (simp_all add: abs_le_iff)
  moreover obtain v where v: "score_of k = Fin v" "\<bar>v - of_int k / 20\<bar> \<le> 1 / 10000"
    unfolding score_of_def by (rule rounded_close [of "of_int k / 20"]) (use calculation in linarith)
  ultimately have "- 1 < v" unfolding abs_le_iff by linarith
  then show ?thesis using v(1) False by (simp add: cmp_of_def)
qed

text \<open>The ledger after a history of updates.\<close>

definition run_updates :: "(trust_key \<times> reinforcement) list \<Rightarrow> trust_ledger" where
  "run_updates updates = fold (\<lambda>(key, r) L. snd (apply_reinforcement L key r)) updates \<lparr>tl_entries = Map.empty\<rparr>"

definition history_of :: "trust_key \<Rightarrow> (trust_key \<times> reinforcement) list \<Rightarrow> reinforcement list" where
  "history_of key updates = map snd (filter (\<lambda>u. fst u = key) updates)"

definition strong_count :: "reinforcement list \<Rightarrow> nat" where
  "strong_count rs = min (length (filter is_strong_negative rs)) (2 ^ 32 - 1)"

lemma entry_after:
  "tl_entries (run_updates updates) key =
     (let rs = history_of key updates in
      if rs = [] then None
      else Some \<lparr>en_score = score_of (fold exact_step rs 0), en_strong_negative_count = strong_count rs\<rparr>)"
proof (induction updates rule: rev_induct)
  case Nil
  then show ?case by (simp add: run_updates_def history_of_def)
next
  case (snoc u updates)
  obtain k r where u: "u = (k, r)" by (cases u)
  have run: "run_updates (updates @ [u]) = snd (apply_reinforcement (run_updates updates) k r)" by (simp add: run_updates_def u)
  have history: "history_of key (updates @ [u]) = history_of key updates @ (if k = key then [r] else [])"
    by (simp add: history_of_def u)
  show ?case
  proof (cases "k = key")
    case True
    let ?rs = "history_of key updates"
    have zero: "score_of 0 = Fin 0" by (simp add: score_of_def round64_def)
    have "clamp_score (f64_add (score_of (fold exact_step ?rs 0)) (delta r)) = score_of (fold exact_step (?rs @ [r]) 0)"
      using step_exact [OF exact_steps_bounded [of 0 ?rs]] by simp
    then show ?thesis
      using snoc True zero
      by (cases "?rs = []")
        (auto simp: run history apply_reinforcement_def Let_def default_entry_def strong_count_def u32_saturating_inc_def)
  next
    case False
    then show ?thesis using snoc by (simp add: run history apply_reinforcement_def Let_def)
  qed
qed

section \<open>Properties\<close>

text \<open>C32. The floating-point trust ledger is exact: after any history of updates the score of a key is the double nearest to
  the exact score, counted in twentieths and clamped to the unit interval after every step, of the updates of that key
  alone, so no rounding error accumulates and no update leaks into another remote, namespace or scope. A key is reported
  as not trusted exactly after two strong negatives or at the lowest score, by the update that got it there and by the
  ledger afterwards.\<close>

theorem trust_ledger_is_exact:
  "let rs = history_of key updates; k = fold exact_step rs 0; L = run_updates updates in
    trust_score L key = score_of k \<and> \<bar>k\<bar> \<le> 20 \<and>
    (not_trusted_for_fact fact_id now L key \<noteq> None) = (2 \<le> length (filter is_strong_negative rs) \<or> k = - 20) \<and>
    (let (update, L') = apply_reinforcement L key r in
       tu_score update = trust_score L' key \<and>
       tu_derived_not_trusted_for update = (not_trusted_for_fact fact_id now L' key \<noteq> None))"
proof -
  let ?rs = "history_of key updates" and ?L = "run_updates updates"
  let ?k = "fold exact_step ?rs 0" and ?k' = "fold exact_step (?rs @ [r]) 0"
  have k: "\<bar>?k\<bar> \<le> 20" "\<bar>?k'\<bar> \<le> 20" by (rule exact_steps_bounded, simp)+
  have zero: "score_of 0 = Fin 0" by (simp add: score_of_def round64_def)
  have two: "2 \<le> strong_count rs \<longleftrightarrow> 2 \<le> length (filter is_strong_negative rs)" for rs by (simp add: strong_count_def)
  have now: "(not_trusted_for_fact fact_id now ?L key \<noteq> None) = (2 \<le> length (filter is_strong_negative ?rs) \<or> ?k = - 20)"
    using score_at_bottom [OF k(1)] two [of ?rs]
    by (cases "?rs = []") (auto simp: not_trusted_for_fact_def entry_after Let_def)
  have "run_updates (updates @ [(key, r)]) = snd (apply_reinforcement ?L key r)" by (simp add: run_updates_def)
  moreover have "history_of key (updates @ [(key, r)]) = ?rs @ [r]" by (simp add: history_of_def)
  ultimately have entry: "tl_entries (snd (apply_reinforcement ?L key r)) key =
      Some \<lparr>en_score = score_of ?k', en_strong_negative_count = strong_count (?rs @ [r])\<rparr>"
    using entry_after [of "updates @ [(key, r)]" key] by simp
  obtain update L' where step: "apply_reinforcement ?L key r = (update, L')" by (cases "apply_reinforcement ?L key r")
  then have "tu_score update = score_of ?k'" "tu_strong_negative_count update = strong_count (?rs @ [r])"
    "tu_derived_not_trusted_for update \<longleftrightarrow> 2 \<le> tu_strong_negative_count update \<or> partial_cmp (tu_score update) (Fin (- 1)) \<in> {Some Less, Some Equal}"
    using entry by (auto simp: apply_reinforcement_def Let_def)
  then have "tu_score update = trust_score L' key"
    "tu_derived_not_trusted_for update = (not_trusted_for_fact fact_id now L' key \<noteq> None)"
    using entry step score_at_bottom [OF k(2)] by (auto simp: trust_score_def not_trusted_for_fact_def)
  then show ?thesis using now k(1) step zero by (auto simp: trust_score_def entry_after Let_def)
qed

text \<open>Only a stop token halts the chain, and it wins over every other word of the text.\<close>

lemma halts_on_stop:
  "fs_halt_current_chain (classify env text) \<longleftrightarrow> ''stop'' \<in> set (feedback_tokens env (lowercase_of env (trim text)))"
  by (simp add: classify_def Let_def)

end
