(* ===== verification/Aggregate_Grouping.thy ===== *)
theory Aggregate_Grouping
  imports Rule_Parser
begin

text \<open>
  Aggregates of parsed rules. \<open>parse_aggregate\<close> chooses the variables an aggregate groups by, and \<open>apply_aggregate\<close> folds once per
  group, for the first candidate of it. Here the two are put together: under a condition on the names in the rule, every
  candidate gets the value folded over its own matches; an example shows that the condition cannot be dropped.
\<close>

section \<open>Body atoms named like an aggregate\<close>











section \<open>Candidates that bind the same names\<close>



section \<open>Every candidate folds its own matches\<close>

text \<open>What one candidate gets if nothing is shared: each aggregate in turn folds over the matches of this candidate; \<open>Some None\<close> if
  one of them has no value.\<close>

fun own_values :: "'x datalog_env_scheme \<Rightarrow> fact_set \<Rightarrow> aggregate list \<Rightarrow> binding \<Rightarrow> binding option outcome" where
  "own_values env F [] b = Some (Some b)"
| "own_values env F (agg # rest) b =
     (case fold_inner_matches env agg b F of
        None \<Rightarrow> None
      | Some None \<Rightarrow> Some None
      | Some (Some v) \<Rightarrow> own_values env F rest (b(ag_output_var agg \<mapsto> v)))"


section \<open>Where the candidates come from\<close>









section \<open>Properties\<close>







text \<open>Two visits of one customer are two candidates of one group.\<close>

definition shop :: fact_set where
  "shop = \<lparr>fs_facts =
     [(''visit'', [[ConstStr ''ann'', ConstStr ''mon''], [ConstStr ''ann'', ConstStr ''tue''], [ConstStr ''bob'', ConstStr ''tue'']]),
      (''sale'', [[ConstStr ''ann'', ConstStr ''pear''], [ConstStr ''ann'', ConstStr ''fig''], [ConstStr ''bob'', ConstStr ''kiwi'']]),
      (''likes'', [[ConstStr ''ann'', ConstStr ''pear''], [ConstStr ''ann'', ConstStr ''fig'']])]\<rparr>"






text \<open>The condition is needed: the parser accepts a rule whose folded variable is bound by the body as well. Its two candidates
  share a group although each has its own value, and both get the value of the first one.\<close>

definition likes_rule :: datalog_rule where
  "likes_rule =
     \<lparr>dr_head = \<lparr>at_predicate = ''low'', at_args = [Var ''X'', Var ''V'', Var ''N'']\<rparr>,
      dr_body = [\<lparr>at_predicate = ''likes'', at_args = [Var ''X'', Var ''V'']\<rparr>], dr_filters = [],
      dr_aggregates = [sale_aggregate Min], dr_negated = [], dr_head_exprs = [], dr_bindings = []\<rparr>"

lemma shared_value_merges_groups:
  "parse_rule no_uuids ''low(X, V, N) :- likes(X, V), min(sale(X, V), V, N).'' = Some (Ok likes_rule)"
  "map_option (map fst) (evaluate_rule plain_env likes_rule shop) =
     Some [[ConstStr ''ann'', ConstStr ''pear'', ConstStr ''pear''], [ConstStr ''ann'', ConstStr ''fig'', ConstStr ''pear'']]"
  "own_values plain_env shop (dr_aggregates likes_rule) [''X'' \<mapsto> ConstStr ''ann'', ''V'' \<mapsto> ConstStr ''fig''] =
     Some (Some [''X'' \<mapsto> ConstStr ''ann'', ''V'' \<mapsto> ConstStr ''fig'', ''N'' \<mapsto> ConstStr ''fig''])"
    apply code_simp
   apply code_simp
  by (simp add: likes_rule_def sale_aggregate_def fold_inner_matches_enumerates inner_atoms_def sale_atom_def shop_def fs_get_def is_anon_def
      absorb_def value_of_def)

end
