(* ===== verification/Spec2Isabelle.thy ===== *)
theory Spec2Isabelle
  imports Sample_Env Device_Key Query_Sample Skill_Import Trust_Ledger Aggregate_Grouping
begin

text \<open>
  \<^bold>\<open>Ferrosa memory: peer-to-peer knowledge packs, the rule engine and remote teaching.\<close>

  Ferrosa-memory is a memory service for agents. Three of its parts carry logic of their own that does not live in a
  database or in a network library, and this development models them.

  \<^bold>\<open>1. Knowledge packs between peers\<close> (\<open>crates/ferrosa-memory-sync/src\<close>, \<open>crates/ferrosa-memory-core/src\<close>).
  A teacher selects rows (\<open>replication.rs\<close>), builds a versioned pack (\<open>pack.rs\<close>), seals it chunk by chunk for one
  learner (\<open>pack_crypto.rs\<close>), cuts it into wire chunks and sends framed chunks over a data channel
  (\<open>peer_transport.rs\<close>, \<open>peer_transport_webrtc.rs\<close>). The learner reassembles the frames within limits, opens and
  validates the pack, cross-checks it against what the channel attests, and publishes it by stage and flip
  (\<open>learner_ingest.rs\<close>) into a directory with a version ledger (\<open>peer_cli.rs\<close>).

  \<^item> \<open>Prelude\<close>: results with the question-mark operator (an error is the left summand), first-error loops, machine words
    and their byte encodings, chunking of lists.
  \<^item> \<open>Memory_Types\<close>: the rows a pack carries (\<open>types.rs\<close>, \<open>remotes/types.rs\<close>).
  \<^item> \<open>Remote_Identity\<close> (\<open>remote_identity.rs\<close>): canonical JSON, hashes, fingerprints, signed envelopes.
    \<open>Device_Key\<close> (\<open>peer_cli.rs\<close>): the key file codec.
  \<^item> \<open>Pack\<close>, \<open>Pack_Crypto\<close>, \<open>Replication\<close>: manifest and validation, sealing and opening, selection and building. Each
    function of the source is one definition; \<open>seal_pack\<close> and \<open>open_pack\<close> also return the process-wide downgrade counter.
  \<^item> \<open>Learner_Ingest\<close>: \<open>ingest_pack\<close> over the trait \<open>PackApplyStore\<close>, here the record \<open>apply_store_ops\<close> with the locale
    \<open>pack_apply_store\<close> for what the ingest path relies on. \<open>Dir_Store\<close> models the directory store over a file system in
    which any call may fail and interprets the locale on it.
  \<^item> \<open>Peer_Frame\<close>, \<open>Chunk_Assembler\<close>, \<open>Peer_Transport\<close>: framing, bounded reassembly, and the sender over the trait
    \<open>DataChannel\<close> (record \<open>channel_ops\<close>, locale \<open>data_channel\<close>, interpreted on the WebRTC binding). A send future that is
    dropped is a step of its own, so the runs of the transport include cancellation at the wait.
  \<^item> \<open>Pack_Receiver\<close>, \<open>Delivery\<close>, \<open>Sample_Env\<close>: the inbound receiver with its health counters, the composition of the
    whole path, and the concrete instance on which witnesses evaluate it.

  The theorems of this part: delivery end to end in any arrival order, with what the published unit holds (the staged unit of
  the source has no field for teaching items, so they are not in it), that no message sequence loses history or exceeds
  the limits, that the cipher floor refuses exactly above the strength of the shipped suites, that nothing unverified is published and nothing is published by a failed ingest, round trips of sealing,
  framing, signing and the key file, exactness of validation and of the builder, and the accounting of the transport.

  \<^bold>\<open>2. The rule engine\<close> (\<open>crates/ferrosa-memory-core/src/datalog.rs\<close> and its data in \<open>types.rs\<close>). Rules with negation,
  filters, aggregates, computed arguments and the clock are evaluated bottom up over the facts of a session.

  \<^item> \<open>Float64\<close>: binary64 arithmetic, exact up to the sign of zero. \<open>Datalog_Types\<close>: terms, rules, fact sets, derived facts.
  \<^item> \<open>Datalog_Filter\<close> (\<open>eval_expr\<close>, \<open>eval_call\<close>, \<open>eval_filter\<close>), \<open>Datalog_Clock\<close> (\<open>stamp_clock\<close>),
    \<open>Datalog_Match\<close> (\<open>try_unify\<close>, \<open>collect_bindings\<close>, negation), \<open>Datalog_Aggregate\<close> (the folds and
    \<open>evaluate_rule_with_aggregates\<close>).
  \<^item> \<open>Datalog_Fixpoint\<close> (\<open>evaluate_stratum\<close>) with the declarative least model of a stratum that it refines.
  \<^item> \<open>Stratify\<close>, \<open>Stratify_Tarjan\<close>, \<open>Stratify_Levels\<close> (\<open>stratify\<close>): the dependency graph, the iterative component search
    with its explicit work stack, and the strata; the invariant of the search, and what the returned strata guarantee.
  \<^item> \<open>Datalog_Evaluate\<close> (\<open>evaluate_at\<close>, \<open>evaluate\<close>): the strata in order, against the stratified model.
  \<^item> \<open>Rule_Text\<close> (\<open>split_top_level\<close>, the scanners, \<open>expand_disjunction\<close>) and \<open>Rule_Parser\<close> (\<open>parse_head\<close>, \<open>parse_atom\<close>,
    \<open>parse_aggregate\<close>, \<open>parse_rule\<close>, \<open>parse_rules\<close>): from rule text to checked rules. \<open>Aggregate_Grouping\<close>: the grouping variables
    that \<open>parse_aggregate\<close> chooses together with the grouping that \<open>apply_aggregate\<close> does by them.
  \<^item> \<open>Query_Store\<close>: the storage operations a query calls, the record \<open>query_store_ops\<close> with the locales \<open>query_store\<close> and
    \<open>reliable_store\<close> (\<open>Datalog_Query\<close>), both interpreted on the in-memory store of \<open>storage.rs\<close>.
  \<^item> \<open>Datalog_Query\<close> (\<open>load_session_facts\<close>, the built-in rules, \<open>load_effective_rules\<close>, \<open>query_predicate\<close>): a query from
    stored rows to its answer, with the cache of derived facts. \<open>Query_Sample\<close>: the concrete session its witnesses run.
  The theorems of this part: filters are Kleene logic with poisoning errors; the join is the declarative reading of a rule;
  sharing the folds of a group gives every candidate of a parsed rule the value over its own matches, under a condition on
  the names in the rule that a counterexample shows to be needed; extremes and distinct counts are exact; the analyzer never panics, its strata respect every dependency and
  its rejections name an offending one; the loop of a stratum refines the least model; the whole evaluation stays inside
  the stratified model whatever the budgets and reaches it when they suffice (the model is that of rules without aggregates,
  and reaching it also takes rules without computed values); rules that the parser accepts are safe; an
  answer that does not come from the cache is in the stratified model of the session, and an answer that rests on an
  absence is never served from the cache. A lemma shows the other side: such an answer is missing from a repeated query
  whose other answers were cached.

  \<^bold>\<open>3. Remote teaching\<close> (\<open>crates/ferrosa-memory-core/src/remotes\<close>). A learner pulls signed teaching packets from a remote.
  A policy, a list of facts with rules that the engine of part 2 evaluates, says what the remote may do; each item is
  checked for risks and against local memories, planned in a preview and written by a commit.

  \<^item> \<open>Remote_Text\<close>: the string functions of the classifiers. \<open>Remote_Safety\<close> (\<open>safety.rs\<close>, \<open>applicability.rs\<close>): the safety
    classifier, the extraction of applicability frames and their comparison, with lemmas on the exact risk and flags, the
    symmetry of the comparison and when no review is needed.
  \<^item> \<open>Remote_Policy\<close> (\<open>policy.rs\<close>): facts, the five rule texts, the decisions with reasons and explanations. Its lemmas run
    the parser of part 2 on the texts. \<open>Policy_Decisions\<close>: what each decision comes to.
  \<^item> \<open>Trust_Ledger\<close> (\<open>feedback.rs\<close>): classification of feedback and the floating-point trust scores, against exact
    arithmetic.
  \<^item> \<open>Remote_Pull\<close> (\<open>pull.rs\<close>): preview and commit over the record \<open>pull_store_ops\<close> with the locale \<open>pull_store\<close>, interpreted
    on the in-memory store of \<open>storage.rs\<close>. \<open>Skill_Import\<close> (\<open>skills.rs\<close>): the same for skills.
  The theorems of this part: the decisions are the declarative reading of the policy; every entity, fact and provenance row
  that a committed preview adds comes from a signed, safe and authorised item, and a commit writes exactly its plan; skills become active only under the rules
  for them; no rounding error accumulates in the trust ledger. Lemmas after them state what a commit does not check.

  \<^bold>\<open>Conventions.\<close> A panic of the source is \<open>None\<close> of the type \<open>outcome\<close>; a returned error is \<open>Inl\<close>. A string is its
  UTF-8 bytes. A hash map or hash set is an association list without duplicates in insertion order: the source leaves the
  order open, and the theorems speak of sets of facts, so none rests on it beyond the order of a result list. The clock,
  random salts and nonce bases are arguments. An instant is an unbounded integer: where the source adds a time to live to the
  clock (\<open>pull_preview\<close>, \<open>skill_pull_preview\<close>), chrono's panic outside its range of some 260000 years is left out. Of the
  configuration of the rule engine, the record keeps the fields that \<open>query_predicate\<close> reads. The theorems on queries and
  pulls are stated over the in-memory store of \<open>storage.rs\<close> (module \<open>mock\<close>), the implementation of the storage trait whose
  code is here, and not over the CQL backend; what the clients rely on is proved in the locales for any store with their laws.

  \<^bold>\<open>Parameters.\<close> Third-party code is a field of an environment record: HKDF, the AEAD, SHA-256, Ed25519 and serde
  (\<open>crypto_env\<close>, \<open>wire_env\<close>), \<open>powf\<close>, case mapping, chrono and number and identifier printing (\<open>datalog_env\<close>), and the
  productions of the filter grammar, which are combinators of the nom library, with \<open>Uuid::parse_str\<close> (\<open>parser_env\<close>);
  Unicode lower case and character classes (\<open>unicode_env\<close>) and the serde forms of packets (\<open>pull_env\<close>, \<open>skill_env\<close>). What a
  theorem needs of them is a named hypothesis that states documented behaviour: \<open>aead_correct\<close> (what was encrypted decrypts
  under the same key, nonce and associated data), \<open>payload_roundtrips\<close> (serde reads back what it wrote), \<open>uuid_texts_long\<close> (no
  text shorter than the shortest form of an identifier is parsed as one) and the like.

  \<^bold>\<open>Termination and bounds.\<close> Every definition is total. The evaluator's loops carry the source's own budgets
  (\<open>max_iterations\<close>, \<open>max_facts\<close>) as their fuel, and \<open>evaluate_reaches_the_model\<close> says how much is enough; the component
  search terminates by a measure on unvisited nodes and remaining work; the backpressure wait by its cap.

  \<^bold>\<open>Not modelled.\<close> The productions of the filter grammar (above); the signaling client, the peer session
  and the coordinator client, which drive websockets and third-party protocol stacks; the dispatch layer and the CQL
  backend, which are request routing and statements of an external database; retrieval, enrichment and ingestion, which
  call embedding and language-model services; the building of teaching packets, archives and detail fetches of
  remote teaching (\<open>teach.rs\<close>, \<open>archive.rs\<close>, \<open>detail.rs\<close>); the evaluation harness and the command-line programs.
\<close>

section \<open>From a teacher's selection to a learner's store\<close>

text \<open>C1. End-to-end delivery. A selection that the teacher built and sealed for a pair of peers, and that was
  sent over an open WebRTC transport, reaches the learner's directory even if the network reorders its messages: the
  ledger records the version, and the directory shows the entities of the selection, its edges and events between them,
  its folds (without raw trajectories in summary-first mode), its provenance rows stamped with the attested remote, and
  its expiry; one more pack is counted as applied and no frame as rejected. The teaching items of the selection are not
  part of what is published: the unit the learner stages has no field for them.\<close>

theorem pack_delivered:
  assumes "aead_correct env" and "payload_roundtrips env (fst (select_payload sel params))"
    and "pack_ref_from_slice env (concat cs) = Ok ref"
    and "build_and_seal env salt nb blocked sel params ikm sz flr = (Ok (ref, report), blocked')"
    and "binds_fingerprints params (ca_attested_teacher (pr_attestation recv)) (ca_attested_learner (pr_attestation recv))"
    and "pack_ref_to_wire_chunks env ref mx = Ok cs"
    and "send_pack_ref env rtc_ops t ref mx = (Ok (), t')" and "rc_sent (pt_channel t) = []"
    and "mset raws = mset (rc_sent (pt_channel t'))"
    and "pr_assembler recv = new_assembler (pr_limits recv)" and "pr_ikm recv = ikm" and "pr_floor recv = flr"
    and "healthy (pr_store recv)"
    and "\<And>a. ledger (pr_store recv) (bp_pack_id params) = Some a \<Longrightarrow> a < bp_pack_version params"
    and "0 < length cs" and "length cs < 2 ^ 32" and "length cs \<le> unat (al_max_chunks (pr_limits recv))"
    and "mx \<le> al_max_frame_payload (pr_limits recv)" and "mx \<le> pr_max_frame_payload recv"
    and "pr_max_frame_payload recv < 2 ^ 32"
    and "sum_list (map length cs) \<le> al_max_total_bytes (pr_limits recv)"
    and "al_max_total_bytes (pr_limits recv) < usize_max"
  shows "let recv' = handle_all env dir_ops recv raws; att = pr_attestation recv;
      inside = (\<lambda>i. i \<in> ee_entity_id ` set (ts_entities sel)) in
    ledger (pr_store recv') = (ledger (pr_store recv))(bp_pack_id params \<mapsto> bp_pack_version params) \<and>
    applied (pr_store recv') (bp_pack_id params) (bp_pack_version params) =
      Some \<lparr>sp_pack_id = bp_pack_id params, sp_pack_version = bp_pack_version params, sp_entities = ts_entities sel,
        sp_folds = map (\<lambda>f. if bp_summary_first params then f\<lparr>fe_raw_trajectory := []\<rparr> else f) (ts_folds sel),
        sp_temporal = filter (\<lambda>t. inside (te_entity_id t)) (ts_temporal sel),
        sp_edges = filter (\<lambda>e. inside (ed_src_id e) \<and> inside (ed_dst_id e)) (ts_edges sel),
        sp_provenance = map (\<lambda>p. p\<lparr>mp_remote_id := ca_remote_id att\<rparr>) (ts_provenance_rows sel),
        sp_ttl_expires_at = bp_ttl_expires_at params, sp_remote_id = ca_remote_id att\<rparr> \<and>
    rh_packs_applied (pr_health recv') = rh_packs_applied (pr_health recv) + 1 \<and>
    rh_frames_rejected (pr_health recv') = rh_frames_rejected (pr_health recv)"
  using delivered_pack [OF assms] by (simp add: Let_def seen_frames_def emitted_unit [OF assms(4)])

theorem pack_delivered_witness:
  "let recv' = handle_all sample_env dir_ops sample_receiver [sample_frame_1, sample_frame_0] in
    ledger (pr_store recv') 77 = Some 4 \<and>
    (\<exists>staged. applied (pr_store recv') 77 4 = Some staged \<and> sp_entities staged = [sample_entity] \<and> sp_edges staged = [sample_edge 5] \<and>
      map mp_remote_id (sp_provenance staged) = [ca_remote_id sample_attestation]) \<and>
    rh_packs_applied (pr_health recv') = 1 \<and> rh_frames_rejected (pr_health recv') = 0"
proof -
  have serde: "payload_roundtrips sample_env (fst (select_payload sample_selection sample_params))"
    by (simp add: sample_select sample_serde)
  have json: "pack_ref_from_slice sample_env (concat [[1, 2, 3], [4, 5]]) = Ok sample_ref" by (simp add: sample_env_def)
  have recv: "binds_fingerprints sample_params (ca_attested_teacher (pr_attestation sample_receiver))
      (ca_attested_learner (pr_attestation sample_receiver))"
    "pr_assembler sample_receiver = new_assembler (pr_limits sample_receiver)" "pr_ikm sample_receiver = sample_ikm"
    "pr_floor sample_receiver = default_cipher_floor" "pr_attestation sample_receiver = sample_attestation"
    "rh_packs_applied (pr_health sample_receiver) = 0" "rh_frames_rejected (pr_health sample_receiver) = 0"
    using sample_peers by (simp_all add: sample_receiver_def new_receiver_def sample_attestation_def health_default_def)
  have sel: "bp_pack_id sample_params = 77" "bp_pack_version sample_params = 4" "ts_entities sample_selection = [sample_entity]"
    "ts_edges sample_selection = [sample_edge 5, sample_edge 6]" "ts_provenance_rows sample_selection = [sample_provenance_row 99]"
    by (simp_all add: sample_params_def sample_selection_def)
  have edges: "ed_src_id (sample_edge n) = ee_entity_id sample_entity" "ed_dst_id (sample_edge n) = n" "ee_entity_id sample_entity = 5" for n
    by (simp_all add: sample_edge_def sample_entity_def)
  have rest: "healthy (pr_store sample_receiver)" "0 < length [[1, 2, 3], [4, 5 :: u8]]" "length [[1, 2, 3], [4, 5 :: u8]] < 2 ^ 32"
    "length [[1, 2, 3], [4, 5 :: u8]] \<le> unat (al_max_chunks (pr_limits sample_receiver))"
    "3 \<le> al_max_frame_payload (pr_limits sample_receiver)" "3 \<le> pr_max_frame_payload sample_receiver"
    "pr_max_frame_payload sample_receiver < 2 ^ 32"
    "sum_list (map length [[1, 2, 3], [4, 5 :: u8]]) \<le> al_max_total_bytes (pr_limits sample_receiver)"
    "al_max_total_bytes (pr_limits sample_receiver) < usize_max"
    by (simp_all add: sample_receiver_def new_receiver_def sample_store_def sample_limits_def healthy_def usize_max_def)
  have "ledger (pr_store sample_receiver) p = None" for p
    by (simp add: sample_receiver_def new_receiver_def sample_store_def ledger_def)
  then have new: "\<And>a. ledger (pr_store sample_receiver) (bp_pack_id sample_params) = Some a \<Longrightarrow> a < bp_pack_version sample_params" by simp
  have sent: "rc_sent (pt_channel sample_transport) = []" by (simp add: sample_transport_def)
  from pack_delivered [where raws = "[sample_frame_1, sample_frame_0]",
      OF sample_aead serde json sample_emitted recv(1) sample_chunks sample_sent sent _ recv(2,3,4) rest(1) new rest(2-9)]
  show ?thesis by (auto simp: Let_def sel edges recv(5-7))
qed

text \<open>C2. Whatever messages arrive, hostile or not: a version recorded in the learner's ledger never goes
  back, and a pack published at or below it never changes.\<close>

theorem receiver_keeps_history:
  assumes "ledger (pr_store recv) p = Some a"
  shows "(\<exists>a'. ledger (pr_store (handle_all env dir_ops recv raws)) p = Some a' \<and> a \<le> a') \<and>
    (\<forall>v \<le> a. applied (pr_store (handle_all env dir_ops recv raws)) p v = applied (pr_store recv) p v)"
proof -
  from handle_all_store [of env dir_ops recv raws] obtain refs where
    "ingest_all env dir_ops (pr_blocked recv) (pr_store recv) (own_requests recv refs) =
      (pr_store (handle_all env dir_ops recv raws), pr_blocked (handle_all env dir_ops recv raws))" by metis
  from dir.ingest_all_history [OF this assms] show ?thesis .
qed

theorem receiver_keeps_history_witness:
  "\<exists>a'. ledger (pr_store (handle_all sample_env dir_ops
      (sample_receiver\<lparr>pr_store := \<lparr>ds_files = [VersionsPath \<mapsto> VersionsJson [77 \<mapsto> 9]], ds_faults = []\<rparr>\<rparr>)
      [sample_frame_0, [1, 2, 3], sample_frame_1])) 77 = Some a' \<and> 9 \<le> a'"
  by (rule receiver_keeps_history [THEN conjunct1]) (simp add: ledger_def)

text \<open>The receiver's memory is bounded at every moment: whatever messages arrived, the assembler holds
  no more chunks and no more bytes than its limits.\<close>

theorem receiver_bounded:
  assumes "al_max_total_bytes limits < usize_max"
  shows "let asm = pr_assembler (handle_all env ops (new_receiver store ikm att flr limits mx blocked) raws) in
    received_count asm \<le> unat (al_max_chunks limits) \<and>
    sum_list (map (length \<circ> snd) (ca_received asm)) \<le> al_max_total_bytes limits"
proof -
  let ?recv' = "handle_all env ops (new_receiver store ikm att flr limits mx blocked) raws"
  have "recv_inv ?recv' \<and> pr_limits ?recv' = limits"
    using handle_all_inv [of "new_receiver store ikm att flr limits mx blocked" env ops raws] assms
    by (simp add: new_receiver_inv)
  then have "asm_inv (pr_assembler ?recv') \<and> ca_limits (pr_assembler ?recv') = limits"
    by (simp add: recv_inv_def)
  then show ?thesis using asm_inv_count [of "pr_assembler ?recv'"] by (auto simp: Let_def asm_inv_def)
qed

theorem receiver_bounded_witness:
  "let asm = pr_assembler (handle_all sample_env dir_ops (new_receiver sample_store sample_ikm sample_attestation
       default_cipher_floor sample_limits 3 0) [sample_frame_0, [1, 2]]) in
    received_count asm \<le> unat (al_max_chunks sample_limits) \<and>
    sum_list (map (length \<circ> snd) (ca_received asm)) \<le> al_max_total_bytes sample_limits"
  by (rule receiver_bounded) (simp add: sample_limits_def usize_max_def)

section \<open>Ingest\<close>

text \<open>C3. An ingest that reports a pack as newly applied has published exactly the verified pack: it decrypted,
  it is well formed, it names the peers the channel attests, it is newer than what the ledger held, its rows carry
  the attested remote, and nothing else in the directory changed.\<close>

theorem ingest_publishes_verified:
  assumes "ingest_pack env dir_ops b d ref ikm att flr = (Ok out, d', b')" "\<not> io_idempotent_noop out"
  shows "\<exists>pack. let sp = build_staged pack att; m = kp_manifest pack in
    fst (open_pack env b ref ikm (ca_attested_teacher att) (ca_attested_learner att) flr) = Ok pack \<and>
    pack_well_formed env pack \<and>
    ppe_teacher_fingerprint (pm_provenance m) = ca_attested_teacher att \<and>
    ppe_learner_fingerprint (pm_provenance m) = ca_attested_learner att \<and>
    (\<forall>a. ledger d (pm_pack_id m) = Some a \<longrightarrow> a < pm_pack_version m) \<and>
    (\<forall>row \<in> set (sp_provenance sp). mp_remote_id row = ca_remote_id att) \<and>
    ledger d' = (ledger d)(pm_pack_id m \<mapsto> pm_pack_version m) \<and>
    applied d' = (applied d)(pm_pack_id m := (applied d (pm_pack_id m))(pm_pack_version m \<mapsto> sp))"
  using assms
proof (rule dir.ingest_applied)
  fix pack sp
  assume ver: "verify_pack_ref env b ref ikm att flr = (Inr pack :: peer_cli_error ingest_error + knowledge_pack, b')"
    and sp: "sp = build_staged pack att"
    and rest: "\<And>a. ledger d (sp_pack_id sp) = Some a \<Longrightarrow> a < sp_pack_version sp"
      "ledger d' = (ledger d)(sp_pack_id sp \<mapsto> sp_pack_version sp)"
      "applied d' = (applied d)(sp_pack_id sp := (applied d (sp_pack_id sp))(sp_pack_version sp \<mapsto> sp))"
  have "fst (open_pack env b ref ikm (ca_attested_teacher att) (ca_attested_learner att) flr) = Ok pack"
    "pack_well_formed env pack"
    "ppe_teacher_fingerprint (pm_provenance (kp_manifest pack)) = ca_attested_teacher att"
    "ppe_learner_fingerprint (pm_provenance (kp_manifest pack)) = ca_attested_learner att"
    using ver by (auto simp: verify_pack_ref_def validate_Ok_iff check_attestation_def split: prod.splits if_splits)
  moreover have "\<forall>row \<in> set (sp_provenance sp). mp_remote_id row = ca_remote_id att"
    "sp_pack_id sp = pm_pack_id (kp_manifest pack)" "sp_pack_version sp = pm_pack_version (kp_manifest pack)"
    by (auto simp: sp build_staged_def)
  ultimately show ?thesis using rest sp by (intro exI [of _ pack]) (simp add: Let_def)
qed

theorem ingest_publishes_verified_witness:
  "\<exists>out d' pack. ingest_pack sample_env dir_ops 0 sample_store sample_ref sample_ikm sample_attestation
      default_cipher_floor = (Ok out, d', 0) \<and> \<not> io_idempotent_noop out \<and>
    fst (open_pack sample_env 0 sample_ref sample_ikm (ca_attested_teacher sample_attestation)
      (ca_attested_learner sample_attestation) default_cipher_floor) = Ok pack \<and>
    ledger d' = (ledger sample_store)(pm_pack_id (kp_manifest pack) \<mapsto> pm_pack_version (kp_manifest pack))"
proof -
  obtain d' where i: "ingest_pack sample_env dir_ops 0 sample_store sample_ref sample_ikm sample_attestation
      default_cipher_floor = (Ok (applied_outcome (build_staged sample_pack sample_attestation)), d', 0)"
    using sample_ingested by blast
  have n: "\<not> io_idempotent_noop (applied_outcome (build_staged sample_pack sample_attestation))"
    by (simp add: applied_outcome_def)
  from ingest_publishes_verified [OF i n] i n show ?thesis by (auto simp: Let_def)
qed

text \<open>C4. An ingest that fails in any way but the final flip leaves the ledger and every visible pack as they were.\<close>

theorem failed_ingest_changes_nothing:
  assumes "ingest_pack env dir_ops b d ref ikm att flr = (Err e, d', b')" "\<And>f. e \<noteq> FlipFailed f"
  shows "ledger d' = ledger d \<and> applied d' = applied d"
  using assms by (rule dir.ingest_rejected)

theorem failed_ingest_changes_nothing_witness:
  "let d = \<lparr>ds_files = [VersionsPath \<mapsto> VersionsJson [77 \<mapsto> 9]], ds_faults = []\<rparr> in
   fst (ingest_pack sample_env dir_ops 0 d sample_ref sample_ikm sample_attestation default_cipher_floor) =
     Err (ReplayRejected 77 4 9) \<and> ledger d 77 = Some 9"
  using failed_ingest_changes_nothing [OF sample_replayed] by (simp add: sample_replayed ledger_def)

text \<open>C5. Re-ingesting a pack that was just accepted is reported as a no-op and changes nothing at all.\<close>

theorem reingest_is_noop:
  assumes "ingest_pack env dir_ops b d ref ikm att flr = (Ok out, d', b')" "ds_faults d' = []"
  shows "\<exists>out'. ingest_pack env dir_ops b' d' ref ikm att flr = (Ok out', d', b') \<and> io_idempotent_noop out' \<and>
    io_pack_id out' = io_pack_id out \<and> io_pack_version out' = io_pack_version out"
proof -
  obtain pack where ver: "verify_pack_ref env b ref ikm att flr = (Inr pack :: peer_cli_error ingest_error + knowledge_pack, b')"
    and ap: "apply_verified dir_ops d pack att = (Inr out, d')"
    using assms(1) by (auto simp: ingest_pack_def split: prod.splits sum.splits)
  let ?id = "pm_pack_id (kp_manifest pack)" and ?v = "pm_pack_version (kp_manifest pack)"
  from ap have led: "ledger d' ?id = Some ?v \<and> io_pack_id out = ?id \<and> io_pack_version out = ?v"
  proof (cases rule: dir.apply_verified_cases)
    case (applied sp)
    then show ?thesis by (auto simp: build_staged_def applied_outcome_def)
  next
    case noop
    then show ?thesis by (auto simp: noop_outcome_def)
  qed auto
  have "b' = b \<and> verify_pack_ref env b ref ikm att flr = (Inr pack :: peer_cli_error ingest_error + knowledge_pack, b)"
    using ver by (auto simp: verify_pack_ref_def open_pack_def split: prod.splits if_splits)
  moreover have "apply_verified dir_ops d' pack att = (Ok (noop_outcome pack), d')"
    using ledger_readable [OF conjunct1 [OF led] assms(2)] led
    by (simp add: apply_verified_def dir_last_applied_version_def Let_def)
  ultimately show ?thesis using led by (auto simp: ingest_pack_def noop_outcome_def)
qed

theorem reingest_is_noop_witness:
  "\<exists>out d' out'. ingest_pack sample_env dir_ops 0 sample_store sample_ref sample_ikm sample_attestation
      default_cipher_floor = (Ok out, d', 0) \<and>
    ingest_pack sample_env dir_ops 0 d' sample_ref sample_ikm sample_attestation default_cipher_floor = (Ok out', d', 0) \<and>
    io_idempotent_noop out'"
proof -
  obtain out d' where i: "ingest_pack sample_env dir_ops 0 sample_store sample_ref sample_ikm sample_attestation
      default_cipher_floor = (Ok out, d', 0)" and f: "ds_faults d' = []"
    using sample_ingested [of 0] by (auto simp: healthy_def)
  from reingest_is_noop [OF i f] i show ?thesis by blast
qed

section \<open>Sealing, opening and building\<close>

text \<open>C6. Opening what was sealed, with the same key material, peers and floor, returns the sealed payload
  under the sealed manifest, which differs from the original only in its authentication tags.\<close>

theorem open_after_seal:
  assumes "aead_correct env" "payload_roundtrips env (kp_payload k)"
    and "seal_pack env salt nonce_base b k ikm teacher learner chunk_size flr = (Ok r, b')"
  shows "open_pack env c r ikm teacher learner flr =
      (Ok \<lparr>kp_manifest = pr_manifest r, kp_payload = kp_payload k\<rparr>, c) \<and>
    clear_tags (pr_manifest r) = clear_tags (kp_manifest k)"
proof -
  from assms(3) have flr: "meets_cipher_floor (pm_cipher_suite (kp_manifest k)) flr"
    and body: "seal_body env salt nonce_base k ikm teacher learner chunk_size = Ok r"
    by (auto simp: seal_pack_def split: if_splits)
  have "pm_cipher_suite (pr_manifest r) = pm_cipher_suite (kp_manifest k)"
    by (rule clear_tags_fields [OF sealed_manifest [OF body]])
  with flr open_seal_body [OF assms(1,2) body] sealed_manifest [OF body] show ?thesis
    by (simp add: open_pack_def)
qed

theorem open_after_seal_witness:
  "open_pack sample_env 3 sample_ref sample_ikm sample_teacher sample_learner default_cipher_floor = (Ok sample_pack, 3)"
proof -
  have "seal_pack sample_env [1] 6 0 \<lparr>kp_manifest = sample_manifest, kp_payload = sample_payload\<rparr> sample_ikm
     sample_teacher sample_learner 2 default_cipher_floor = (Ok sample_ref, 0)"
    by (simp add: seal_pack_def sample_sealed_body)
  from open_after_seal [OF sample_aead _ this, of 3] show ?thesis by (simp add: sample_serde)
qed

text \<open>C7. No plaintext is accepted that did not verify: a pack that opens meets the cipher floor, every one of its
  chunks decrypted under the key derived for this ordered pair of peers with the manifest as associated data,
  its payload is what the concatenated plaintext parses to, and it is well formed.\<close>

theorem open_verifies_first:
  assumes "open_pack env b r ikm teacher learner flr = (Ok k, b')"
  shows "\<exists>key aad plaintext.
    meets_cipher_floor (pm_cipher_suite (pr_manifest r)) flr \<and>
    derive_content_key env ikm (pr_kdf_salt r) teacher learner = Ok key \<and>
    manifest_aad env (clear_tags (pr_manifest r)) = Ok aad \<and>
    map (\<lambda>c. decrypt_chunk env (pm_cipher_suite (pr_manifest r)) key (sc_nonce c) (sc_ciphertext c) aad) (pr_chunks r)
      = map Ok plaintext \<and>
    payload_from_slice env (concat plaintext) = Ok (kp_payload k) \<and>
    kp_manifest k = pr_manifest r \<and> pack_well_formed env k"
proof -
  from assms have flr: "meets_cipher_floor (pm_cipher_suite (pr_manifest r)) flr"
    and body: "open_body env r ikm teacher learner = Ok k" by (auto simp: open_pack_def split: if_splits)
  from body obtain key aad pt where
    *: "derive_content_key env ikm (pr_kdf_salt r) teacher learner = Ok key"
      "manifest_aad env (clear_tags (pr_manifest r)) = Ok aad"
      "payload_from_slice env pt = Ok (kp_payload k)" "kp_manifest k = pr_manifest r" "pack_well_formed env k"
    and oc: "open_chunks env (pm_cipher_suite (pr_manifest r)) key aad (pr_chunks r) = Ok pt"
    by (rule open_body_OkE)
  from open_chunks_OkD [OF oc] * flr show ?thesis by blast
qed

theorem open_verifies_first_witness:
  "\<exists>key. derive_content_key sample_env sample_ikm (pr_kdf_salt sample_ref) sample_teacher sample_learner = Ok key"
proof -
  have "open_pack sample_env 0 sample_ref sample_ikm sample_teacher sample_learner default_cipher_floor = (Ok sample_pack, 0)"
    using open_seal_body [OF sample_aead _ sample_sealed_body] by (simp add: open_pack_def sample_serde)
  from open_verifies_first [OF this] show ?thesis by blast
qed

text \<open>C8. Within a sealed pack no nonce is used twice, every nonce has the cipher's length, and the pack carries
  one tag per chunk.\<close>

theorem sealed_nonces_distinct:
  assumes "seal_pack env salt nonce_base b k ikm teacher learner chunk_size flr = (Ok r, b')"
  shows "distinct (map sc_nonce (pr_chunks r)) \<and> (\<forall>c \<in> set (pr_chunks r). length (sc_nonce c) = NONCE_LEN) \<and>
    pm_chunk_macs (pr_manifest r) = map (\<lambda>c. ChunkMac (extract_tag (sc_ciphertext c))) (pr_chunks r)"
proof -
  from assms have "seal_body env salt nonce_base k ikm teacher learner chunk_size = Ok r"
    by (auto simp: seal_pack_def split: if_splits)
  then show ?thesis
    by (rule seal_body_OkE) (simp add: seal_chunks_distinct_nonces seal_chunks_nonce_length seal_chunks_shape(4))
qed

theorem sealed_nonces_distinct_witness: "distinct (map sc_nonce (pr_chunks sample_ref))"
proof -
  have "seal_pack sample_env [1] 6 0 \<lparr>kp_manifest = sample_manifest, kp_payload = sample_payload\<rparr> sample_ikm
     sample_teacher sample_learner 2 default_cipher_floor = (Ok sample_ref, 0)"
    by (simp add: seal_pack_def sample_sealed_body)
  from sealed_nonces_distinct [OF this] show ?thesis by blast
qed

text \<open>C9. The cipher floor fails closed, at exactly the strength of the shipped suites. Both score 100. With a floor of at most 100 no
  seal and no open is ever refused as a downgrade, the counter does not move, and no sequence of messages moves it. With a
  higher floor every seal and every open is refused with the suite it found, whatever else is wrong with the pack, and is
  counted; and whatever messages arrive, a receiver with such a floor leaves its store untouched and applies nothing.\<close>

theorem downgrade_refused:
  assumes "flr = CipherFloor f" "pr_floor recv = flr"
  shows "let sealed = seal_pack env salt nonce_base b k ikm teacher learner chunk_size flr;
      opened = open_pack env c r ikm teacher learner flr; recv' = handle_all wire ops recv raws in
    if f \<le> 100
    then snd sealed = b \<and> (\<forall>suite. fst sealed \<noteq> Err (DowngradeBlocked suite)) \<and>
      snd opened = c \<and> (\<forall>suite. fst opened \<noteq> Err (DowngradeBlocked suite)) \<and> pr_blocked recv' = pr_blocked recv
    else sealed = (Err (DowngradeBlocked (pm_cipher_suite (kp_manifest k))), b + 1) \<and>
      opened = (Err (DowngradeBlocked (pm_cipher_suite (pr_manifest r))), c + 1) \<and>
      pr_store recv' = pr_store recv \<and> rh_packs_applied (pr_health recv') = rh_packs_applied (pr_health recv)"
proof (cases "f \<le> 100")
  case True
  then show ?thesis
    using handle_all_above_floor [of recv f wire ops raws] assms
    by (simp add: seal_pack_def open_pack_def cipher_strength_eq seal_body_no_downgrade open_body_no_downgrade)
next
  case False
  then show ?thesis
    using handle_all_below_floor [of recv f wire ops raws] assms
    by (simp add: seal_pack_def open_pack_def cipher_strength_eq record_downgrade_blocked_def not_le)
qed

theorem downgrade_refused_witness:
  "fst (open_pack sample_env 0 sample_ref sample_ikm sample_teacher sample_learner (CipherFloor 101)) = Err (DowngradeBlocked ChaCha20Poly1305) \<and>
   pr_store (handle_all sample_env dir_ops (sample_receiver\<lparr>pr_floor := CipherFloor 101\<rparr>) [sample_frame_1, sample_frame_0]) = sample_store"
proof -
  have "pr_floor (sample_receiver\<lparr>pr_floor := CipherFloor 101\<rparr>) = CipherFloor 101" by simp
  note facts = downgrade_refused [OF HOL.refl this, where env = sample_env and c = 0 and r = sample_ref and ikm = sample_ikm and
      teacher = sample_teacher and learner = sample_learner and wire = sample_env and ops = dir_ops and raws = "[sample_frame_1, sample_frame_0]"]
  have "\<not> (101 :: u32) \<le> 100" by (simp add: word_le_nat_alt)
  moreover have "pm_cipher_suite (pr_manifest sample_ref) = ChaCha20Poly1305"
    "pr_store (sample_receiver\<lparr>pr_floor := CipherFloor 101\<rparr>) = sample_store"
    using sample_cipher by (simp_all add: sample_ref_def sample_receiver_def new_receiver_def)
  ultimately show ?thesis using facts by (simp add: Let_def)
qed

text \<open>The key-derivation input separates peers and roles: two pairs of fingerprints of realistic length give the
  same input only when they are the same ordered pair.\<close>

theorem kdf_input_separates:
  assumes "length (fingerprint_text t) < 2 ^ 32" "length (fingerprint_text t') < 2 ^ 32"
  shows "build_kdf_info t l = build_kdf_info t' l' \<longleftrightarrow> t = t' \<and> l = l'"
  using assms kdf_info_inj by blast

theorem kdf_input_separates_witness:
  "build_kdf_info sample_teacher sample_learner \<noteq> build_kdf_info sample_learner sample_teacher"
  using kdf_input_separates [of sample_teacher sample_learner sample_learner sample_teacher]
  by (simp add: sample_teacher_def sample_learner_def)

text \<open>C10. Validation accepts exactly the well-formed packs: supported schema, bounded and matching counts, finite embeddings
  of the declared dimension, hashes of the five sections, edges closed over the entities, and a TTL after creation.\<close>

theorem validate_exact: "validate env k = Ok () \<longleftrightarrow> pack_well_formed env k"
  by (rule validate_Ok_iff)

text \<open>C11. A pack the builder returns is well formed, keeps every selected entity and exactly the edges and events inside the
  selection, reports how many of each it dropped, and in summary-first mode carries no item body and no raw fold.\<close>

theorem builder_faithful:
  assumes "build_pack env sel params = Ok b"
  shows "let p = kp_payload (bu_pack b); inside = (\<lambda>i. i \<in> ee_entity_id ` set (ts_entities sel)) in
    pack_well_formed env (bu_pack b) \<and> pp_entities p = ts_entities sel \<and>
    pp_edges p = filter (\<lambda>e. inside (ed_src_id e) \<and> inside (ed_dst_id e)) (ts_edges sel) \<and>
    pp_temporal p = filter (\<lambda>t. inside (te_entity_id t)) (ts_temporal sel) \<and>
    length (ts_edges sel) = length (pp_edges p) + br_dropped_edges (bu_report b) \<and>
    length (ts_temporal sel) = length (pp_temporal p) + br_dropped_temporal (bu_report b) \<and>
    (bp_summary_first params \<longrightarrow>
      (\<forall>i \<in> set (pp_items p). ti_body i = None) \<and> (\<forall>f \<in> set (pp_folds p). fe_raw_trajectory f = []))"
  using assms
proof (rule build_pack_OkE)
  fix m
  assume "bu_pack b = \<lparr>kp_manifest = m, kp_payload = fst (select_payload sel params)\<rparr>"
    "bu_report b = snd (select_payload sel params)" "pack_well_formed env (bu_pack b)"
  then show ?thesis
    using select_payload_summary [of params sel] select_payload_counts [of sel params]
    by (simp add: Let_def select_payload_parts)
qed

theorem builder_faithful_witness:
  "\<exists>b. build_pack sample_env sample_selection sample_params = Ok b \<and> pack_well_formed sample_env (bu_pack b)"
  using sample_built builder_faithful [OF sample_built] by (auto simp: Let_def)

text \<open>C12. When the builder's own validation refuses a pack, the caller's selection or parameters are at fault: too many or
  too large rows, a bad embedding, a TTL in the past. It never refuses its own counts, hashes, schema or edges.\<close>

theorem build_refusal_is_callers:
  assumes "build_pack env sel params = Err (BuildInvalid e)"
  shows "caller_fault e"
proof -
  from assms obtain m where "build_manifest env (fst (select_payload sel params)) params = Ok m"
    "validate env \<lparr>kp_manifest = m, kp_payload = fst (select_payload sel params)\<rparr> = Err e"
    by (auto simp: build_pack_def Let_def and_then_eq_Err map_err_eq_Err build_manifest_no_invalid
        split: prod.splits)
  with built_pack_rejection [OF _ select_payload_closed] show ?thesis by blast
qed

theorem build_refusal_is_callers_witness: "caller_fault (TtlNotInFuture 10 5)"
  by (rule build_refusal_is_callers [OF late_refused])

end
